(* ===== verification/Py_Prelude.thy ===== *)
theory Py_Prelude
  imports Complex_Main "HOL-Library.AList"
begin

text \<open>
  The part of the Python language and of its built-in types that the sources under
  \<^verbatim>\<open>src/clients/python\<close> use, and the lemmas the components share.

  \<^item> Exceptions are values: a computation that may raise has type \<open>'e + 'a\<close>, with \<open>Inl\<close> the
    exception. A computation that also changes state has type \<open>'s \<Rightarrow> ('e + 'a) \<times> 's\<close>, so the
    state an exception leaves behind is kept, as Python keeps it.
  \<^item> A \<open>str\<close> is an Isabelle \<open>string\<close>; a \<open>char\<close> stands for the code point of its value, so the
    code points 0 to 255 are represented and every character class below (white space, digits,
    case) is Python's on that range. Code points above 255 are not represented.
  \<^item> A \<open>dict\<close> is an association list with distinct keys in insertion order: assignment to a
    present key keeps its position, a new key goes to the end (\<open>AList.update\<close>).
  \<^item> Decoded JSON is the datatype \<open>json\<close>; \<open>.get\<close> on anything but an object raises
    \<open>AttributeError\<close>.
\<close>

section \<open>Results and stateful computations\<close>

named_theorems res_simps \<open>evaluation of result and state combinators\<close>

definition bindE :: "'e + 'a \<Rightarrow> ('a \<Rightarrow> 'e + 'b) \<Rightarrow> 'e + 'b" where
  "bindE m f = (case m of Inl e \<Rightarrow> Inl e | Inr a \<Rightarrow> f a)"

definition guardE :: "bool \<Rightarrow> 'e \<Rightarrow> 'e + unit" where
  "guardE b e = (if b then Inr () else Inl e)"

fun mapE :: "('a \<Rightarrow> 'e + 'b) \<Rightarrow> 'a list \<Rightarrow> 'e + 'b list" where
  "mapE f [] = Inr []"
| "mapE f (x # xs) = bindE (f x) (\<lambda>y. bindE (mapE f xs) (\<lambda>ys. Inr (y # ys)))"

fun eachE :: "('a \<Rightarrow> 'e + unit) \<Rightarrow> 'a list \<Rightarrow> 'e + unit" where
  "eachE f [] = Inr ()"
| "eachE f (x # xs) = bindE (f x) (\<lambda>_. eachE f xs)"

fun foldE :: "('acc \<Rightarrow> 'a \<Rightarrow> 'e + 'acc) \<Rightarrow> 'acc \<Rightarrow> 'a list \<Rightarrow> 'e + 'acc" where
  "foldE f acc [] = Inr acc"
| "foldE f acc (x # xs) = bindE (f acc x) (\<lambda>acc'. foldE f acc' xs)"

text \<open>State and exceptions: \<open>bindX\<close> is sequencing, \<open>tryX\<close> is \<^verbatim>\<open>try/except\<close> (the handler sees the
  state the exception left), \<open>finallyX\<close> is \<^verbatim>\<open>try/finally\<close> with a clean-up that cannot raise.\<close>

type_synonym ('s, 'e, 'a) exec = "'s \<Rightarrow> ('e + 'a) \<times> 's"

definition retX :: "'a \<Rightarrow> ('s, 'e, 'a) exec" where
  "retX a s = (Inr a, s)"

definition raiseX :: "'e \<Rightarrow> ('s, 'e, 'a) exec" where
  "raiseX e s = (Inl e, s)"

definition bindX :: "('s, 'e, 'a) exec \<Rightarrow> ('a \<Rightarrow> ('s, 'e, 'b) exec) \<Rightarrow> ('s, 'e, 'b) exec" where
  "bindX m f s = (case m s of (Inl e, s') \<Rightarrow> (Inl e, s') | (Inr a, s') \<Rightarrow> f a s')"

definition tryX :: "('s, 'e, 'a) exec \<Rightarrow> ('e \<Rightarrow> ('s, 'e, 'a) exec) \<Rightarrow> ('s, 'e, 'a) exec" where
  "tryX m h s = (case m s of (Inl e, s') \<Rightarrow> h e s' | (Inr a, s') \<Rightarrow> (Inr a, s'))"

definition finallyX :: "('s, 'e, 'a) exec \<Rightarrow> ('s \<Rightarrow> 's) \<Rightarrow> ('s, 'e, 'a) exec" where
  "finallyX m g s = (case m s of (r, s') \<Rightarrow> (r, g s'))"

definition liftX :: "'e + 'a \<Rightarrow> ('s, 'e, 'a) exec" where
  "liftX r s = (r, s)"

section \<open>Strings\<close>

abbreviation code :: "char \<Rightarrow> nat" where
  "code c \<equiv> of_char c"

definition is_lower :: "char \<Rightarrow> bool" where
  "is_lower c = (97 \<le> code c \<and> code c \<le> 122)"

definition is_upper :: "char \<Rightarrow> bool" where
  "is_upper c = (65 \<le> code c \<and> code c \<le> 90)"

definition is_digit :: "char \<Rightarrow> bool" where
  "is_digit c = (48 \<le> code c \<and> code c \<le> 57)"

definition is_space :: "char \<Rightarrow> bool" where
  "is_space c = ((9 \<le> code c \<and> code c \<le> 13) \<or> (28 \<le> code c \<and> code c \<le> 32)
     \<or> code c = 133 \<or> code c = 160)"

text \<open>\<open>str.isdigit\<close> also accepts the superscripts one, two and three.\<close>

definition py_isdigit_char :: "char \<Rightarrow> bool" where
  "py_isdigit_char c = (is_digit c \<or> code c = 178 \<or> code c = 179 \<or> code c = 185)"

definition py_isdigit :: "string \<Rightarrow> bool" where
  "py_isdigit s = (s \<noteq> [] \<and> list_all py_isdigit_char s)"

definition lower_char :: "char \<Rightarrow> char" where
  "lower_char c = (if is_upper c \<or> (192 \<le> code c \<and> code c \<le> 222 \<and> code c \<noteq> 215)
     then char_of (code c + 32) else c)"

definition py_lower :: "string \<Rightarrow> string" where
  "py_lower s = map lower_char s"

definition py_lstrip :: "string \<Rightarrow> string" where
  "py_lstrip s = dropWhile is_space s"

definition py_strip :: "string \<Rightarrow> string" where
  "py_strip s = rev (dropWhile is_space (rev (dropWhile is_space s)))"

definition lstrip_char :: "char \<Rightarrow> string \<Rightarrow> string" where
  "lstrip_char c s = dropWhile (\<lambda>x. x = c) s"

definition rstrip_char :: "char \<Rightarrow> string \<Rightarrow> string" where
  "rstrip_char c s = rev (dropWhile (\<lambda>x. x = c) (rev s))"

fun startswith :: "string \<Rightarrow> string \<Rightarrow> bool" where
  "startswith s [] = True"
| "startswith [] (p # ps) = False"
| "startswith (c # cs) (p # ps) = (c = p \<and> startswith cs ps)"

fun contains_sub :: "string \<Rightarrow> string \<Rightarrow> bool" where
  "contains_sub p [] = (p = [])"
| "contains_sub p (c # cs) = (startswith (c # cs) p \<or> contains_sub p cs)"

fun split_by :: "('a \<Rightarrow> bool) \<Rightarrow> 'a list \<Rightarrow> 'a list list" where
  "split_by p [] = [[]]"
| "split_by p (c # cs) =
     (if p c then [] # split_by p cs
      else (case split_by p cs of [] \<Rightarrow> [[c]] | w # ws \<Rightarrow> (c # w) # ws))"

abbreviation py_split :: "char \<Rightarrow> string \<Rightarrow> string list" where
  "py_split sep \<equiv> split_by (\<lambda>c. c = sep)"

definition py_words :: "string \<Rightarrow> string list" where
  "py_words s = filter (\<lambda>w. w \<noteq> []) (split_by is_space s)"

fun py_join :: "'a list \<Rightarrow> 'a list list \<Rightarrow> 'a list" where
  "py_join sep [] = []"
| "py_join sep [w] = w"
| "py_join sep (w # v # ws) = w @ sep @ py_join sep (v # ws)"

text \<open>\<^verbatim>\<open>s.partition(sep)\<close> as (head, whether the separator was found, tail).\<close>

fun py_partition :: "char \<Rightarrow> string \<Rightarrow> string \<times> bool \<times> string" where
  "py_partition sep [] = ([], False, [])"
| "py_partition sep (c # cs) =
     (if c = sep then ([], True, cs)
      else (case py_partition sep cs of (h, f, t) \<Rightarrow> (c # h, f, t)))"

section \<open>Integers and their text\<close>

definition digit_char :: "nat \<Rightarrow> char" where
  "digit_char d = char_of (48 + d)"

definition digit_val :: "char \<Rightarrow> nat" where
  "digit_val c = code c - 48"

fun show_nat :: "nat \<Rightarrow> string" where
  "show_nat n = (if n < 10 then [digit_char n] else show_nat (n div 10) @ [digit_char (n mod 10)])"

definition show_int :: "int \<Rightarrow> string" where
  "show_int i = (if i < 0 then CHR ''-'' # show_nat (nat (- i)) else show_nat (nat i))"

definition digits_val :: "string \<Rightarrow> nat" where
  "digits_val s = foldl (\<lambda>a c. a * 10 + digit_val c) 0 s"

text \<open>\<^verbatim>\<open>int(s)\<close>: optional white space and sign, then decimal digits that single underscores may
  separate, at most 4300 of them; \<open>None\<close> stands for \<open>ValueError\<close>.\<close>

definition int_body :: "string \<Rightarrow> nat option" where
  "int_body s =
     (let ws = py_split CHR ''_'' s; ds = concat ws in
      if list_all (\<lambda>w. w \<noteq> [] \<and> list_all is_digit w) ws \<and> length ds \<le> 4300
      then Some (digits_val ds) else None)"

definition parse_int :: "string \<Rightarrow> int option" where
  "parse_int s =
     (case py_strip s of
        [] \<Rightarrow> None
      | c # cs \<Rightarrow>
          (if c = CHR ''-'' then map_option (\<lambda>n. - int n) (int_body cs)
           else if c = CHR ''+'' then map_option int (int_body cs)
           else map_option int (int_body (c # cs))))"

section \<open>Dictionaries and decoded JSON\<close>

type_synonym ('k, 'v) dict = "('k \<times> 'v) list"

abbreviation dict_get :: "('k, 'v) dict \<Rightarrow> 'k \<Rightarrow> 'v option" where
  "dict_get \<equiv> map_of"

abbreviation dict_set :: "'k \<Rightarrow> 'v \<Rightarrow> ('k, 'v) dict \<Rightarrow> ('k, 'v) dict" where
  "dict_set \<equiv> AList.update"

abbreviation dict_pop :: "'k \<Rightarrow> ('k, 'v) dict \<Rightarrow> ('k, 'v) dict" where
  "dict_pop \<equiv> AList.delete"

abbreviation dict_ok :: "('k, 'v) dict \<Rightarrow> bool" where
  "dict_ok d \<equiv> distinct (map fst d)"

text \<open>A float: a finite value, an infinity, or not a number. Arithmetic is in \<^verbatim>\<open>Py_Float\<close>.\<close>

datatype float_value = Finite rat | PosInf | NegInf | NaN

datatype json = JNull | JBool bool | JInt int | JFloat float_value | JStr string | JList "json list"
  | JObj "(string \<times> json) list"

fun truthy :: "json \<Rightarrow> bool" where
  "truthy JNull = False"
| "truthy (JBool b) = b"
| "truthy (JInt i) = (i \<noteq> 0)"
| "truthy (JFloat f) = (f \<noteq> Finite 0)"
| "truthy (JStr s) = (s \<noteq> [])"
| "truthy (JList xs) = (xs \<noteq> [])"
| "truthy (JObj kvs) = (kvs \<noteq> [])"

text \<open>\<^verbatim>\<open>a or b\<close>, and \<^verbatim>\<open>j.get(k, d)\<close> with the exception of a non-object as an argument.\<close>

definition jor :: "json \<Rightarrow> json \<Rightarrow> json" where
  "jor a b = (if truthy a then a else b)"

definition jget_or :: "'e \<Rightarrow> json \<Rightarrow> string \<Rightarrow> json \<Rightarrow> 'e + json" where
  "jget_or e j k d =
     (case j of JObj kvs \<Rightarrow> Inr (case map_of kvs k of None \<Rightarrow> d | Some v \<Rightarrow> v) | _ \<Rightarrow> Inl e)"

section \<open>Lemmas: results\<close>

lemma bindE_simps [simp, res_simps]:
  "bindE (Inl e) f = Inl e" "bindE (Inr a) f = f a"
  by (simp_all add: bindE_def)

lemma guardE_simps [simp, res_simps]:
  "guardE True e = Inr ()" "guardE False e = Inl e"
  by (simp_all add: guardE_def)

lemma bindE_eq_Inr: "bindE m f = Inr b \<longleftrightarrow> (\<exists>a. m = Inr a \<and> f a = Inr b)"
  by (cases m) auto

lemma bindE_unit_Inr [simp]: "bindE m f = Inr b \<longleftrightarrow> m = Inr () \<and> f () = Inr b"
  for m :: "'e + unit"
  by (cases m) auto

lemma bindE_eq_Inl: "bindE m f = Inl e \<longleftrightarrow> m = Inl e \<or> (\<exists>a. m = Inr a \<and> f a = Inl e)"
  by (cases m) auto

lemma guardE_eq [simp]:
  "guardE b e = Inr u \<longleftrightarrow> b" "guardE b e = Inl e' \<longleftrightarrow> \<not> b \<and> e = e'"
  by (auto simp: guardE_def)

lemma eachE_eq_Inr: "eachE f xs = Inr () \<longleftrightarrow> (\<forall>x \<in> set xs. f x = Inr ())"
  by (induction xs) (auto simp: bindE_eq_Inr)

lemma bindX_simps [res_simps]:
  "m s = (Inl e, s') \<Longrightarrow> bindX m f s = (Inl e, s')"
  "m s = (Inr a, s') \<Longrightarrow> bindX m f s = f a s'"
  by (simp_all add: bindX_def)

lemma retX_bindX [simp]: "bindX (retX a) f = f a"
  by (rule ext) (simp add: bindX_def retX_def)

lemma raiseX_bindX [simp]: "bindX (raiseX e) f = raiseX e"
  by (rule ext) (simp add: bindX_def raiseX_def)

lemma bindX_assoc: "bindX (bindX m f) g = bindX m (\<lambda>a. bindX (f a) g)"
  by (rule ext) (simp add: bindX_def split: prod.splits sum.splits)

section \<open>Lemmas: splitting and joining\<close>

lemma split_by_nonempty [simp]: "split_by p s \<noteq> []"
  by (cases s) (auto split: list.splits)

lemma split_by_Cons_no: "\<not> p c \<Longrightarrow> \<exists>w ws. split_by p cs = w # ws \<and> split_by p (c # cs) = (c # w) # ws"
  by (cases "split_by p cs") auto

lemma split_by_no_sep: "w \<in> set (split_by p s) \<Longrightarrow> c \<in> set w \<Longrightarrow> \<not> p c"
proof (induction s arbitrary: w)
  case Nil
  then show ?case by simp
next
  case (Cons a s)
  then show ?case
    by (cases "split_by p s") (fastforce split: if_splits)+
qed

lemma py_join_Cons: "ws \<noteq> [] \<Longrightarrow> py_join sep (w # ws) = w @ sep @ py_join sep ws"
  by (cases ws) auto

lemma join_split: "py_join [sep] (py_split sep s) = s"
proof (induction s)
  case Nil
  then show ?case by simp
next
  case (Cons a s)
  obtain w ws where sp: "py_split sep s = w # ws"
    by (metis split_by_nonempty neq_Nil_conv)
  show ?case
    using Cons sp by (cases ws) auto
qed

lemma split_by_no_sep_single: "list_all (\<lambda>c. \<not> p c) w \<Longrightarrow> split_by p w = [w]"
  by (induction w) auto

lemma split_by_append_sep:
  "list_all (\<lambda>c. \<not> p c) w \<Longrightarrow> p x \<Longrightarrow> split_by p (w @ x # s) = w # split_by p s"
  by (induction w) auto

lemma split_join:
  assumes "ws \<noteq> []" and "\<forall>w \<in> set ws. sep \<notin> set w"
  shows "py_split sep (py_join [sep] ws) = ws"
  using assms
proof (induction ws)
  case Nil
  then show ?case by simp
next
  case (Cons w ws)
  have nw: "list_all (\<lambda>c. \<not> c = sep) w"
    using Cons.prems(2) by (auto simp: list_all_iff)
  show ?case
  proof (cases ws)
    case Nil
    with nw show ?thesis by (simp add: split_by_no_sep_single)
  next
    case (Cons v vs)
    with nw Cons.prems Cons.IH show ?thesis
      by (simp add: split_by_append_sep)
  qed
qed

lemma startswith_iff: "startswith s p \<longleftrightarrow> (\<exists>t. s = p @ t)"
  by (induction s p rule: startswith.induct) auto

lemma those_map_Some [simp]: "those (map Some ys) = Some ys"
  by (induction ys) auto

lemma those_eq_Some: "those xs = Some ys \<longleftrightarrow> xs = map Some ys"
proof
  show "those xs = Some ys \<Longrightarrow> xs = map Some ys"
    by (induction xs arbitrary: ys) (auto split: option.splits)
qed simp

lemma those_map_set: "those (map f xs) = Some ys \<Longrightarrow> y \<in> set ys \<Longrightarrow> \<exists>x \<in> set xs. f x = Some y"
  by (induction xs arbitrary: ys) (auto split: option.splits)

lemma those_length: "those xs = Some ys \<Longrightarrow> length ys = length xs"
  by (simp add: those_eq_Some)

section \<open>Lemmas: numbers\<close>

declare show_nat.simps [simp del]

lemma code_digit_char [simp]: "d < 10 \<Longrightarrow> code (digit_char d) = 48 + d"
  by (simp add: digit_char_def)

lemma digit_val_digit_char [simp]: "d < 10 \<Longrightarrow> digit_val (digit_char d) = d"
  by (simp add: digit_val_def)

lemma is_digit_digit_char [simp]: "d < 10 \<Longrightarrow> is_digit (digit_char d)"
  by (simp add: is_digit_def)

lemma show_nat_digits: "list_all is_digit (show_nat n)"
proof (induction n rule: show_nat.induct)
  case (1 n)
  then show ?case
    by (cases "n < 10") (simp_all add: show_nat.simps [of n])
qed

lemma show_nat_nonempty [simp]: "show_nat n \<noteq> []"
  by (simp add: show_nat.simps [of n])

lemma digits_val_snoc [simp]: "digits_val (s @ [c]) = digits_val s * 10 + digit_val c"
  by (simp add: digits_val_def)

lemma digits_val_show_nat [simp]: "digits_val (show_nat n) = n"
proof (induction n rule: show_nat.induct)
  case (1 n)
  show ?case
  proof (cases "n < 10")
    case True
    then show ?thesis by (simp add: show_nat.simps [of n] digits_val_def)
  next
    case False
    with 1 show ?thesis by (simp add: show_nat.simps [of n])
  qed
qed

lemma is_digit_not_space: "is_digit c \<Longrightarrow> \<not> is_space c"
  by (auto simp: is_digit_def is_space_def)

lemma py_strip_id: "list_all (\<lambda>c. \<not> is_space c) s \<Longrightarrow> py_strip s = s"
proof -
  assume a: "list_all (\<lambda>c. \<not> is_space c) s"
  then have "dropWhile is_space s = s" "dropWhile is_space (rev s) = rev s"
    by (auto simp: dropWhile_eq_self_iff list_all_iff hd_rev)
  then show ?thesis by (simp add: py_strip_def)
qed

lemma length_show_nat_le: "n < 10 ^ k \<Longrightarrow> 0 < k \<Longrightarrow> length (show_nat n) \<le> k"
proof (induction n arbitrary: k rule: show_nat.induct)
  case (1 n)
  show ?case
  proof (cases "n < 10")
    case True
    with 1 show ?thesis by (simp add: show_nat.simps [of n])
  next
    case False
    then obtain j where k: "k = Suc j" "0 < j"
      using "1.prems" by (cases k; cases "k - 1") auto
    have "n div 10 < 10 ^ j"
      using "1.prems"(1) k by (simp add: less_mult_imp_div_less mult.commute)
    with False k "1.IH" show ?thesis by (simp add: show_nat.simps [of n])
  qed
qed

lemma int_body_show_nat: "n < 10 ^ 4300 \<Longrightarrow> int_body (show_nat n) = Some n"
proof -
  assume n: "n < 10 ^ 4300"
  have d: "list_all is_digit (show_nat n)" by (rule show_nat_digits)
  then have "list_all (\<lambda>c. \<not> c = CHR ''_'') (show_nat n)"
    by (auto simp: list_all_iff is_digit_def)
  then have s: "py_split CHR ''_'' (show_nat n) = [show_nat n]"
    by (rule split_by_no_sep_single)
  from n have "length (show_nat n) \<le> 4300"
    by (rule length_show_nat_le) simp
  with s d show ?thesis by (simp add: int_body_def Let_def)
qed

lemma parse_int_show_nat: "n < 10 ^ 4300 \<Longrightarrow> parse_int (show_nat n) = Some (int n)"
proof -
  assume n: "n < 10 ^ 4300"
  have d: "list_all is_digit (show_nat n)" by (rule show_nat_digits)
  then have st: "py_strip (show_nat n) = show_nat n"
    by (intro py_strip_id) (auto simp: list_all_iff dest: is_digit_not_space)
  obtain c cs where sh: "show_nat n = c # cs"
    by (metis show_nat_nonempty neq_Nil_conv)
  with d have "is_digit c" by simp
  then have "c \<noteq> CHR ''-''" "c \<noteq> CHR ''+''" by (auto simp: is_digit_def)
  with st sh int_body_show_nat [OF n] show ?thesis
    by (simp add: parse_int_def)
qed

section \<open>Lemmas: dictionaries\<close>

lemma dict_get_set [simp]: "dict_get (dict_set k v d) = (dict_get d)(k \<mapsto> v)"
  by (rule update_conv')

lemma dict_get_pop [simp]: "dict_get (dict_pop k d) = (dict_get d)(k := None)"
  by (rule delete_conv')

lemma dict_ok_set [simp, intro]: "dict_ok d \<Longrightarrow> dict_ok (dict_set k v d)"
  by (rule distinct_update)

lemma dict_ok_pop [simp, intro]: "dict_ok d \<Longrightarrow> dict_ok (dict_pop k d)"
  by (simp add: distinct_delete)

lemma dict_set_same: "dict_get d k = Some v \<Longrightarrow> dict_set k v d = d"
  by (induction d) (auto split: if_splits)

lemma dict_keys_set [simp]: "fst ` set (dict_set k v d) = insert k (fst ` set d)"
  using dom_update [of k v d] by (simp add: dom_map_of_conv_image_fst)

lemma dict_get_in: "dict_get d k = Some v \<Longrightarrow> (k, v) \<in> set d"
  by (rule map_of_SomeD)

lemma dict_in_get: "dict_ok d \<Longrightarrow> (k, v) \<in> set d \<Longrightarrow> dict_get d k = Some v"
  by simp

end
