(* ===== verification/Py_Regex.thy ===== *)
theory Py_Regex
  imports Py_Prelude
begin

text \<open>
  The regular expressions of the sources, written as terms and run by derivatives. The sources
  use character classes, grouping, alternation, \<open>*\<close> and \<open>?\<close>, always between \<open>^\<close> and \<open>$\<close>. With
  \<^verbatim>\<open>re.match\<close> a \<open>$\<close> also holds just before a final line feed, which \<open>re_match\<close> spells out;
  \<^verbatim>\<open>re.fullmatch\<close> leaves no such gap (\<open>re_fullmatch\<close>). The relation \<open>in_re\<close> is the language the
  expression denotes, and the matcher is proved to decide it.
\<close>

datatype rexp = REps | RNone | RChr "char \<Rightarrow> bool" | RAlt rexp rexp | RSeq rexp rexp | RStar rexp

abbreviation ROpt :: "rexp \<Rightarrow> rexp" where
  "ROpt r \<equiv> RAlt r REps"

fun nullable :: "rexp \<Rightarrow> bool" where
  "nullable REps = True"
| "nullable RNone = False"
| "nullable (RChr p) = False"
| "nullable (RAlt r q) = (nullable r \<or> nullable q)"
| "nullable (RSeq r q) = (nullable r \<and> nullable q)"
| "nullable (RStar r) = True"

fun deriv :: "char \<Rightarrow> rexp \<Rightarrow> rexp" where
  "deriv c REps = RNone"
| "deriv c RNone = RNone"
| "deriv c (RChr p) = (if p c then REps else RNone)"
| "deriv c (RAlt r q) = RAlt (deriv c r) (deriv c q)"
| "deriv c (RSeq r q) =
     (if nullable r then RAlt (RSeq (deriv c r) q) (deriv c q) else RSeq (deriv c r) q)"
| "deriv c (RStar r) = RSeq (deriv c r) (RStar r)"

fun re_fullmatch :: "rexp \<Rightarrow> string \<Rightarrow> bool" where
  "re_fullmatch r [] = nullable r"
| "re_fullmatch r (c # cs) = re_fullmatch (deriv c r) cs"

definition newline :: char where
  "newline = char_of (10::nat)"

definition re_match :: "rexp \<Rightarrow> string \<Rightarrow> bool" where
  "re_match r s = (re_fullmatch r s \<or> (s \<noteq> [] \<and> last s = newline \<and> re_fullmatch r (butlast s)))"

inductive in_re :: "rexp \<Rightarrow> string \<Rightarrow> bool" where
  eps: "in_re REps []"
| chr: "p c \<Longrightarrow> in_re (RChr p) [c]"
| alt_left: "in_re r s \<Longrightarrow> in_re (RAlt r q) s"
| alt_right: "in_re q s \<Longrightarrow> in_re (RAlt r q) s"
| seq: "in_re r s \<Longrightarrow> in_re q t \<Longrightarrow> in_re (RSeq r q) (s @ t)"
| star_nil: "in_re (RStar r) []"
| star_app: "in_re r s \<Longrightarrow> in_re (RStar r) t \<Longrightarrow> in_re (RStar r) (s @ t)"

inductive_simps in_re_eps [simp]: "in_re REps s"
inductive_simps in_re_none [simp]: "in_re RNone s"
inductive_simps in_re_chr: "in_re (RChr p) s"
inductive_simps in_re_alt [simp]: "in_re (RAlt r q) s"
inductive_simps in_re_seq: "in_re (RSeq r q) s"

section \<open>The matcher decides the language\<close>

lemma nullable_iff: "nullable r \<longleftrightarrow> in_re r []"
  by (induction r) (auto simp: in_re_chr in_re_seq intro: star_nil)

lemma star_Cons_split:
  assumes "in_re (RStar r) (c # s)"
  shows "\<exists>u v. s = u @ v \<and> in_re r (c # u) \<and> in_re (RStar r) v"
  using assms
proof (induction "RStar r" "c # s" arbitrary: s rule: in_re.induct)
  case (star_app s' t)
  then show ?case
    by (cases s') (auto simp: Cons_eq_append_conv)
qed

lemma in_re_seq_Cons:
  "in_re (RSeq r q) (c # s) \<longleftrightarrow>
     (\<exists>u v. s = u @ v \<and> in_re r (c # u) \<and> in_re q v) \<or> (in_re r [] \<and> in_re q (c # s))"
  by (auto simp: in_re_seq Cons_eq_append_conv)

lemma in_re_chr_seq [simp]:
  "in_re (RSeq (RChr p) q) (c # s) \<longleftrightarrow> p c \<and> in_re q s" "\<not> in_re (RSeq (RChr p) q) []"
  by (simp_all add: in_re_seq_Cons in_re_chr in_re_seq [of _ _ "[]"])

lemma in_re_deriv: "in_re (deriv c r) s \<longleftrightarrow> in_re r (c # s)"
proof (induction r arbitrary: s)
  case (RSeq r q)
  then show ?case
    by (auto simp: in_re_seq_Cons nullable_iff in_re_seq [of "deriv c r"])
next
  case (RStar r)
  show ?case
  proof
    assume "in_re (deriv c (RStar r)) s"
    then show "in_re (RStar r) (c # s)"
      using RStar by (auto simp: in_re_seq dest: star_app [of r "c # _"])
  next
    assume "in_re (RStar r) (c # s)"
    then show "in_re (deriv c (RStar r)) s"
      using RStar by (auto simp: in_re_seq dest: star_Cons_split)
  qed
qed (auto simp: in_re_chr)

lemma re_fullmatch_iff: "re_fullmatch r s \<longleftrightarrow> in_re r s"
  by (induction r s rule: re_fullmatch.induct) (auto simp: nullable_iff in_re_deriv)

lemma re_match_iff: "re_match r s \<longleftrightarrow> in_re r s \<or> (\<exists>t. s = t @ [newline] \<and> in_re r t)"
  by (cases s rule: rev_cases) (auto simp: re_match_def re_fullmatch_iff)

section \<open>The shapes the sources use\<close>

lemma in_re_star_chr: "in_re (RStar (RChr p)) s \<longleftrightarrow> list_all p s"
proof (induction s)
  case Nil
  show ?case by (auto intro: star_nil)
next
  case (Cons c s)
  have "in_re (RStar (RChr p)) (c # s) \<longleftrightarrow> in_re (deriv c (RStar (RChr p))) s"
    by (simp add: in_re_deriv del: deriv.simps)
  also have "\<dots> \<longleftrightarrow> p c \<and> in_re (RStar (RChr p)) s"
    by (auto simp: in_re_seq)
  finally show ?case using Cons by simp
qed

text \<open>\<^verbatim>\<open>[E]([M]*[E])?\<close>: starts and ends in \<open>E\<close>, everything between in \<open>M\<close>.\<close>

definition edged :: "(char \<Rightarrow> bool) \<Rightarrow> (char \<Rightarrow> bool) \<Rightarrow> string \<Rightarrow> bool" where
  "edged e m s = (s \<noteq> [] \<and> e (hd s) \<and> e (last s) \<and> list_all m (butlast (tl s)))"

definition edged_re :: "(char \<Rightarrow> bool) \<Rightarrow> (char \<Rightarrow> bool) \<Rightarrow> rexp" where
  "edged_re e m = RSeq (RChr e) (ROpt (RSeq (RStar (RChr m)) (RChr e)))"

lemma in_re_mid_edge:
  "in_re (RSeq (RStar (RChr m)) (RChr e)) s \<longleftrightarrow> s \<noteq> [] \<and> e (last s) \<and> list_all m (butlast s)"
  by (cases s rule: rev_cases) (auto simp: in_re_seq in_re_star_chr in_re_chr)

lemma in_re_edged: "in_re (edged_re e m) s \<longleftrightarrow> edged e m s"
proof (cases s)
  case Nil
  then show ?thesis by (simp add: edged_re_def edged_def)
next
  case (Cons c cs)
  have "in_re (edged_re e m) s \<longleftrightarrow> e c \<and> in_re (ROpt (RSeq (RStar (RChr m)) (RChr e))) cs"
    using Cons by (simp add: edged_re_def)
  also have "\<dots> \<longleftrightarrow> e c \<and> (cs = [] \<or> cs \<noteq> [] \<and> e (last cs) \<and> list_all m (butlast cs))"
    by (auto simp: in_re_mid_edge)
  finally show ?thesis using Cons by (auto simp: edged_def)
qed

lemma edged_all: "edged e m s \<Longrightarrow> (\<And>c. e c \<Longrightarrow> m c) \<Longrightarrow> list_all m s"
proof (cases s)
  case (Cons c cs)
  assume "edged e m s" and em: "\<And>c. e c \<Longrightarrow> m c"
  with Cons show ?thesis
    by (cases cs rule: rev_cases) (auto simp: edged_def)
qed (simp add: edged_def)

text \<open>\<^verbatim>\<open>L(\.L)*\<close>: every field between separators is in \<open>L\<close>.\<close>

definition sep_re :: "char \<Rightarrow> rexp \<Rightarrow> rexp" where
  "sep_re x l = RSeq l (RStar (RSeq (RChr (\<lambda>c. c = x)) l))"

lemma in_re_star_sep:
  assumes "in_re (RStar (RSeq (RChr (\<lambda>c. c = x)) l)) t"
  shows "\<exists>ws. t = concat (map (\<lambda>w. x # w) ws) \<and> (\<forall>w \<in> set ws. in_re l w)"
  using assms
proof (induction "RStar (RSeq (RChr (\<lambda>c. c = x)) l)" t rule: in_re.induct)
  case star_nil
  then show ?case by (intro exI [of _ "[]"]) simp
next
  case (star_app s t)
  from star_app(1) obtain w where s: "s = x # w" "in_re l w"
    by (auto simp: in_re_seq in_re_chr)
  from star_app(3) obtain ws where "t = concat (map (\<lambda>w. x # w) ws)" "\<forall>w \<in> set ws. in_re l w"
    by auto
  with s show ?case by (intro exI [of _ "w # ws"]) auto
qed

lemma star_sep_in_re:
  "\<forall>w \<in> set ws. in_re l w \<Longrightarrow>
   in_re (RStar (RSeq (RChr (\<lambda>c. c = x)) l)) (concat (map (\<lambda>w. x # w) ws))"
proof (induction ws)
  case Nil
  show ?case by (simp add: star_nil)
next
  case (Cons w ws)
  have "in_re (RSeq (RChr (\<lambda>c. c = x)) l) ([x] @ w)"
    using Cons.prems by (intro in_re.seq in_re.chr) auto
  then have "in_re (RStar (RSeq (RChr (\<lambda>c. c = x)) l)) (([x] @ w) @ concat (map (\<lambda>w. x # w) ws))"
    using Cons by (intro in_re.star_app) auto
  then show ?case by simp
qed

lemma py_join_concat: "py_join [x] (w # ws) = w @ concat (map (\<lambda>w. x # w) ws)"
  by (induction ws arbitrary: w) auto

lemma in_re_sep:
  assumes l: "\<And>w. in_re l w \<Longrightarrow> x \<notin> set w"
  shows "in_re (sep_re x l) s \<longleftrightarrow> (\<forall>w \<in> set (py_split x s). in_re l w)"
proof
  assume "in_re (sep_re x l) s"
  then obtain w ws where s: "s = py_join [x] (w # ws)" and ws: "\<forall>w \<in> set (w # ws). in_re l w"
    by (auto simp: sep_re_def in_re_seq [of l] py_join_concat dest: in_re_star_sep)
  have "py_split x s = w # ws"
    using split_join [of "w # ws" x] l ws s by blast
  with ws show "\<forall>w \<in> set (py_split x s). in_re l w" by simp
next
  assume a: "\<forall>w \<in> set (py_split x s). in_re l w"
  obtain w ws where sp: "py_split x s = w # ws"
    by (metis split_by_nonempty neq_Nil_conv)
  have "s = w @ concat (map (\<lambda>w. x # w) ws)"
    using join_split [of x s] sp by (simp only: py_join_concat)
  with a sp star_sep_in_re [of ws l x] show "in_re (sep_re x l) s"
    by (auto simp: sep_re_def intro: in_re.seq)
qed

end
