(* ===== verification/Sdk_Errors.thy ===== *)
theory Sdk_Errors
  imports Py_Prelude
begin

text \<open>
  The exceptions of the SDK (\<^verbatim>\<open>exceptions.py\<close>) and those of the libraries it calls that its code
  tells apart. Messages are not modelled; the attributes the code reads are: the HTTP status of
  a Kubernetes \<open>ApiException\<close>, of a failed request and of \<open>SandboxRequestError\<close>.
\<close>

datatype exn =
    ValueError | TypeError | KeyError | AttributeError | RuntimeError | OSError | ImportError
  | LookupError | PermissionError | NotImplementedError | TimeoutError
  | ConnectionRefusedError | OverflowError | SubprocessTimeout | UnboundLocalError
  \<comment> \<open>\<^verbatim>\<open>exceptions.py\<close>\<close>
  | SandboxResponseTooLargeError | SandboxNotReadyError | SandboxNoServiceError
  | SandboxNotFoundError | SnapshotNotFoundError | SandboxTemplateNotFoundError
  | SandboxWarmPoolNotFoundError | SandboxPortForwardError | SandboxMetadataError
  | SandboxRequestError "int option" | SandboxClaimFailedError
  \<comment> \<open>the Kubernetes client: an API error with its status, a dropped watch connection\<close>
  | ApiException int | WatchDisconnected
  \<comment> \<open>\<^verbatim>\<open>requests\<close>: a request error with the status of its response, if it has one\<close>
  | RequestException "int option"
  \<comment> \<open>gRPC: an RPC error with its status code\<close>
  | RpcError nat
  \<comment> \<open>the fleet example: placement, the object store and the resolver\<close>
  | NoClusterAvailableError | CASConflict | FileNotFoundError | ZeroDivisionError
  | ResolverError | TemplateNotAssignedError | ClusterUnavailableError | AssignmentsMissingError
  \<comment> \<open>\<^verbatim>\<open>google.api_core\<close>: an API error with its status\<close>
  | GoogleAPIError int
  \<comment> \<open>any other exception, by number\<close>
  | OtherException nat

type_synonym 'a res = "exn + 'a"

text \<open>\<open>SandboxError\<close> and its subclasses.\<close>

fun is_sandbox_error :: "exn \<Rightarrow> bool" where
  "is_sandbox_error SandboxResponseTooLargeError = True"
| "is_sandbox_error SandboxNotReadyError = True"
| "is_sandbox_error SandboxNoServiceError = True"
| "is_sandbox_error SandboxNotFoundError = True"
| "is_sandbox_error SnapshotNotFoundError = True"
| "is_sandbox_error SandboxTemplateNotFoundError = True"
| "is_sandbox_error SandboxWarmPoolNotFoundError = True"
| "is_sandbox_error SandboxPortForwardError = True"
| "is_sandbox_error SandboxMetadataError = True"
| "is_sandbox_error (SandboxRequestError s) = True"
| "is_sandbox_error SandboxClaimFailedError = True"
| "is_sandbox_error _ = False"

text \<open>\<^verbatim>\<open>j.get(k)\<close> and \<^verbatim>\<open>j.get(k, d)\<close> on decoded JSON.\<close>

definition jget :: "json \<Rightarrow> string \<Rightarrow> json res" where
  "jget j k = jget_or AttributeError j k JNull"

definition jget_dflt :: "json \<Rightarrow> string \<Rightarrow> json \<Rightarrow> json res" where
  "jget_dflt j k d = jget_or AttributeError j k d"

text \<open>\<^verbatim>\<open>j[k]\<close>: only an object can be indexed by a string.\<close>

definition jindex :: "json \<Rightarrow> string \<Rightarrow> json res" where
  "jindex j k =
     (case j of JObj kvs \<Rightarrow> (case map_of kvs k of None \<Rightarrow> Inl KeyError | Some v \<Rightarrow> Inr v) | _ \<Rightarrow> Inl TypeError)"

text \<open>\<^verbatim>\<open>for x in j\<close>: a list yields its elements, a string its characters, an object its keys.\<close>

fun jiter :: "json \<Rightarrow> json list res" where
  "jiter (JList xs) = Inr xs"
| "jiter (JStr s) = Inr (map (\<lambda>c. JStr [c]) s)"
| "jiter (JObj kvs) = Inr (map (JStr \<circ> fst) kvs)"
| "jiter _ = Inl TypeError"

lemma jget_JObj [simp]: "jget (JObj kvs) k = Inr (case map_of kvs k of None \<Rightarrow> JNull | Some v \<Rightarrow> v)"
  by (simp add: jget_def jget_or_def)

lemma jget_dflt_JObj [simp]:
  "jget_dflt (JObj kvs) k d = Inr (case map_of kvs k of None \<Rightarrow> d | Some v \<Rightarrow> v)"
  by (simp add: jget_dflt_def jget_or_def)

lemma jget_non_object [simp]:
  "jget JNull k = Inl AttributeError" "jget (JBool b) k = Inl AttributeError"
  "jget (JFloat f) k = Inl AttributeError" "jget (JInt i) k = Inl AttributeError" "jget (JStr s) k = Inl AttributeError"
  "jget (JList xs) k = Inl AttributeError"
  by (simp_all add: jget_def jget_or_def)

lemma jget_dflt_non_object [simp]:
  "jget_dflt JNull k d = Inl AttributeError" "jget_dflt (JBool b) k d = Inl AttributeError"
  "jget_dflt (JFloat f) k d = Inl AttributeError" "jget_dflt (JInt i) k d = Inl AttributeError" "jget_dflt (JStr s) k d = Inl AttributeError"
  "jget_dflt (JList xs) k d = Inl AttributeError"
  by (simp_all add: jget_dflt_def jget_or_def)

lemma jget_InrD: "jget j k = Inr v \<Longrightarrow> \<exists>kvs. j = JObj kvs"
  by (cases j) auto

end
