(* ===== verification/Claim_Validation.thy ===== *)
theory Claim_Validation
  imports Py_Regex Sdk_Errors
begin

text \<open>
  \<^verbatim>\<open>claim_adoption.py\<close> and \<^verbatim>\<open>pod_metadata.py\<close>: the checks a caller's claim name, an existing claim
  and the labels of a pod have to pass before the client acts on them.

  The regular expressions are the source's, as terms. The lemmas characterise what each check
  accepts in terms of the fields between dots and of the characters at the edges of a name, and
  so state what the expressions were written to say.
\<close>

section \<open>Definitions\<close>

definition lower_alnum :: "char \<Rightarrow> bool" where
  "lower_alnum c = (is_lower c \<or> is_digit c)"

definition alnum :: "char \<Rightarrow> bool" where
  "alnum c = (is_upper c \<or> is_lower c \<or> is_digit c)"

definition DNS1123_SUBDOMAIN_RE :: rexp where
  "DNS1123_SUBDOMAIN_RE =
     sep_re CHR ''.'' (edged_re lower_alnum (\<lambda>c. c = CHR ''-'' \<or> lower_alnum c))"

definition DNS1123_SUBDOMAIN_MAX_LENGTH :: nat where
  "DNS1123_SUBDOMAIN_MAX_LENGTH = 253"

text \<open>\<^verbatim>\<open>validate_claim_name\<close>; its argument may be any value, so it is \<open>json\<close> here.\<close>

definition validate_claim_name :: "json \<Rightarrow> unit res" where
  "validate_claim_name v =
     (case v of
        JStr name \<Rightarrow>
          (if name = [] \<or> length name > DNS1123_SUBDOMAIN_MAX_LENGTH
              \<or> \<not> re_fullmatch DNS1123_SUBDOMAIN_RE name
           then Inl ValueError else Inr ())
      | _ \<Rightarrow> Inl ValueError)"

definition require_str_field :: "json \<Rightarrow> string \<Rightarrow> unit res" where
  "require_str_field metadata field =
     bindE (jget metadata field) (\<lambda>v.
       case v of JStr s \<Rightarrow> guardE (s \<noteq> []) ValueError | _ \<Rightarrow> Inl ValueError)"

definition validate_claim_for_adoption :: "json \<Rightarrow> string \<Rightarrow> unit res" where
  "validate_claim_for_adoption claim warmpool =
     (if claim = JNull then Inl SandboxNotFoundError
      else
        bindE (jget claim ''metadata'') (\<lambda>m.
        let metadata = jor m (JObj []) in
        bindE (jget metadata ''deletionTimestamp'') (\<lambda>ts.
        if truthy ts then Inl ValueError
        else
          bindE (jget claim ''spec'') (\<lambda>sp.
          bindE (jget_dflt (jor sp (JObj [])) ''warmPoolRef'' (JObj [])) (\<lambda>ref.
          bindE (jget ref ''name'') (\<lambda>existing_pool.
          if existing_pool \<noteq> JStr warmpool then Inl ValueError
          else eachE (require_str_field metadata) [''uid'', ''resourceVersion'']))))))"

definition LABEL_NAME_RE :: rexp where
  "LABEL_NAME_RE =
     RAlt (RSeq (RChr alnum)
            (RSeq (RStar (RChr (\<lambda>c. c = CHR ''-'' \<or> alnum c \<or> c = CHR ''_'' \<or> c = CHR ''.'')))
              (RChr alnum)))
          (RChr alnum)"

definition LABEL_PREFIX_RE :: rexp where
  "LABEL_PREFIX_RE =
     edged_re lower_alnum (\<lambda>c. c = CHR ''-'' \<or> lower_alnum c \<or> c = CHR ''.'')"

definition LABEL_NAME_MAX_LENGTH :: nat where
  "LABEL_NAME_MAX_LENGTH = 63"

definition LABEL_PREFIX_MAX_LENGTH :: nat where
  "LABEL_PREFIX_MAX_LENGTH = 253"

definition validate_label_name :: "string \<Rightarrow> unit res" where
  "validate_label_name name =
     (if length name > LABEL_NAME_MAX_LENGTH then Inl ValueError
      else if \<not> re_match LABEL_NAME_RE name then Inl ValueError
      else Inr ())"

text \<open>The body of the loop of \<^verbatim>\<open>validate_labels\<close>, and the loop over \<^verbatim>\<open>labels.items()\<close>.\<close>

definition validate_label :: "string \<times> string \<Rightarrow> unit res" where
  "validate_label kv =
     (let (key, value) = kv in
      if key = [] then Inl ValueError
      else
        bindE
          (if CHR ''/'' \<in> set key then
             (let (prefix, _, name) = py_partition CHR ''/'' key in
              if prefix = [] \<or> length prefix > LABEL_PREFIX_MAX_LENGTH then Inl ValueError
              else if \<not> re_match LABEL_PREFIX_RE prefix then Inl ValueError
              else if name = [] then Inl ValueError
              else validate_label_name name)
           else validate_label_name key)
          (\<lambda>_. if value \<noteq> [] then validate_label_name value else Inr ()))"

definition validate_labels :: "(string, string) dict \<Rightarrow> unit res" where
  "validate_labels labels = eachE validate_label labels"

record additional_pod_metadata =
  apm_labels :: "(string, string) dict option"
  apm_annotations :: "(string, string) dict option"

text \<open>\<open>None\<close> or an empty dictionary is false; \<^verbatim>\<open>d or None\<close> maps the empty dictionary to \<open>None\<close>.\<close>

definition dict_true :: "('k, 'v) dict option \<Rightarrow> bool" where
  "dict_true d = (case d of None \<Rightarrow> False | Some kvs \<Rightarrow> kvs \<noteq> [])"

definition dict_or_none :: "('k, 'v) dict option \<Rightarrow> ('k, 'v) dict option" where
  "dict_or_none d = (if dict_true d then d else None)"

definition build_pod_metadata ::
  "(string, string) dict option \<Rightarrow> (string, string) dict option \<Rightarrow> additional_pod_metadata option res"
where
  "build_pod_metadata pod_labels pod_annotations =
     bindE (case pod_labels of Some ls \<Rightarrow> if ls \<noteq> [] then validate_labels ls else Inr () | None \<Rightarrow> Inr ())
       (\<lambda>_. if \<not> dict_true pod_labels \<and> \<not> dict_true pod_annotations then Inr None
            else Inr (Some \<lparr>apm_labels = dict_or_none pod_labels,
                            apm_annotations = dict_or_none pod_annotations\<rparr>))"

text \<open>What the checks are meant to accept, without regular expressions.\<close>

definition dns1123_label :: "string \<Rightarrow> bool" where
  "dns1123_label w =
     (w \<noteq> [] \<and> list_all (\<lambda>c. c = CHR ''-'' \<or> lower_alnum c) w
      \<and> hd w \<noteq> CHR ''-'' \<and> last w \<noteq> CHR ''-'')"

definition dns1123_subdomain :: "string \<Rightarrow> bool" where
  "dns1123_subdomain s =
     (length s \<le> 253 \<and> list_all dns1123_label (py_split CHR ''.'' s))"

definition label_syntax :: "string \<Rightarrow> bool" where
  "label_syntax s =
     (s \<noteq> [] \<and> alnum (hd s) \<and> alnum (last s)
      \<and> list_all (\<lambda>c. c = CHR ''-'' \<or> alnum c \<or> c = CHR ''_'' \<or> c = CHR ''.'') s)"

text \<open>A string, or the string without one final line feed.\<close>

definition chomped :: "(string \<Rightarrow> bool) \<Rightarrow> string \<Rightarrow> bool" where
  "chomped P s = (P s \<or> (s \<noteq> [] \<and> last s = newline \<and> P (butlast s)))"

definition label_value_ok :: "string \<Rightarrow> bool" where
  "label_value_ok s = (s = [] \<or> (length s \<le> 63 \<and> chomped label_syntax s))"

definition prefix_syntax :: "string \<Rightarrow> bool" where
  "prefix_syntax p = edged lower_alnum (\<lambda>c. c = CHR ''-'' \<or> lower_alnum c \<or> c = CHR ''.'') p"

definition label_key_ok :: "string \<Rightarrow> bool" where
  "label_key_ok k =
     (case py_partition CHR ''/'' k of (prefix, slash, name) \<Rightarrow>
        if slash then length prefix \<le> 253 \<and> chomped prefix_syntax prefix
                    \<and> length name \<le> 63 \<and> chomped label_syntax name
        else length k \<le> 63 \<and> chomped label_syntax k)"

section \<open>Lemmas\<close>

lemma dash_not_lower_alnum [simp]: "\<not> lower_alnum CHR ''-''"
  by (simp add: lower_alnum_def is_lower_def is_digit_def)

lemma dot_not_lower_alnum [simp]: "\<not> lower_alnum CHR ''.''"
  by (simp add: lower_alnum_def is_lower_def is_digit_def)

lemma edged_dns1123_label:
  "edged lower_alnum (\<lambda>c. c = CHR ''-'' \<or> lower_alnum c) w \<longleftrightarrow> dns1123_label w"
proof (cases w)
  case (Cons c cs)
  then show ?thesis
    by (cases cs rule: rev_cases) (auto simp: edged_def dns1123_label_def)
qed (simp add: edged_def dns1123_label_def)

lemma dns1123_label_no_dot: "dns1123_label w \<Longrightarrow> CHR ''.'' \<notin> set w"
  unfolding dns1123_label_def list_all_iff using dot_not_lower_alnum by blast

lemma subdomain_re_iff:
  "re_fullmatch DNS1123_SUBDOMAIN_RE s \<longleftrightarrow> list_all dns1123_label (py_split CHR ''.'' s)"
proof -
  have "re_fullmatch DNS1123_SUBDOMAIN_RE s \<longleftrightarrow>
    (\<forall>w \<in> set (py_split CHR ''.'' s). in_re (edged_re lower_alnum (\<lambda>c. c = CHR ''-'' \<or> lower_alnum c)) w)"
    unfolding re_fullmatch_iff DNS1123_SUBDOMAIN_RE_def
    by (rule in_re_sep) (simp add: in_re_edged edged_dns1123_label dns1123_label_no_dot)
  then show ?thesis by (simp add: in_re_edged edged_dns1123_label list_all_iff)
qed

lemma dns1123_subdomain_nonempty: "dns1123_subdomain s \<Longrightarrow> s \<noteq> []"
  by (auto simp: dns1123_subdomain_def dns1123_label_def)

lemma alnum_edge [simp]: "\<not> alnum CHR ''-''" "\<not> alnum CHR ''_''" "\<not> alnum CHR ''.''"
  by (simp_all add: alnum_def is_upper_def is_lower_def is_digit_def)

lemma label_re_iff: "in_re LABEL_NAME_RE s \<longleftrightarrow> label_syntax s"
proof (cases s)
  case (Cons c cs)
  then show ?thesis
    by (cases cs rule: rev_cases)
       (auto simp: LABEL_NAME_RE_def label_syntax_def in_re_mid_edge in_re_chr)
qed (simp add: LABEL_NAME_RE_def label_syntax_def in_re_chr)

lemma re_match_chomped: "re_match r s \<longleftrightarrow> chomped (in_re r) s"
  by (cases s rule: rev_cases) (auto simp: re_match_iff chomped_def)

lemma validate_label_name_iff:
  "validate_label_name s = Inr () \<longleftrightarrow> length s \<le> 63 \<and> chomped label_syntax s"
  by (auto simp: validate_label_name_def LABEL_NAME_MAX_LENGTH_def re_match_chomped chomped_def
      label_re_iff)

lemma py_partition_found: "c \<in> set s \<Longrightarrow> py_partition c s = (h, f, t) \<Longrightarrow> s = h @ c # t \<and> f \<and> c \<notin> set h"
  by (induction s arbitrary: h f t) (auto split: if_splits prod.splits)

lemma py_partition_slash: "py_partition c s = (h, f, t) \<Longrightarrow> f \<longleftrightarrow> c \<in> set s"
  by (induction s arbitrary: h f t) (auto split: if_splits prod.splits)

lemma chomped_nonempty: "(\<And>t. P t \<Longrightarrow> t \<noteq> []) \<Longrightarrow> chomped P s \<Longrightarrow> s \<noteq> []"
  by (auto simp: chomped_def)

lemma label_syntax_nonempty: "chomped label_syntax s \<Longrightarrow> s \<noteq> []"
  by (rule chomped_nonempty) (simp_all add: label_syntax_def)

lemma prefix_syntax_nonempty: "chomped prefix_syntax s \<Longrightarrow> s \<noteq> []"
  by (rule chomped_nonempty) (simp_all add: prefix_syntax_def edged_def)

lemma prefix_re_iff: "re_match LABEL_PREFIX_RE s \<longleftrightarrow> chomped prefix_syntax s"
  by (simp add: re_match_chomped chomped_def LABEL_PREFIX_RE_def in_re_edged prefix_syntax_def)

lemma validate_label_iff:
  "validate_label (k, v) = Inr () \<longleftrightarrow> label_key_ok k \<and> label_value_ok v"
proof -
  obtain h f t where p: "py_partition CHR ''/'' k = (h, f, t)"
    by (cases "py_partition CHR ''/'' k") auto
  from py_partition_slash [OF p] show ?thesis
    using p label_syntax_nonempty [of k] label_syntax_nonempty [of t] prefix_syntax_nonempty [of h]
    by (cases "k = []"; cases f)
       (auto simp: validate_label_def label_key_ok_def label_value_ok_def validate_label_name_iff
          prefix_re_iff LABEL_PREFIX_MAX_LENGTH_def split: if_splits)
qed

lemma validate_label_error: "validate_label kv = Inr () \<or> validate_label kv = Inl ValueError"
proof (cases "validate_label kv")
  case (Inl e)
  then have "e = ValueError"
    by (auto simp: validate_label_def validate_label_name_def bindE_eq_Inl
        split: if_splits prod.splits)
  with Inl show ?thesis by simp
qed simp

lemma validate_labels_error: "validate_labels ls = Inr () \<or> validate_labels ls = Inl ValueError"
proof (induction ls)
  case (Cons kv ls)
  with validate_label_error [of kv] show ?case
    by (auto simp: validate_labels_def)
qed (simp add: validate_labels_def)

lemma require_str_field_iff:
  "require_str_field (JObj kvs) f = Inr () \<longleftrightarrow> (\<exists>s. map_of kvs f = Some (JStr s) \<and> s \<noteq> [])"
  by (auto simp: require_str_field_def split: option.splits json.splits)

section \<open>Properties\<close>

text \<open>(C39) \<^verbatim>\<open>validate_claim_name\<close> accepts exactly the DNS-1123 subdomains: a string of at most
  253 characters whose dot-separated fields are non-empty, use only lower-case letters, digits
  and dashes, and neither start nor end with a dash. Everything else, other types included,
  raises \<open>ValueError\<close>.\<close>
theorem validate_claim_name_iff:
  "validate_claim_name v =
     (if (\<exists>s. v = JStr s \<and> dns1123_subdomain s) then Inr () else Inl ValueError)"
  by (cases v)
     (auto simp: validate_claim_name_def subdomain_re_iff DNS1123_SUBDOMAIN_MAX_LENGTH_def
        dns1123_subdomain_def dns1123_label_def)

text \<open>\<^verbatim>\<open>validate_claim_for_adoption\<close> lets a claim be adopted exactly when it is an object that
  is not being deleted, whose \<^verbatim>\<open>spec.warmPoolRef.name\<close> is the requested pool, and that carries
  the non-empty UID and resourceVersion a UID-pinned watch starts from.\<close>
lemma validate_claim_for_adoption_iff:
  "validate_claim_for_adoption claim warmpool = Inr () \<longleftrightarrow>
     (\<exists>kvs mds sps refs uid rv.
        claim = JObj kvs
      \<and> map_of kvs ''metadata'' = Some (JObj mds)
      \<and> \<not> truthy (case map_of mds ''deletionTimestamp'' of None \<Rightarrow> JNull | Some t \<Rightarrow> t)
      \<and> map_of kvs ''spec'' = Some (JObj sps)
      \<and> map_of sps ''warmPoolRef'' = Some (JObj refs)
      \<and> map_of refs ''name'' = Some (JStr warmpool)
      \<and> map_of mds ''uid'' = Some (JStr uid) \<and> uid \<noteq> []
      \<and> map_of mds ''resourceVersion'' = Some (JStr rv) \<and> rv \<noteq> [])"
    (is "?lhs \<longleftrightarrow> ?rhs")
proof
  assume ?rhs
  then show ?lhs
    by (auto simp: validate_claim_for_adoption_def jor_def require_str_field_iff Let_def)
next
  assume l: ?lhs
  then obtain kvs where c: "claim = JObj kvs"
    by (cases claim) (auto simp: validate_claim_for_adoption_def)
  from l [unfolded c] obtain md ts sp ref where
    md: "map_of kvs ''metadata'' = Some md" "truthy md" and
    sp: "map_of kvs ''spec'' = Some sp" "truthy sp" and
    ts: "jget md ''deletionTimestamp'' = Inr ts" "\<not> truthy ts" and
    ref: "jget_dflt sp ''warmPoolRef'' (JObj []) = Inr ref" "jget ref ''name'' = Inr (JStr warmpool)" and
    fs: "require_str_field md ''uid'' = Inr ()" "require_str_field md ''resourceVersion'' = Inr ()"
    by (auto simp: validate_claim_for_adoption_def jor_def Let_def bindE_eq_Inr
        require_str_field_iff split: if_splits option.splits)
  from md ts obtain mds where mds: "md = JObj mds" by (auto dest: jget_InrD)
  from ref(2) obtain refs where refs: "ref = JObj refs" by (auto dest: jget_InrD)
  from ref(1) obtain sps where sps: "sp = JObj sps" by (cases sp) auto
  have "map_of refs ''name'' = Some (JStr warmpool)"
    using ref(2) refs by (simp split: option.splits)
  moreover from this have "map_of sps ''warmPoolRef'' = Some (JObj refs)"
    using ref(1) refs sps by (auto split: option.splits)
  moreover obtain uid rv where "map_of mds ''uid'' = Some (JStr uid)" "uid \<noteq> []"
      "map_of mds ''resourceVersion'' = Some (JStr rv)" "rv \<noteq> []"
    using fs mds by (auto simp: require_str_field_iff)
  moreover have "\<not> truthy (case map_of mds ''deletionTimestamp'' of None \<Rightarrow> JNull | Some t \<Rightarrow> t)"
    using ts mds by simp
  ultimately show ?rhs
    using c md(1) mds sp(1) sps by blast
qed

text \<open>(C40) \<^verbatim>\<open>validate_labels\<close> accepts exactly the dictionaries in which every key is a name, or a
  prefix and a name around the first slash, within 63 and 253 characters, and every value is
  empty or a name. The expressions are anchored with \<open>$\<close> and run with \<^verbatim>\<open>re.match\<close>, so each part
  may also end in one line feed, which Kubernetes itself refuses.\<close>
theorem validate_labels_iff:
  "validate_labels labels =
     (if list_all (\<lambda>(k, v). label_key_ok k \<and> label_value_ok v) labels
      then Inr () else Inl ValueError)"
proof (induction labels)
  case Nil
  show ?case by (simp add: validate_labels_def)
next
  case (Cons kv labels)
  obtain k v where kv: "kv = (k, v)" by (cases kv)
  have "validate_label (k, v) =
      (if label_key_ok k \<and> label_value_ok v then Inr () else Inl ValueError)"
    using validate_label_iff [of k v] validate_label_error [of "(k, v)"] by auto
  with Cons kv show ?case
    by (auto simp: validate_labels_def)
qed

text \<open>\<^verbatim>\<open>build_pod_metadata\<close> raises exactly when the given labels are invalid; otherwise the
  payload carries the labels and annotations that are non-empty, and is absent when both are
  missing or empty, so no empty \<^verbatim>\<open>additionalPodMetadata\<close> reaches the manifest.\<close>
lemma build_pod_metadata_spec:
  "build_pod_metadata ls as =
     (if dict_true ls \<and> validate_labels (the ls) \<noteq> Inr () then Inl ValueError
      else if dict_true ls \<or> dict_true as
      then Inr (Some \<lparr>apm_labels = dict_or_none ls, apm_annotations = dict_or_none as\<rparr>)
      else Inr None)"
  using validate_labels_error [of "the ls"]
  by (cases ls) (auto simp: build_pod_metadata_def dict_true_def dict_or_none_def)

end
