(* ===== verification/Sdk_Models.thy ===== *)
theory Sdk_Models
  imports Py_Regex Sdk_Errors
begin

text \<open>
  \<^verbatim>\<open>models.py\<close>: the values the SDK exchanges with its callers and the runtime, and the checks their
  validators make. A model class is a record; its validators run in a constructor function that
  returns the record or raises (\<open>ValueError\<close> stands for pydantic's \<open>ValidationError\<close>, its
  subclass). The union of connection configurations is a datatype.
\<close>

section \<open>Results and events\<close>

record execution_result =
  er_stdout :: string
  er_stderr :: string
  er_exit_code :: int
  er_timed_out :: bool

text \<open>\<open>ProcessOutputEvent\<close> (standard output, standard error) and \<open>ProcessExitEvent\<close>.\<close>

datatype process_event = StdoutEvent string | StderrEvent string | ExitEvent int

record file_event =
  fe_type :: string
  fe_path :: string
  fe_error :: string

record pty_size =
  pty_cols :: int
  pty_rows :: int

definition mk_pty_size :: "int \<Rightarrow> int \<Rightarrow> pty_size res" where
  "mk_pty_size cols rows =
     (if cols < 1 \<or> cols > 65535 \<or> rows < 1 \<or> rows > 65535 then Inl ValueError
      else Inr \<lparr>pty_cols = cols, pty_rows = rows\<rparr>)"

record sandbox_file_config =
  max_download_size :: "int option"

definition mk_file_config :: "int option \<Rightarrow> sandbox_file_config res" where
  "mk_file_config m =
     (case m of
        None \<Rightarrow> Inr \<lparr>max_download_size = None\<rparr>
      | Some n \<Rightarrow> if n > 0 then Inr \<lparr>max_download_size = Some n\<rparr> else Inl ValueError)"

section \<open>Environment variables of a claim\<close>

record env_var =
  ev_name :: string
  ev_value :: string
  ev_container_name :: "string option"

definition env_first :: "char \<Rightarrow> bool" where
  "env_first c = (c = CHR ''-'' \<or> c = CHR ''.'' \<or> c = CHR ''_'' \<or> is_lower c \<or> is_upper c)"

definition ENV_VAR_NAME_RE :: rexp where
  "ENV_VAR_NAME_RE = RSeq (RChr env_first) (RStar (RChr (\<lambda>c. env_first c \<or> is_digit c)))"

definition validate_env_name :: "string \<Rightarrow> unit res" where
  "validate_env_name v =
     (if \<not> re_match ENV_VAR_NAME_RE v then Inl ValueError
      else if v = ''.'' \<or> v = ''..'' \<or> startswith v ''..'' then Inl ValueError
      else Inr ())"

definition mk_env_var :: "string \<Rightarrow> string \<Rightarrow> env_var res" where
  "mk_env_var n v = bindE (validate_env_name n) (\<lambda>_. Inr \<lparr>ev_name = n, ev_value = v, ev_container_name = None\<rparr>)"

section \<open>Connection configurations\<close>

definition RESERVED_HEADER_PREFIX :: string where
  "RESERVED_HEADER_PREFIX = ''x-sandbox-''"

record direct_config =
  dc_api_url :: string
  dc_server_port :: int
  dc_extra_headers :: "(string, string) dict"
  dc_client_cert :: "(string \<times> string) option"
  dc_ca_cert :: "string option"

definition reserved_header :: "string \<Rightarrow> bool" where
  "reserved_header name = startswith (py_lower name) RESERVED_HEADER_PREFIX"

definition mk_direct_config ::
  "string \<Rightarrow> int \<Rightarrow> (string, string) dict \<Rightarrow> (string \<times> string) option \<Rightarrow> string option \<Rightarrow>
   direct_config res"
where
  "mk_direct_config url port headers cert ca =
     (if list_ex (\<lambda>(name, v). reserved_header name) headers then Inl ValueError
      else if (cert \<noteq> None \<or> (ca \<noteq> None \<and> ca \<noteq> Some []))
           \<and> \<not> startswith (py_lower url) ''https://''
      then Inl ValueError
      else Inr \<lparr>dc_api_url = url, dc_server_port = port, dc_extra_headers = headers,
                dc_client_cert = cert, dc_ca_cert = ca\<rparr>)"

record gateway_config =
  gw_name :: string
  gw_namespace :: string
  gw_ready_timeout :: rat
  gw_server_port :: int

record tunnel_config =
  tc_ready_timeout :: rat
  tc_server_port :: int
  tc_router_namespace :: string

definition NAMESPACE_RE :: rexp where
  "NAMESPACE_RE =
     edged_re (\<lambda>c. is_lower c \<or> is_digit c) (\<lambda>c. c = CHR ''-'' \<or> is_lower c \<or> is_digit c)"

definition mk_tunnel_config :: "rat \<Rightarrow> int \<Rightarrow> string \<Rightarrow> tunnel_config res" where
  "mk_tunnel_config t port ns =
     (if re_match NAMESPACE_RE ns
      then Inr \<lparr>tc_ready_timeout = t, tc_server_port = port, tc_router_namespace = ns\<rparr>
      else Inl ValueError)"

definition validate_auth_token :: "string \<Rightarrow> unit res" where
  "validate_auth_token t =
     guardE (t \<noteq> [] \<and> list_all (\<lambda>c. 33 \<le> code c \<and> code c \<le> 126) t) ValueError"

definition validate_port :: "int \<Rightarrow> unit res" where
  "validate_port v = (if v < 1 \<or> v > 65535 then Inl ValueError else Inr ())"

record pod_tunnel_config =
  pt_auth_token :: "string option"
  pt_rest_port :: int
  pt_grpc_port :: int
  pt_ready_timeout :: rat

definition opt_token_ok :: "string option \<Rightarrow> unit res" where
  "opt_token_ok t = (case t of None \<Rightarrow> Inr () | Some s \<Rightarrow> validate_auth_token s)"

definition mk_pod_tunnel_config :: "string option \<Rightarrow> int \<Rightarrow> int \<Rightarrow> rat \<Rightarrow> pod_tunnel_config res" where
  "mk_pod_tunnel_config tok rest grpc t =
     bindE (opt_token_ok tok) (\<lambda>_. bindE (validate_port rest) (\<lambda>_. bindE (validate_port grpc) (\<lambda>_.
       Inr \<lparr>pt_auth_token = tok, pt_rest_port = rest, pt_grpc_port = grpc, pt_ready_timeout = t\<rparr>)))"

datatype cluster_mode = InClusterService | InClusterPodIP

text \<open>The field validator maps the two deprecated mode names before the literal is checked.\<close>

definition map_deprecated_mode :: "string \<Rightarrow> string" where
  "map_deprecated_mode v =
     (if v = ''service-dns'' then ''in-cluster-service''
      else if v = ''pod-ip'' then ''in-cluster-pod-ip'' else v)"

definition parse_mode :: "string \<Rightarrow> cluster_mode res" where
  "parse_mode v =
     (let m = map_deprecated_mode v in
      if m = ''in-cluster-service'' then Inr InClusterService
      else if m = ''in-cluster-pod-ip'' then Inr InClusterPodIP else Inl ValueError)"

record sandboxd_cluster_config =
  sc_auth_token :: "string option"
  sc_mode :: cluster_mode
  sc_rest_port :: int
  sc_grpc_port :: int

definition mk_sandboxd_cluster_config ::
  "string option \<Rightarrow> string \<Rightarrow> int \<Rightarrow> int \<Rightarrow> sandboxd_cluster_config res"
where
  "mk_sandboxd_cluster_config tok mode rest grpc =
     bindE (opt_token_ok tok) (\<lambda>_. bindE (parse_mode mode) (\<lambda>m.
     bindE (validate_port rest) (\<lambda>_. bindE (validate_port grpc) (\<lambda>_.
       if rest = grpc then Inl ValueError
       else Inr \<lparr>sc_auth_token = tok, sc_mode = m, sc_rest_port = rest, sc_grpc_port = grpc\<rparr>))))"

record in_cluster_config =
  ic_server_port :: int

datatype connection_config =
    DirectConfig direct_config
  | GatewayConfig gateway_config
  | LocalTunnelConfig tunnel_config
  | InClusterConfig in_cluster_config
  | SandboxdPodTunnelConfig pod_tunnel_config
  | SandboxdInClusterConfig sandboxd_cluster_config

section \<open>Lemmas\<close>

lemma validate_port_ok [simp]: "validate_port v = Inr () \<longleftrightarrow> 1 \<le> v \<and> v \<le> 65535"
  by (auto simp: validate_port_def)

lemma mk_direct_config_headers:
  assumes "mk_direct_config url port hs cert ca = Inr c"
  shows "dc_extra_headers c = hs" "list_all (\<lambda>(n, v). \<not> reserved_header n) (dc_extra_headers c)"
  using assms
  by (auto simp: mk_direct_config_def list_all_iff list_ex_iff split: if_splits)

lemma in_re_env_name:
  "in_re ENV_VAR_NAME_RE s \<longleftrightarrow>
     s \<noteq> [] \<and> env_first (hd s) \<and> list_all (\<lambda>c. env_first c \<or> is_digit c) (tl s)"
  by (cases s) (simp_all add: ENV_VAR_NAME_RE_def in_re_star_chr)

section \<open>Properties\<close>

text \<open>A \<open>SandboxdInClusterConnectionConfig\<close> that passes validation names one of the two modes
  (the deprecated spellings are mapped to them), has its REST and gRPC listeners on two different
  TCP ports, and carries no token or one of printable ASCII without spaces; anything else raises.\<close>
lemma sandboxd_cluster_config_spec:
  "mk_sandboxd_cluster_config tok mode rest grpc =
     (let ok = rest \<noteq> grpc \<and> rest \<in> {1..65535} \<and> grpc \<in> {1..65535}
           \<and> (case tok of None \<Rightarrow> True
              | Some t \<Rightarrow> t \<noteq> [] \<and> list_all (\<lambda>c. 33 \<le> code c \<and> code c \<le> 126) t) in
      if ok \<and> mode \<in> {''in-cluster-service'', ''service-dns''}
      then Inr \<lparr>sc_auth_token = tok, sc_mode = InClusterService, sc_rest_port = rest,
                sc_grpc_port = grpc\<rparr>
      else if ok \<and> mode \<in> {''in-cluster-pod-ip'', ''pod-ip''}
      then Inr \<lparr>sc_auth_token = tok, sc_mode = InClusterPodIP, sc_rest_port = rest,
                sc_grpc_port = grpc\<rparr>
      else Inl ValueError)"
proof -
  have t: "opt_token_ok tok =
      (if case tok of None \<Rightarrow> True
          | Some t \<Rightarrow> t \<noteq> [] \<and> list_all (\<lambda>c. 33 \<le> code c \<and> code c \<le> 126) t
       then Inr () else Inl ValueError)"
    by (simp add: opt_token_ok_def validate_auth_token_def guardE_def split: option.splits)
  have p: "validate_port v = (if v \<in> {1..65535} then Inr () else Inl ValueError)" for v
    by (auto simp: validate_port_def)
  have m: "parse_mode mode =
      (if mode \<in> {''in-cluster-service'', ''service-dns''} then Inr InClusterService
       else if mode \<in> {''in-cluster-pod-ip'', ''pod-ip''} then Inr InClusterPodIP
       else Inl ValueError)"
    by (simp add: parse_mode_def map_deprecated_mode_def)
  show ?thesis
    unfolding mk_sandboxd_cluster_config_def t p m Let_def by simp
qed

end
