(* ===== verification/Py_IPAddress.thy ===== *)
theory Py_IPAddress
  imports Py_Prelude
begin

text \<open>
  What the sources use of Python's \<^verbatim>\<open>ipaddress\<close> module: \<^verbatim>\<open>ip_address\<close>, \<^verbatim>\<open>str\<close> of an address, the
  classification predicates, \<^verbatim>\<open>ipv4_mapped\<close>, \<^verbatim>\<open>ip_network(cidr, strict=False)\<close> and membership in
  a network. The rules are those of Python 3.13 and later (the router's image is
  \<^verbatim>\<open>python:3.14-slim\<close>): an IPv4-mapped IPv6 address is classified by, and printed with, its IPv4
  address. Addresses are numbers, below \<open>2 ^ 32\<close> or \<open>2 ^ 128\<close>.
\<close>

section \<open>Addresses\<close>

datatype ip = IPv4 nat | IPv6 nat "string option"

definition parse_octet :: "string \<Rightarrow> nat option" where
  "parse_octet s =
     (if s \<noteq> [] \<and> list_all is_digit s \<and> length s \<le> 3
         \<and> \<not> (s \<noteq> ''0'' \<and> hd s = CHR ''0'') \<and> digits_val s \<le> 255
      then Some (digits_val s) else None)"

definition join_bytes :: "nat list \<Rightarrow> nat" where
  "join_bytes bs = foldl (\<lambda>a b. a * 256 + b) 0 bs"

definition parse_ip4 :: "string \<Rightarrow> nat option" where
  "parse_ip4 s =
     (let ps = py_split CHR ''.'' s in
      if length ps = 4 then map_option join_bytes (those (map parse_octet ps)) else None)"

definition octets :: "nat \<Rightarrow> nat list" where
  "octets n = [n div 16777216 mod 256, n div 65536 mod 256, n div 256 mod 256, n mod 256]"

definition show_ip4 :: "nat \<Rightarrow> string" where
  "show_ip4 n = py_join ''.'' (map show_nat (octets n))"

definition is_hex :: "char \<Rightarrow> bool" where
  "is_hex c = (is_digit c \<or> (97 \<le> code c \<and> code c \<le> 102) \<or> (65 \<le> code c \<and> code c \<le> 70))"

definition hex_val :: "char \<Rightarrow> nat" where
  "hex_val c = (if is_digit c then code c - 48
                else if 97 \<le> code c then code c - 87 else code c - 55)"

definition parse_hextet :: "string \<Rightarrow> nat option" where
  "parse_hextet s =
     (if s \<noteq> [] \<and> list_all is_hex s \<and> length s \<le> 4
      then Some (foldl (\<lambda>a c. a * 16 + hex_val c) 0 s) else None)"

definition hex_digit :: "nat \<Rightarrow> char" where
  "hex_digit d = (if d < 10 then char_of (48 + d) else char_of (87 + d))"

fun show_hex :: "nat \<Rightarrow> string" where
  "show_hex n = (if n < 16 then [hex_digit n] else show_hex (n div 16) @ [hex_digit (n mod 16)])"

text \<open>An IPv4 suffix becomes two hextets.\<close>

definition expand_tail :: "string list \<Rightarrow> string list option" where
  "expand_tail ps =
     (if CHR ''.'' \<in> set (last ps)
      then map_option (\<lambda>n. butlast ps @ [show_hex (n div 65536), show_hex (n mod 65536)])
             (parse_ip4 (last ps))
      else Some ps)"

definition join_hextets :: "nat list \<Rightarrow> nat" where
  "join_hextets hs = foldl (\<lambda>a h. a * 65536 + h) 0 hs"

definition parse_ip6_int :: "string \<Rightarrow> nat option" where
  "parse_ip6_int s =
     (let parts0 = py_split CHR '':'' s in
      if s = [] \<or> length parts0 < 3 then None
      else case expand_tail parts0 of
        None \<Rightarrow> None
      | Some parts \<Rightarrow>
          (if length parts > 9 then None
           else case filter (\<lambda>i. parts ! i = []) [1..<length parts - 1] of
             [] \<Rightarrow>
               (if length parts \<noteq> 8 \<or> hd parts = [] \<or> last parts = [] then None
                else map_option join_hextets (those (map parse_hextet parts)))
           | [k] \<Rightarrow>
               (let hi = (if hd parts = [] then k - 1 else k);
                    lo = (if last parts = [] then length parts - k - 2 else length parts - k - 1) in
                if (hd parts = [] \<and> hi \<noteq> 0) \<or> (last parts = [] \<and> lo \<noteq> 0) \<or> hi + lo > 7
                then None
                else
                  (case (those (map parse_hextet (take hi parts)),
                         those (map parse_hextet (drop (length parts - lo) parts))) of
                     (Some h, Some l) \<Rightarrow> Some (join_hextets (h @ replicate (8 - hi - lo) 0 @ l))
                   | _ \<Rightarrow> None))
           | _ \<Rightarrow> None))"

definition parse_ip6 :: "string \<Rightarrow> ip option" where
  "parse_ip6 s =
     (if CHR ''/'' \<in> set s then None
      else case py_partition CHR ''%'' s of (addr, sep, scope) \<Rightarrow>
        if sep \<and> (scope = [] \<or> CHR ''%'' \<in> set scope) then None
        else map_option (\<lambda>n. IPv6 n (if sep then Some scope else None)) (parse_ip6_int addr))"

text \<open>\<^verbatim>\<open>ipaddress.ip_address(s)\<close>; \<open>None\<close> stands for \<open>ValueError\<close>.\<close>

definition ip_address :: "string \<Rightarrow> ip option" where
  "ip_address s =
     (case parse_ip4 s of Some n \<Rightarrow> Some (IPv4 n) | None \<Rightarrow> parse_ip6 s)"

definition hextets :: "nat \<Rightarrow> nat list" where
  "hextets n = map (\<lambda>i. n div 65536 ^ (7 - i) mod 65536) [0..<8]"

text \<open>The first longest run of zero hextets, as (start, length).\<close>

fun zero_run :: "nat \<Rightarrow> nat \<times> nat \<Rightarrow> nat \<times> nat \<Rightarrow> nat list \<Rightarrow> nat \<times> nat" where
  "zero_run i cur best [] = best"
| "zero_run i (cs, cl) (bs, bl) (h # hs) =
     (if h = 0 then
        (let cs' = (if cl = 0 then i else cs); cl' = cl + 1 in
         zero_run (i + 1) (cs', cl') (if cl' > bl then (cs', cl') else (bs, bl)) hs)
      else zero_run (i + 1) (0, 0) (bs, bl) hs)"

definition show_hextets :: "nat list \<Rightarrow> string" where
  "show_hextets hs =
     (case zero_run 0 (0, 0) (0, 0) hs of (start, len) \<Rightarrow>
        let ws = map show_hex hs in
        py_join '':''
          (if len > 1 then
             (if start = 0 then [[]] else [])
             @ take start ws @ [[]] @ drop (start + len) ws
             @ (if start + len = length hs then [[]] else [])
           else ws))"

definition ipv4_mapped :: "nat \<Rightarrow> nat option" where
  "ipv4_mapped n = (if n div 2 ^ 32 = 65535 then Some (n mod 2 ^ 32) else None)"

definition show_ip :: "ip \<Rightarrow> string" where
  "show_ip a =
     (case a of
        IPv4 n \<Rightarrow> show_ip4 n
      | IPv6 n scope \<Rightarrow>
          (case ipv4_mapped n of
             None \<Rightarrow> show_hextets (hextets n)
           | Some m \<Rightarrow> ''::ffff:'' @ show_ip4 m)
          @ (case scope of None \<Rightarrow> [] | Some sc \<Rightarrow> CHR ''%'' # sc))"

fun ip_version :: "ip \<Rightarrow> nat" where
  "ip_version (IPv4 n) = 4"
| "ip_version (IPv6 n sc) = 6"

section \<open>Classification\<close>

definition loopback4 :: "nat \<Rightarrow> bool" where "loopback4 n = (n div 2 ^ 24 = 127)"

definition link_local4 :: "nat \<Rightarrow> bool" where "link_local4 n = (n div 2 ^ 16 = 43518)"

definition multicast4 :: "nat \<Rightarrow> bool" where "multicast4 n = (n div 2 ^ 28 = 14)"

definition unspecified4 :: "nat \<Rightarrow> bool" where "unspecified4 n = (n = 0)"

definition by_mapped :: "(nat \<Rightarrow> bool) \<Rightarrow> (nat \<Rightarrow> bool) \<Rightarrow> ip \<Rightarrow> bool" where
  "by_mapped p4 p6 a =
     (case a of
        IPv4 n \<Rightarrow> p4 n
      | IPv6 n _ \<Rightarrow> (case ipv4_mapped n of Some m \<Rightarrow> p4 m | None \<Rightarrow> p6 n))"

definition is_loopback :: "ip \<Rightarrow> bool" where
  "is_loopback = by_mapped loopback4 (\<lambda>n. n = 1)"

definition is_link_local :: "ip \<Rightarrow> bool" where
  "is_link_local = by_mapped link_local4 (\<lambda>n. n div 2 ^ 118 = 1018)"

definition is_multicast :: "ip \<Rightarrow> bool" where
  "is_multicast = by_mapped multicast4 (\<lambda>n. n div 2 ^ 120 = 255)"

definition is_unspecified :: "ip \<Rightarrow> bool" where
  "is_unspecified = by_mapped unspecified4 (\<lambda>n. n = 0)"

section \<open>Networks\<close>

text \<open>A network: version, network address and prefix length.\<close>

record ip_net =
  net_version :: nat
  net_address :: nat
  net_prefix :: nat

definition ip_in_net :: "ip \<Rightarrow> ip_net \<Rightarrow> bool" where
  "ip_in_net a net =
     (case a of
        IPv4 n \<Rightarrow> net_version net = 4
          \<and> n div 2 ^ (32 - net_prefix net) = net_address net div 2 ^ (32 - net_prefix net)
      | IPv6 n _ \<Rightarrow> net_version net = 6
          \<and> n div 2 ^ (128 - net_prefix net) = net_address net div 2 ^ (128 - net_prefix net))"

definition parse_prefix :: "nat \<Rightarrow> string \<Rightarrow> nat option" where
  "parse_prefix w s =
     (if s \<noteq> [] \<and> list_all is_digit s \<and> length s \<le> 4300 \<and> digits_val s \<le> w
      then Some (digits_val s) else None)"

text \<open>A dotted netmask, or failing that a dotted hostmask, as a prefix length.\<close>

definition mask_prefix :: "nat \<Rightarrow> nat option" where
  "mask_prefix m =
     (case find (\<lambda>p. m = 2 ^ 32 - 2 ^ (32 - p)) [0..<33] of
        Some p \<Rightarrow> Some p
      | None \<Rightarrow> find (\<lambda>p. m = 2 ^ (32 - p) - 1) [0..<33])"

definition parse_mask4 :: "string \<Rightarrow> nat option" where
  "parse_mask4 s =
     (case parse_prefix 32 s of
        Some p \<Rightarrow> Some p
      | None \<Rightarrow> Option.bind (parse_ip4 s) mask_prefix)"

definition masked :: "nat \<Rightarrow> nat \<Rightarrow> nat \<Rightarrow> nat" where
  "masked w p n = n div 2 ^ (w - p) * 2 ^ (w - p)"

definition ip_network :: "string \<Rightarrow> ip_net option" where
  "ip_network s =
     (let mk4 = (\<lambda>a p. \<lparr>net_version = 4, net_address = masked 32 p a, net_prefix = p\<rparr>);
          mk6 = (\<lambda>a p. case a of IPv6 n _ \<Rightarrow>
                    \<lparr>net_version = 6, net_address = masked 128 p n, net_prefix = p\<rparr>
                  | IPv4 n \<Rightarrow> \<lparr>net_version = 4, net_address = masked 32 p n, net_prefix = p\<rparr>) in
      case py_split CHR ''/'' s of
        [a] \<Rightarrow>
          (case parse_ip4 a of
             Some n \<Rightarrow> Some (mk4 n 32)
           | None \<Rightarrow> map_option (\<lambda>x. mk6 x 128) (parse_ip6 a))
      | [a, m] \<Rightarrow>
          (case (parse_ip4 a, parse_mask4 m) of
             (Some n, Some p) \<Rightarrow> Some (mk4 n p)
           | _ \<Rightarrow>
               (case (parse_ip6 a, parse_prefix 128 m) of
                  (Some x, Some p) \<Rightarrow> Some (mk6 x p)
                | _ \<Rightarrow> None))
      | _ \<Rightarrow> None)"

section \<open>Lemmas\<close>

declare show_hex.simps [simp del]

lemma join_octets: "n < 2 ^ 32 \<Longrightarrow> join_bytes (octets n) = n"
proof -
  assume n: "n < 2 ^ 32"
  have d: "n div 65536 = n div 256 div 256" "n div 16777216 = n div 256 div 256 div 256"
    by (simp_all flip: div_mult2_eq)
  have "n div 16777216 < 256" using n by (simp add: less_mult_imp_div_less)
  then show ?thesis
    unfolding join_bytes_def octets_def using n
    by (simp add: d div_mult_mod_eq)
qed

lemma digit_0_val: "is_digit c \<Longrightarrow> digit_val c = 0 \<Longrightarrow> c = CHR ''0''"
proof -
  assume "is_digit c" "digit_val c = 0"
  then have "code c = code CHR ''0''" by (simp add: is_digit_def digit_val_def)
  then show ?thesis by (simp only: of_char_eq_iff)
qed

lemma hd_show_nat: "0 < n \<Longrightarrow> hd (show_nat n) \<noteq> CHR ''0''"
proof (induction n rule: show_nat.induct)
  case (1 n)
  show ?case
  proof (cases "n < 10")
    case True
    have "hd (show_nat n) = digit_char n" using True by (simp add: show_nat.simps [of n])
    moreover have "code (digit_char n) \<noteq> code CHR ''0''" using True 1 by simp
    ultimately show ?thesis by metis
  next
    case False
    with 1 show ?thesis by (simp add: show_nat.simps [of n])
  qed
qed

lemma parse_octet_show_nat: "n < 256 \<Longrightarrow> parse_octet (show_nat n) = Some n"
proof -
  assume n: "n < 256"
  then have "length (show_nat n) \<le> 3"
    by (intro length_show_nat_le) simp_all
  moreover have "\<not> (show_nat n \<noteq> ''0'' \<and> hd (show_nat n) = CHR ''0'')"
    using hd_show_nat [of n] by (cases "n = 0") (auto simp: show_nat.simps [of 0] digit_char_def)
  ultimately show ?thesis
    using n show_nat_digits [of n] by (simp add: parse_octet_def)
qed

lemma split_show_octets: "py_split CHR ''.'' (show_ip4 n) = map show_nat (octets n)"
  unfolding show_ip4_def
proof (rule split_join)
  have "CHR ''.'' \<notin> set (show_nat k)" for k
    using show_nat_digits [of k] by (auto simp: list_all_iff is_digit_def)
  then show "\<forall>w \<in> set (map show_nat (octets n)). CHR ''.'' \<notin> set w" by auto
qed (simp add: octets_def)

text \<open>Printing an IPv4 address and parsing it again gives the address.\<close>

lemma parse_show_ip4: "n < 2 ^ 32 \<Longrightarrow> parse_ip4 (show_ip4 n) = Some n"
proof -
  assume n: "n < 2 ^ 32"
  have "those (map parse_octet (map show_nat (octets n))) = Some (octets n)"
    by (simp add: octets_def parse_octet_show_nat)
  moreover have "length (octets n) = 4" by (simp add: octets_def)
  ultimately show ?thesis
    using join_octets [OF n] by (simp add: parse_ip4_def split_show_octets)
qed

lemma digits_val_bound: "list_all is_digit s \<Longrightarrow> digits_val s < 10 ^ length s"
proof (induction s rule: rev_induct)
  case (snoc c s)
  then have "digit_val c \<le> 9" by (auto simp: is_digit_def digit_val_def)
  with snoc show ?case by simp
qed (simp add: digits_val_def)

lemma parse_octet_bound: "parse_octet s = Some n \<Longrightarrow> n < 256"
  by (auto simp: parse_octet_def split: if_splits)

lemma parse_ip4_bound: "parse_ip4 s = Some n \<Longrightarrow> n < 2 ^ 32"
proof -
  assume a: "parse_ip4 s = Some n"
  then obtain bs where th: "those (map parse_octet (py_split CHR ''.'' s)) = Some bs"
    and len: "length (py_split CHR ''.'' s) = 4" and n: "n = join_bytes bs"
    by (auto simp: parse_ip4_def Let_def split: if_splits)
  have l: "length bs = 4" using those_length [OF th] len by simp
  have b: "\<forall>x \<in> set bs. x < 256"
    using those_map_set [OF th] parse_octet_bound by blast
  from l obtain w x y z where "bs = [w, x, y, z]"
    by (auto simp: numeral_eq_Suc length_Suc_conv)
  with n b show ?thesis by (simp add: join_bytes_def)
qed

lemma ip_address_show_ip4: "n < 2 ^ 32 \<Longrightarrow> ip_address (show_ip (IPv4 n)) = Some (IPv4 n)"
  by (simp add: ip_address_def show_ip_def parse_show_ip4)

end
