(* ===== verification/Sdk_Utils.thy ===== *)
theory Sdk_Utils
  imports Sdk_Models Py_IPAddress
begin

text \<open>
  \<^verbatim>\<open>utils.py\<close>: header merging, the lifecycle of a claim, choosing a pod address, checking a gateway
  address, reading the name hash out of a selector, and the kubeconfig handed to \<^verbatim>\<open>kubectl\<close>.
\<close>

section \<open>Headers\<close>

type_synonym headers = "(string, string) dict"

definition sandboxd_auth_headers :: "connection_config \<Rightarrow> headers" where
  "sandboxd_auth_headers config =
     (let hdr = (\<lambda>tok. case tok of None \<Rightarrow> [] | Some t \<Rightarrow> [(''authorization'', ''Bearer '' @ t)]) in
      case config of
        SandboxdPodTunnelConfig c \<Rightarrow> hdr (pt_auth_token c)
      | SandboxdInClusterConfig c \<Rightarrow> hdr (sc_auth_token c)
      | _ \<Rightarrow> [])"

text \<open>The loops of \<^verbatim>\<open>merge_headers\<close>: \<open>merged\<close> maps the lower-case name to the pair last seen.\<close>

definition merge_step ::
  "(string, string \<times> string) dict \<Rightarrow> string \<times> string \<Rightarrow> (string, string \<times> string) dict"
where
  "merge_step merged nv = (let (name, value) = nv in dict_set (py_lower name) (name, value) merged)"

definition merge_layers :: "headers option list \<Rightarrow> (string, string \<times> string) dict" where
  "merge_layers layers =
     foldl (\<lambda>m layer. foldl merge_step m (case layer of None \<Rightarrow> [] | Some d \<Rightarrow> d)) [] layers"

definition dict_of_pairs :: "('k \<times> 'v) list \<Rightarrow> ('k, 'v) dict" where
  "dict_of_pairs kvs = foldl (\<lambda>d (k, v). dict_set k v d) [] kvs"

definition merge_headers :: "headers option list \<Rightarrow> headers" where
  "merge_headers layers = dict_of_pairs (map snd (merge_layers layers))"

text \<open>Case-insensitive lookup, as an HTTP library reads a header.\<close>

definition ci_get :: "headers \<Rightarrow> string \<Rightarrow> string option" where
  "ci_get hs name = map_of (map (\<lambda>(k, v). (py_lower k, v)) hs) (py_lower name)"

section \<open>Lifecycle of a claim\<close>

text \<open>A UTC instant is a number of seconds since 1970-01-01T00:00:00Z; \<^verbatim>\<open>datetime\<close> ends with the
  year 9999. \<open>civil\<close> gives year, month and day of a day number.\<close>

definition civil :: "int \<Rightarrow> int \<times> int \<times> int" where
  "civil days =
     (let z = days + 719468; era = z div 146097; doe = z mod 146097;
          yoe = (doe - doe div 1460 + doe div 36524 - doe div 146096) div 365;
          doy = doe - (365 * yoe + yoe div 4 - yoe div 100);
          mp = (5 * doy + 2) div 153;
          d = doy - (153 * mp + 2) div 5 + 1;
          m = (if mp < 10 then mp + 3 else mp - 9)
      in (yoe + era * 400 + (if m \<le> 2 then 1 else 0), m, d))"

definition pad :: "nat \<Rightarrow> int \<Rightarrow> string" where
  "pad w i = (let s = show_int i in replicate (w - length s) CHR ''0'' @ s)"

definition strftime_utc :: "int \<Rightarrow> string" where
  "strftime_utc t =
     (case civil (t div 86400) of (y, m, d) \<Rightarrow>
        let s = t mod 86400 in
        pad 4 y @ ''-'' @ pad 2 m @ ''-'' @ pad 2 d @ ''T'' @ pad 2 (s div 3600) @ '':''
        @ pad 2 (s mod 3600 div 60) @ '':'' @ pad 2 (s mod 60) @ ''Z'')"

definition MAX_DATETIME :: int where
  "MAX_DATETIME = 253402300799"

definition construct_sandbox_claim_lifecycle_spec :: "int \<Rightarrow> json \<Rightarrow> json res" where
  "construct_sandbox_claim_lifecycle_spec now shutdown_after_seconds =
     (case shutdown_after_seconds of
        JInt n \<Rightarrow>
          (if n \<le> 0 then Inl ValueError
           else if now + n > MAX_DATETIME then Inl ValueError
           else Inr (JObj [(''shutdownTime'', JStr (strftime_utc (now + n))),
                           (''shutdownPolicy'', JStr ''Delete'')]))
      | _ \<Rightarrow> Inl ValueError)"

section \<open>Pod addresses\<close>

text \<open>One turn of the loop of \<^verbatim>\<open>select_pod_ip\<close>: an entry is skipped, returned, or remembered.\<close>

datatype ip_choice = Skip | TakeNow string | Remember string

definition entry_ip :: "json \<Rightarrow> json res" where
  "entry_ip e = (case e of JStr s \<Rightarrow> Inr (JStr s) | JObj kvs \<Rightarrow> jget e ''ip'' | _ \<Rightarrow> Inr JNull)"

definition ip_turn :: "json \<Rightarrow> ip_choice" where
  "ip_turn e =
     (case entry_ip e of
        Inr (JStr s) \<Rightarrow>
          (let cleaned = py_strip s in
           if s = [] \<or> cleaned = [] then Skip
           else case ip_address cleaned of
             None \<Rightarrow> Skip
           | Some (IPv4 n) \<Rightarrow> TakeNow (show_ip (IPv4 n))
           | Some (IPv6 n sc) \<Rightarrow>
               (case ipv4_mapped n of
                  Some m \<Rightarrow> TakeNow (show_ip (IPv4 m))
                | None \<Rightarrow> Remember (show_ip (IPv6 n sc))))
      | _ \<Rightarrow> Skip)"

fun select_loop :: "string option \<Rightarrow> json list \<Rightarrow> string option" where
  "select_loop first_valid [] = first_valid"
| "select_loop first_valid (e # es) =
     (case ip_turn e of
        TakeNow s \<Rightarrow> Some s
      | Skip \<Rightarrow> select_loop first_valid es
      | Remember s \<Rightarrow>
          select_loop (if first_valid = None then Some s else first_valid) es)"

definition select_pod_ip :: "json \<Rightarrow> string option res" where
  "select_pod_ip ips =
     (if \<not> truthy ips then Inr None
      else bindE (jiter ips) (\<lambda>es. Inr (select_loop None es)))"

section \<open>Gateway addresses\<close>

definition is_valid_ip :: "json \<Rightarrow> bool" where
  "is_valid_ip v = (case v of JStr s \<Rightarrow> ip_address s \<noteq> None | _ \<Rightarrow> False)"

definition is_integer_label :: "string \<Rightarrow> bool" where
  "is_integer_label label =
     (if label = [] then False
      else if py_isdigit label then True
      else if startswith (py_lower label) ''0x''
      then list_all (\<lambda>c. c \<in> set ''0123456789abcdef'') (py_lower (drop 2 label))
      else False)"

text \<open>The character loop: \<open>prev\<close> is the character before, \<open>None\<close> at the start.\<close>

fun hostname_chars :: "char option \<Rightarrow> string \<Rightarrow> bool" where
  "hostname_chars prev [] = True"
| "hostname_chars prev (c # cs) =
     (if is_lower c \<or> is_upper c \<or> is_digit c then hostname_chars (Some c) cs
      else if c = CHR ''-'' then
        (if prev = None \<or> prev = Some CHR ''.'' then False else hostname_chars (Some c) cs)
      else if c = CHR ''.'' then
        (if prev = None \<or> prev = Some CHR ''.'' \<or> prev = Some CHR ''-'' then False
         else hostname_chars (Some c) cs)
      else False)"

definition is_valid_gateway_hostname :: "json \<Rightarrow> bool" where
  "is_valid_gateway_hostname v =
     (case v of
        JStr s \<Rightarrow>
          (if s = [] \<or> length s > 253 then False
           else let labels = py_split CHR ''.'' s in
             if list_all is_integer_label labels then False
             else if list_ex (\<lambda>label. length label > 63) labels then False
             else if \<not> hostname_chars None s then False
             else last s \<noteq> CHR ''-'' \<and> last s \<noteq> CHR ''.'')
      | _ \<Rightarrow> False)"

text \<open>The host names this is meant to admit.\<close>

definition host_label :: "string \<Rightarrow> bool" where
  "host_label w =
     (w \<noteq> [] \<and> length w \<le> 63 \<and> hd w \<noteq> CHR ''-'' \<and> last w \<noteq> CHR ''-''
      \<and> list_all (\<lambda>c. is_lower c \<or> is_upper c \<or> is_digit c \<or> c = CHR ''-'') w)"

section \<open>Selector, environment, kubeconfig\<close>

definition SANDBOX_NAME_HASH_LABEL :: string where
  "SANDBOX_NAME_HASH_LABEL = ''agents.x-k8s.io/sandbox-name-hash''"

fun find_hash :: "string list \<Rightarrow> string option" where
  "find_hash [] = None"
| "find_hash (r # rs) =
     (case py_partition CHR ''='' r of (key, sep, value) \<Rightarrow>
        if sep \<and> py_strip key = SANDBOX_NAME_HASH_LABEL
        then (if py_strip value = [] then None else Some (py_strip value))
        else find_hash rs)"

definition extract_sandbox_name_hash :: "json \<Rightarrow> string option res" where
  "extract_sandbox_name_hash sandbox_object =
     bindE (jget sandbox_object ''status'') (\<lambda>st.
     bindE (jget (jor st (JObj [])) ''selector'') (\<lambda>sel.
       case jor sel (JStr []) of
         JStr s \<Rightarrow> Inr (find_hash (py_split CHR '','' s))
       | _ \<Rightarrow> Inl AttributeError))"

definition construct_sandbox_claim_env_spec :: "(string, string) dict option \<Rightarrow> env_var list res" where
  "construct_sandbox_claim_env_spec env =
     (case env of
        None \<Rightarrow> Inr []
      | Some kvs \<Rightarrow> mapE (\<lambda>(name, value). mk_env_var name value) kvs)"

record kube_configuration =
  kc_host :: string
  kc_verify_ssl :: bool
  kc_ssl_ca_cert :: "string option"
  kc_tls_server_name :: "string option"
  kc_proxy :: "string option"
  kc_cert_file :: "string option"
  kc_key_file :: "string option"

definition str_true :: "string option \<Rightarrow> bool" where
  "str_true s = (s \<noteq> None \<and> s \<noteq> Some [])"

definition opt_entry :: "string \<Rightarrow> string option \<Rightarrow> (string \<times> json) list" where
  "opt_entry k v = (if str_true v then [(k, JStr (the v))] else [])"

definition kubeconfig_cluster :: "kube_configuration \<Rightarrow> (string \<times> json) list" where
  "kubeconfig_cluster c =
     [(''server'', JStr (kc_host c))]
     @ (if \<not> kc_verify_ssl c then [(''insecure-skip-tls-verify'', JBool True)]
        else opt_entry ''certificate-authority'' (kc_ssl_ca_cert c))
     @ opt_entry ''tls-server-name'' (kc_tls_server_name c)
     @ opt_entry ''proxy-url'' (kc_proxy c)"

definition kubeconfig_user ::
  "kube_configuration \<Rightarrow> string option \<Rightarrow> headers option \<Rightarrow> (string \<times> json) list"
where
  "kubeconfig_user c authorization default_headers =
     (let headers = dict_of_pairs (map (\<lambda>(k, v). (py_lower k, v))
                      (case default_headers of None \<Rightarrow> [] | Some d \<Rightarrow> d));
          auth = (if str_true authorization then the authorization
                  else case dict_get headers ''authorization'' of None \<Rightarrow> [] | Some a \<Rightarrow> a) in
      case py_partition CHR '' '' auth of (scheme, _, credential) \<Rightarrow>
        opt_entry ''client-certificate'' (kc_cert_file c)
        @ opt_entry ''client-key'' (kc_key_file c)
        @ (if py_lower scheme = ''bearer'' \<and> credential \<noteq> []
           then [(''token'', JStr credential)] else [])
        @ opt_entry ''as'' (dict_get headers ''impersonate-user'')
        @ (if str_true (dict_get headers ''impersonate-group'')
           then [(''as-groups'', JList [JStr (the (dict_get headers ''impersonate-group''))])] else []))"

definition kubeconfig_from_configuration ::
  "kube_configuration \<Rightarrow> string option \<Rightarrow> headers option \<Rightarrow> json"
where
  "kubeconfig_from_configuration c authorization default_headers =
     JObj [(''apiVersion'', JStr ''v1''), (''kind'', JStr ''Config''),
       (''clusters'', JList [JObj [(''name'', JStr ''sandbox''),
                                    (''cluster'', JObj (kubeconfig_cluster c))]]),
       (''users'', JList [JObj [(''name'', JStr ''sandbox''),
                                 (''user'', JObj (kubeconfig_user c authorization default_headers))]]),
       (''contexts'', JList [JObj [(''name'', JStr ''sandbox''),
          (''context'', JObj [(''cluster'', JStr ''sandbox''), (''user'', JStr ''sandbox'')])]]),
       (''current-context'', JStr ''sandbox'')]"

section \<open>Merging headers\<close>

definition merge_entries :: "headers option list \<Rightarrow> headers" where
  "merge_entries layers = concat (map (\<lambda>layer. case layer of None \<Rightarrow> [] | Some d \<Rightarrow> d) layers)"

lemma merge_layers_flat: "merge_layers layers = foldl merge_step [] (merge_entries layers)"
proof -
  have "foldl (\<lambda>m layer. foldl merge_step m (case layer of None \<Rightarrow> [] | Some d \<Rightarrow> d)) acc layers
        = foldl merge_step acc (merge_entries layers)" for acc
    by (induction layers arbitrary: acc) (simp_all add: merge_entries_def)
  then show ?thesis by (simp add: merge_layers_def)
qed

text \<open>What \<open>merged\<close> satisfies throughout: one entry per lower-case name, filed under it.\<close>

definition merged_ok :: "(string, string \<times> string) dict \<Rightarrow> bool" where
  "merged_ok m = (dict_ok m \<and> (\<forall>(k, (n, v)) \<in> set m. k = py_lower n))"

lemma set_dict_set: "set (dict_set k v m) \<subseteq> insert (k, v) (set m)"
  by (induction m) auto

lemma merged_ok_step: "merged_ok m \<Longrightarrow> merged_ok (merge_step m nv)"
  using set_dict_set [of "py_lower (fst nv)" nv m]
  by (cases nv) (auto simp: merged_ok_def merge_step_def distinct_update)

lemma merged_ok_fold: "merged_ok m \<Longrightarrow> merged_ok (foldl merge_step m es)"
  by (induction es arbitrary: m) (simp_all add: merged_ok_step)

lemma merge_fold_get:
  "dict_get (foldl merge_step m es) k =
     (case map_of (rev (map (\<lambda>(n, v). (py_lower n, (n, v))) es)) k of
        None \<Rightarrow> dict_get m k | Some nv \<Rightarrow> Some nv)"
  by (induction es arbitrary: m)
     (auto simp: merge_step_def update_conv map_add_def split: option.splits)

lemma update_fresh: "k \<notin> set (map fst d) \<Longrightarrow> dict_set k v d = d @ [(k, v)]"
  by (induction d) auto

lemma dict_of_pairs_id: "dict_ok kvs \<Longrightarrow> dict_of_pairs kvs = kvs"
proof -
  assume a: "dict_ok kvs"
  have "distinct (map fst (d @ kvs)) \<Longrightarrow> foldl (\<lambda>d (k, v). dict_set k v d) d kvs = d @ kvs" for d
  proof (induction kvs arbitrary: d)
    case (Cons e es)
    obtain k v where e: "e = (k, v)" by (cases e)
    with Cons.prems have "k \<notin> set (map fst d)" by auto
    then show ?case using Cons.IH [of "d @ [e]"] Cons.prems
      by (simp add: e update_fresh)
  qed simp
  from this [of "[]"] a show ?thesis by (simp add: dict_of_pairs_def)
qed

lemma merged_lower: "merged_ok m \<Longrightarrow> distinct (map (\<lambda>x. py_lower (fst (snd x))) m)"
proof -
  assume a: "merged_ok m"
  have "map (\<lambda>x. py_lower (fst (snd x))) m = map fst m"
    using a by (intro map_cong) (auto simp: merged_ok_def)
  with a show ?thesis by (simp only: merged_ok_def)
qed

lemma merge_headers_merged: "merge_headers layers = map snd (merge_layers layers)"
proof -
  have ok: "merged_ok (merge_layers layers)"
    unfolding merge_layers_flat by (rule merged_ok_fold) (simp add: merged_ok_def)
  then have "distinct (map py_lower (map (fst \<circ> snd) (merge_layers layers)))"
    using merged_lower [OF ok] by (simp add: comp_def)
  then have "distinct (map (fst \<circ> snd) (merge_layers layers))"
    unfolding distinct_map by blast
  then show ?thesis
    by (simp add: merge_headers_def dict_of_pairs_id)
qed

lemma ci_get_merged:
  "merged_ok m \<Longrightarrow> ci_get (map snd m) name = map_option snd (dict_get m (py_lower name))"
  by (induction m) (auto simp: ci_get_def merged_ok_def)

lemma merge_headers_lookup:
  "ci_get (merge_headers layers) name =
     map_of (rev (map (\<lambda>(n, v). (py_lower n, v)) (merge_entries layers))) (py_lower name)
   \<and> distinct (map (\<lambda>(n, v). py_lower n) (merge_headers layers))"
proof
  have ok: "merged_ok (merge_layers layers)"
    unfolding merge_layers_flat by (rule merged_ok_fold) (simp add: merged_ok_def)
  have eq: "map_option snd (map_of (rev (map (\<lambda>(n, v). (py_lower n, (n, v))) es)) k)
        = map_of (rev (map (\<lambda>(n, v). (py_lower n, v)) es)) k" for es :: headers and k
    by (induction es rule: rev_induct) auto
  show "ci_get (merge_headers layers) name =
     map_of (rev (map (\<lambda>(n, v). (py_lower n, v)) (merge_entries layers))) (py_lower name)"
    unfolding merge_headers_merged ci_get_merged [OF ok]
    unfolding merge_layers_flat merge_fold_get eq [symmetric]
    by (simp split: option.split)
  show "distinct (map (\<lambda>(n, v). py_lower n) (merge_headers layers))"
    using merged_lower [OF ok] by (simp add: merge_headers_merged comp_def case_prod_beta)
qed

text \<open>\<^verbatim>\<open>merge_headers\<close> merges case-insensitively and the later layer wins: reading any header name
  (in any spelling) from the result gives the value of the last entry with that name over all layers,
  and the result never holds two spellings of one name.\<close>

lemma merge_headers_spec:
  "ci_get (merge_headers layers) name =
     map_of (rev (map (\<lambda>(n, v). (py_lower n, v)) (merge_entries layers))) (py_lower name)
   \<and> distinct (map (\<lambda>(n, v). py_lower n) (merge_headers layers))"
  by (rule merge_headers_lookup)

section \<open>Selecting an address\<close>

definition nows :: "json list \<Rightarrow> string list" where
  "nows es = concat (map (\<lambda>e. case ip_turn e of TakeNow s \<Rightarrow> [s] | _ \<Rightarrow> []) es)"

definition laters :: "json list \<Rightarrow> string list" where
  "laters es = concat (map (\<lambda>e. case ip_turn e of Remember s \<Rightarrow> [s] | _ \<Rightarrow> []) es)"

lemma nows_simps:
  "nows [] = []" "laters [] = []"
  "nows (e # es) = (case ip_turn e of TakeNow s \<Rightarrow> s # nows es | _ \<Rightarrow> nows es)"
  "laters (e # es) = (case ip_turn e of Remember s \<Rightarrow> s # laters es | _ \<Rightarrow> laters es)"
  by (simp_all add: nows_def laters_def split: ip_choice.split)

lemma select_loop_eq:
  "select_loop fv es =
     (case nows es of
        s # _ \<Rightarrow> Some s
      | [] \<Rightarrow> (case fv of Some s \<Rightarrow> Some s
               | None \<Rightarrow> (case laters es of s # _ \<Rightarrow> Some s | [] \<Rightarrow> None)))"
  by (induction fv es rule: select_loop.induct)
     (auto simp: nows_simps split: ip_choice.split option.split list.split)

text \<open>The IPv4 address an entry stands for, directly or as an IPv4-mapped IPv6 address, and the IPv6
  address otherwise.\<close>

definition entry_addr :: "json \<Rightarrow> ip option" where
  "entry_addr e =
     (case entry_ip e of
        Inr (JStr s) \<Rightarrow>
          (case ip_address (py_strip s) of
             Some (IPv6 n sc) \<Rightarrow>
               Some (case ipv4_mapped n of Some m \<Rightarrow> IPv4 m | None \<Rightarrow> IPv6 n sc)
           | r \<Rightarrow> r)
      | _ \<Rightarrow> None)"

definition is_v4 :: "ip \<Rightarrow> bool" where
  "is_v4 a = (case a of IPv4 _ \<Rightarrow> True | IPv6 _ _ \<Rightarrow> False)"

lemma ip_address_Nil [simp]: "ip_address [] = None"
  by (simp add: ip_address_def parse_ip4_def parse_ip6_def parse_ip6_int_def)

lemma ip_turn_entry_addr:
  "ip_turn e = (case entry_addr e of
      None \<Rightarrow> Skip
    | Some a \<Rightarrow> (if is_v4 a then TakeNow (show_ip a) else Remember (show_ip a)))"
proof -
  have "py_strip [] = []" by (simp add: py_strip_def)
  then show ?thesis
    by (auto simp: ip_turn_def entry_addr_def is_v4_def Let_def
             split: json.split sum.split option.split ip.split)
qed

definition entry_addrs :: "json list \<Rightarrow> ip list" where
  "entry_addrs es = concat (map (\<lambda>e. case entry_addr e of None \<Rightarrow> [] | Some a \<Rightarrow> [a]) es)"

lemma take_now_addrs:
  "nows es = map show_ip (filter is_v4 (entry_addrs es))"
  "laters es = map show_ip (filter (\<lambda>a. \<not> is_v4 a) (entry_addrs es))"
  by (induction es) (auto simp: entry_addrs_def nows_simps ip_turn_entry_addr split: option.split)

text \<open>\<^verbatim>\<open>select_pod_ip\<close> prefers IPv4: over a list of entries it returns the canonical text of the first
  address that is IPv4 (an IPv4-mapped IPv6 address counts as its IPv4 address), else of the first valid
  IPv6 address, else nothing; malformed entries never raise.\<close>

lemma select_pod_ip_spec:
  "select_pod_ip (JList es) =
     Inr (map_option show_ip
       (case filter is_v4 (entry_addrs es) of
          a # _ \<Rightarrow> Some a
        | [] \<Rightarrow> (case entry_addrs es of a # _ \<Rightarrow> Some a | [] \<Rightarrow> None)))"
proof (cases es)
  case Nil
  then show ?thesis by (simp add: select_pod_ip_def entry_addrs_def)
next
  case (Cons e es')
  have all6: "filter is_v4 as = [] \<Longrightarrow> filter (\<lambda>a. \<not> is_v4 a) as = as" for as
    by (simp add: filter_empty_conv)
  have "select_pod_ip (JList es) = Inr (select_loop None es)"
    by (simp add: select_pod_ip_def Cons)
  then show ?thesis
    by (auto simp: select_loop_eq take_now_addrs all6 split: list.split)
qed

section \<open>Gateway host names\<close>

definition host_char :: "char \<Rightarrow> bool" where
  "host_char c = (is_lower c \<or> is_upper c \<or> is_digit c \<or> c = CHR ''-'')"

definition label_body :: "string \<Rightarrow> bool" where
  "label_body w = (w \<noteq> [] \<and> hd w \<noteq> CHR ''-'' \<and> last w \<noteq> CHR ''-'' \<and> list_all host_char w)"

text \<open>What remains of the current label, after the character \<open>prev\<close>.\<close>

definition label_rest :: "char option \<Rightarrow> string \<Rightarrow> bool" where
  "label_rest prev w =
     (if prev = None \<or> prev = Some CHR ''.'' then label_body w
      else if prev = Some CHR ''-'' then w \<noteq> [] \<and> last w \<noteq> CHR ''-'' \<and> list_all host_char w
      else w = [] \<or> last w \<noteq> CHR ''-'' \<and> list_all host_char w)"

definition ends_ok :: "char option \<Rightarrow> string \<Rightarrow> bool" where
  "ends_ok prev s =
     (if s = [] then prev \<noteq> None \<and> prev \<noteq> Some CHR ''-'' \<and> prev \<noteq> Some CHR ''.''
      else last s \<noteq> CHR ''-'' \<and> last s \<noteq> CHR ''.'')"

lemma host_char_facts: "\<not> host_char CHR ''.''" "host_char CHR ''-''"
  "is_lower c \<Longrightarrow> host_char c" "is_upper c \<Longrightarrow> host_char c" "is_digit c \<Longrightarrow> host_char c"
  by (auto simp: host_char_def is_lower_def is_upper_def is_digit_def)

lemma label_rest_Cons:
  "c \<noteq> CHR ''.'' \<Longrightarrow>
   label_rest prev (c # w) =
     (host_char c \<and> \<not> (c = CHR ''-'' \<and> (prev = None \<or> prev = Some CHR ''.'')) \<and> label_rest (Some c) w)"
  by (cases w) (auto simp: label_rest_def label_body_def host_char_facts)

lemma label_rest_Nil:
  "label_rest prev [] = (prev \<noteq> None \<and> prev \<noteq> Some CHR ''.'' \<and> prev \<noteq> Some CHR ''-'')"
  by (auto simp: label_rest_def label_body_def)

lemma hostname_chars_Cons:
  "hostname_chars prev (c # cs) =
     ((host_char c \<or> c = CHR ''.'')
      \<and> \<not> (c = CHR ''-'' \<and> (prev = None \<or> prev = Some CHR ''.''))
      \<and> \<not> (c = CHR ''.'' \<and> (prev = None \<or> prev = Some CHR ''.'' \<or> prev = Some CHR ''-''))
      \<and> hostname_chars (Some c) cs)"
  by (auto simp: host_char_def is_lower_def is_upper_def is_digit_def)

lemma hostname_labels:
  "hostname_chars prev s \<and> ends_ok prev s \<longleftrightarrow>
     (case py_split CHR ''.'' s of [] \<Rightarrow> False | w # ws \<Rightarrow> label_rest prev w \<and> list_all label_body ws)"
proof (induction s arbitrary: prev)
  case Nil
  show ?case by (auto simp: label_rest_Nil ends_ok_def)
next
  case (Cons c s)
  have e: "ends_ok prev (c # s) = ends_ok (Some c) s" by (simp add: ends_ok_def)
  obtain w ws where sp: "py_split CHR ''.'' s = w # ws"
    using split_by_nonempty by (metis neq_Nil_conv)
  have IH: "hostname_chars (Some c) s \<and> ends_ok (Some c) s \<longleftrightarrow>
      label_rest (Some c) w \<and> list_all label_body ws"
    using Cons.IH [of "Some c"] by (simp add: sp)
  show ?case
  proof (cases "c = CHR ''.''")
    case True
    with IH have "hostname_chars (Some c) s \<and> ends_ok (Some c) s \<longleftrightarrow> label_body w \<and> list_all label_body ws"
      by (simp add: label_rest_def)
    with True e show ?thesis
      by (simp add: sp hostname_chars_Cons label_rest_Nil del: hostname_chars.simps)
  next
    case False
    with IH show ?thesis
      by (simp add: e sp hostname_chars_Cons label_rest_Cons del: hostname_chars.simps)
  qed
qed

lemma host_label_body: "host_label w = (label_body w \<and> length w \<le> 63)"
  unfolding host_label_def label_body_def host_char_def by blast

lemma gateway_hostname_labels:
  "is_valid_gateway_hostname v \<longleftrightarrow>
     (\<exists>s. v = JStr s \<and> length s \<le> 253
        \<and> list_all host_label (py_split CHR ''.'' s)
        \<and> \<not> list_all is_integer_label (py_split CHR ''.'' s))"
proof (cases v)
  case (JStr s)
  obtain w ws where sp: "py_split CHR ''.'' s = w # ws"
    using split_by_nonempty by (metis neq_Nil_conv)
  have h: "hostname_chars None s \<and> ends_ok None s \<longleftrightarrow> list_all label_body (w # ws)"
    using hostname_labels [of None s] by (simp add: sp label_rest_def)
  have l: "list_all host_label (w # ws) \<longleftrightarrow>
      list_all label_body (w # ws) \<and> \<not> list_ex (\<lambda>label. length label > 63) (w # ws)"
    unfolding list_all_iff list_ex_iff host_label_body by (auto simp: not_less)
  have "is_valid_gateway_hostname v \<longleftrightarrow>
      length s \<le> 253 \<and> \<not> list_all is_integer_label (w # ws)
      \<and> \<not> list_ex (\<lambda>label. length label > 63) (w # ws) \<and> (hostname_chars None s \<and> ends_ok None s)"
    unfolding JStr is_valid_gateway_hostname_def json.case Let_def sp ends_ok_def by simp
  also have "\<dots> \<longleftrightarrow> length s \<le> 253 \<and> list_all host_label (w # ws) \<and> \<not> list_all is_integer_label (w # ws)"
    unfolding h l by blast
  finally show ?thesis by (simp add: JStr sp)
qed (simp_all add: is_valid_gateway_hostname_def)

text \<open>\<^verbatim>\<open>is_valid_gateway_hostname\<close> accepts exactly the strings of at most 253 characters whose
  dot-separated labels are all 1 to 63 letters, digits and inner hyphens, and are not all integers
  (decimal or \<open>0x\<close> hexadecimal); the single pass over the characters decides the per-label rule.\<close>

lemma is_valid_gateway_hostname_iff:
  "is_valid_gateway_hostname v \<longleftrightarrow>
     (\<exists>s. v = JStr s \<and> length s \<le> 253
        \<and> list_all host_label (py_split CHR ''.'' s)
        \<and> \<not> list_all is_integer_label (py_split CHR ''.'' s))"
  by (rule gateway_hostname_labels)

lemma split_by_set: "c \<in> set s \<Longrightarrow> p c \<or> (\<exists>w \<in> set (split_by p s). c \<in> set w)"
proof (induction s)
  case (Cons a s)
  obtain w ws where "split_by p s = w # ws" using split_by_nonempty by (metis neq_Nil_conv)
  with Cons show ?case by auto
qed simp

lemma host_label_no_colon: "list_all host_label (py_split CHR ''.'' s) \<Longrightarrow> CHR '':'' \<notin> set s"
proof
  assume a: "list_all host_label (py_split CHR ''.'' s)" "CHR '':'' \<in> set s"
  from split_by_set [OF a(2), of "\<lambda>c. c = CHR ''.''"] obtain w
    where "w \<in> set (py_split CHR ''.'' s)" "CHR '':'' \<in> set w" by auto
  with a(1) have "host_char CHR '':''" by (auto simp: list_all_iff host_label_body label_body_def)
  then show False by (simp add: host_char_def is_lower_def is_upper_def is_digit_def)
qed

lemma partition_subset: "set (fst (py_partition c s)) \<subseteq> set s"
  by (induction s) (auto split: prod.split)

lemma parse_ip6_colon: "parse_ip6 s = Some a \<Longrightarrow> CHR '':'' \<in> set s"
proof (rule ccontr)
  assume a: "parse_ip6 s = Some a" and n: "CHR '':'' \<notin> set s"
  obtain addr sep scope where p: "py_partition CHR ''%'' s = (addr, sep, scope)"
    by (cases "py_partition CHR ''%'' s")
  from partition_subset [of "CHR ''%''" s] p n have "list_all (\<lambda>c. c \<noteq> CHR '':'') addr" by (auto simp: list_all_iff)
  then have "py_split CHR '':'' addr = [addr]" by (rule split_by_no_sep_single)
  then have "parse_ip6_int addr = None" by (simp add: parse_ip6_int_def)
  with a p show False by (auto simp: parse_ip6_def split: if_splits)
qed

lemma those_map_get: "those (map f xs) = Some ys \<Longrightarrow> x \<in> set xs \<Longrightarrow> \<exists>y. f x = Some y"
  by (induction xs arbitrary: ys) (auto split: option.splits)

lemma parse_octet_integer: "parse_octet w = Some n \<Longrightarrow> is_integer_label w"
proof -
  assume "parse_octet w = Some n"
  then have "w \<noteq> []" "list_all is_digit w" by (auto simp: parse_octet_def split: if_splits)
  then show ?thesis
    by (auto simp: is_integer_label_def py_isdigit_def py_isdigit_char_def list_all_iff)
qed

text \<open>A gateway host name is never an address literal: no accepted string parses as an IPv4 or IPv6
  address, so an address of the gateway can only come in through the separate \<^verbatim>\<open>is_valid_ip\<close> check.\<close>

lemma gateway_hostname_not_ip: "\<not> (is_valid_gateway_hostname v \<and> is_valid_ip v)"
proof
  assume a: "is_valid_gateway_hostname v \<and> is_valid_ip v"
  then obtain s where s: "v = JStr s" "list_all host_label (py_split CHR ''.'' s)"
      "\<not> list_all is_integer_label (py_split CHR ''.'' s)"
    using gateway_hostname_labels by blast
  have "parse_ip6 s = None"
    using host_label_no_colon [OF s(2)] parse_ip6_colon by (cases "parse_ip6 s") auto
  with a s(1) obtain n where "parse_ip4 s = Some n"
    by (auto simp: is_valid_ip_def ip_address_def split: option.splits)
  then obtain bs where "those (map parse_octet (py_split CHR ''.'' s)) = Some bs"
    by (auto simp: parse_ip4_def Let_def split: if_splits)
  then have "\<forall>w \<in> set (py_split CHR ''.'' s). \<exists>b. parse_octet w = Some b"
    by (metis those_map_get)
  then have "list_all is_integer_label (py_split CHR ''.'' s)"
    using parse_octet_integer by (fastforce simp: list_all_iff)
  with s(3) show False by simp
qed

section \<open>The generated kubeconfig\<close>

lemma opt_entry_token: "k \<noteq> ''token'' \<Longrightarrow> map_of (opt_entry k v) ''token'' = None"
  by (simp add: opt_entry_def)

lemma kubeconfig_bearer:
  "dict_get (kubeconfig_user c (Some (''Bearer '' @ tok)) hdrs) ''token'' =
     (if tok = [] then None else Some (JStr tok))"
proof -
  have "py_partition CHR '' '' (''Bearer '' @ tok) = (''Bearer'', True, tok)" by simp
  moreover have "py_lower ''Bearer'' = ''bearer''" by code_simp
  moreover have "str_true (Some (''Bearer '' @ tok))" by (simp add: str_true_def)
  ultimately show ?thesis
    unfolding kubeconfig_user_def Let_def
    by (simp add: opt_entry_token map_add_def del: append_Cons)
qed

lemma kubeconfig_basic: "dict_get (kubeconfig_user c (Some (''Basic '' @ tok)) hdrs) ''token'' = None"
proof -
  have "py_partition CHR '' '' (''Basic '' @ tok) = (''Basic'', True, tok)" by simp
  moreover have "py_lower ''Basic'' \<noteq> ''bearer''" by code_simp
  moreover have "str_true (Some (''Basic '' @ tok))" by (simp add: str_true_def)
  ultimately show ?thesis
    unfolding kubeconfig_user_def Let_def
    by (simp add: opt_entry_token map_add_def del: append_Cons)
qed

text \<open>\<^verbatim>\<open>kubeconfig_from_configuration\<close> is one \<^verbatim>\<open>kubectl\<close> accepts and no weaker than the client's
  configuration: the cluster entry never carries a certificate authority together with
  \<open>insecure-skip-tls-verify\<close>, verification is off only when the client has it off, the trusted authority
  is the client's, and a bearer credential, never a basic one, becomes the user's token.\<close>

lemma kubeconfig_cluster_spec:
  "dict_get (kubeconfig_cluster c) ''insecure-skip-tls-verify'' =
     (if kc_verify_ssl c then None else Some (JBool True))
   \<and> dict_ok (kubeconfig_cluster c) \<and> dict_get (kubeconfig_cluster c) ''server'' = Some (JStr (kc_host c))
   \<and> dict_get (kubeconfig_cluster c) ''certificate-authority'' =
       (if kc_verify_ssl c \<and> str_true (kc_ssl_ca_cert c) then Some (JStr (the (kc_ssl_ca_cert c))) else None)
   \<and> dict_get (kubeconfig_user c (Some (''Bearer '' @ tok)) hdrs) ''token'' =
       (if tok = [] then None else Some (JStr tok))
   \<and> dict_get (kubeconfig_user c (Some (''Basic '' @ tok)) hdrs) ''token'' = None"
proof (intro conjI)
  show "dict_get (kubeconfig_user c (Some (''Bearer '' @ tok)) hdrs) ''token'' =
       (if tok = [] then None else Some (JStr tok))"
    by (rule kubeconfig_bearer)
  show "dict_get (kubeconfig_user c (Some (''Basic '' @ tok)) hdrs) ''token'' = None"
    by (rule kubeconfig_basic)
qed (simp_all add: kubeconfig_cluster_def opt_entry_def)

end
