(* ===== verification/K8s_Helper.thy ===== *)
theory K8s_Helper
  imports Claim_Validation Sdk_Utils
begin

text \<open>
  \<^verbatim>\<open>k8s_helper.py\<close>: the calls on SandboxClaim, Sandbox and Gateway objects and the three waits on a
  watch stream. The Kubernetes API and the clocks are a record \<open>'w kube\<close> of functions on a world
  \<open>'w\<close>; a call that leaves the world as it was is a call that was not made. A watch stream is the list
  of its events, each with the world at its arrival, and the way it ended; the client consumes it
  lazily, so a wait that returns at an event leaves the world of that event.
\<close>

section \<open>The Kubernetes API\<close>

datatype resource_kind = Claims | Sandboxes | Gateways

text \<open>Group, version and plural, from \<^verbatim>\<open>constants.py\<close>.\<close>

fun api_resource :: "resource_kind \<Rightarrow> string \<times> string \<times> string" where
  "api_resource Claims = (''extensions.agents.x-k8s.io'', ''v1beta1'', ''sandboxclaims'')"
| "api_resource Sandboxes = (''agents.x-k8s.io'', ''v1beta1'', ''sandboxes'')"
| "api_resource Gateways = (''gateway.networking.k8s.io'', ''v1'', ''gateways'')"

type_synonym gvr = "string \<times> string \<times> string"

datatype watch_event = NoEvent | Event string json

record 'w session =
  ses_events :: "(watch_event \<times> 'w) list"
  ses_end :: "exn option"
  ses_world :: 'w

text \<open>\<open>k_now\<close> is \<^verbatim>\<open>time.monotonic()\<close>, \<open>k_utcnow\<close> the UTC time in seconds and \<open>k_isonow\<close> its ISO text.
  A watch takes the namespace, the field selector, the resourceVersion if one is given, and the
  number of seconds.\<close>

record 'w kube =
  k_now :: "'w \<Rightarrow> rat \<times> 'w"
  k_utcnow :: "'w \<Rightarrow> int \<times> 'w"
  k_isonow :: "'w \<Rightarrow> string \<times> 'w"
  k_sleep :: "rat \<Rightarrow> 'w \<Rightarrow> 'w"
  k_create :: "gvr \<Rightarrow> string \<Rightarrow> json \<Rightarrow> ('w, exn, json) exec"
  k_get :: "gvr \<Rightarrow> string \<Rightarrow> string \<Rightarrow> ('w, exn, json) exec"
  k_delete :: "gvr \<Rightarrow> string \<Rightarrow> string \<Rightarrow> string option \<Rightarrow> ('w, exn, unit) exec"
  k_patch :: "gvr \<Rightarrow> string \<Rightarrow> string \<Rightarrow> json \<Rightarrow> ('w, exn, json) exec"
  k_list :: "gvr \<Rightarrow> string \<Rightarrow> string option \<Rightarrow> ('w, exn, json) exec"
  k_watch :: "gvr \<Rightarrow> string \<Rightarrow> string \<Rightarrow> json option \<Rightarrow> int \<Rightarrow> 'w \<Rightarrow> 'w session"

section \<open>Creating a claim\<close>

definition CLIENT_REQUEST_TIME_ANNOTATION :: string where
  "CLIENT_REQUEST_TIME_ANNOTATION = ''agents.x-k8s.io/client-first-requested-at''"

definition CREATED_BY_LABEL :: string where
  "CREATED_BY_LABEL = ''agents.x-k8s.io/created-by''"

definition jstrs :: "(string, string) dict \<Rightarrow> json" where
  "jstrs d = JObj (map (\<lambda>(k, v). (k, JStr v)) d)"

definition or_empty :: "('k, 'v) dict option \<Rightarrow> ('k, 'v) dict" where
  "or_empty d = (case d of None \<Rightarrow> [] | Some kvs \<Rightarrow> kvs)"

definition opt_field :: "string \<Rightarrow> json option \<Rightarrow> (string \<times> json) list" where
  "opt_field k v = (case v of None \<Rightarrow> [] | Some j \<Rightarrow> [(k, j)])"

definition dump_pod_metadata :: "additional_pod_metadata \<Rightarrow> json" where
  "dump_pod_metadata m =
     JObj (opt_field ''labels'' (map_option jstrs (apm_labels m))
           @ opt_field ''annotations'' (map_option jstrs (apm_annotations m)))"

definition dump_env_var :: "env_var \<Rightarrow> json" where
  "dump_env_var v =
     JObj ([(''name'', JStr (ev_name v)), (''value'', JStr (ev_value v))]
           @ opt_field ''containerName'' (map_option JStr (ev_container_name v)))"

record claim_args =
  ca_annotations :: "(string, string) dict option"
  ca_labels :: "(string, string) dict option"
  ca_lifecycle :: "json option"
  ca_volume_claim_templates :: "json list option"
  ca_pod_metadata :: "additional_pod_metadata option"
  ca_env :: "(string, string) dict option"

definition claim_spec :: "string \<Rightarrow> claim_args \<Rightarrow> env_var list \<Rightarrow> (string \<times> json) list" where
  "claim_spec warmpool a env_spec =
     [(''warmPoolRef'', JObj [(''name'', JStr warmpool)])]
     @ (case ca_lifecycle a of Some l \<Rightarrow> if truthy l then [(''lifecycle'', l)] else [] | None \<Rightarrow> [])
     @ (case ca_volume_claim_templates a of
          Some vs \<Rightarrow> if vs \<noteq> [] then [(''volumeClaimTemplates'', JList vs)] else [] | None \<Rightarrow> [])
     @ opt_field ''additionalPodMetadata'' (map_option dump_pod_metadata (ca_pod_metadata a))
     @ (if env_spec \<noteq> [] then [(''env'', JList (map dump_env_var env_spec))] else [])"

definition claim_manifest ::
  "string \<Rightarrow> string \<Rightarrow> claim_args \<Rightarrow> (string, string) dict \<Rightarrow> env_var list \<Rightarrow> json"
where
  "claim_manifest name warmpool a updated_annotations env_spec =
     JObj [(''apiVersion'', JStr ''extensions.agents.x-k8s.io/v1beta1''),
           (''kind'', JStr ''SandboxClaim''),
           (''metadata'', JObj [(''name'', JStr name),
              (''annotations'', jstrs updated_annotations),
              (''labels'', jstrs (dict_set CREATED_BY_LABEL ''python-client'' (or_empty (ca_labels a))))]),
           (''spec'', JObj (claim_spec warmpool a env_spec))]"

definition create_sandbox_claim ::
  "'w kube \<Rightarrow> string \<Rightarrow> string \<Rightarrow> string \<Rightarrow> claim_args \<Rightarrow> ('w, exn, json) exec"
where
  "create_sandbox_claim api name warmpool namespace a w =
     (let anns = or_empty (ca_annotations a);
          (updated_annotations, w1) =
            (if CLIENT_REQUEST_TIME_ANNOTATION \<in> set (map fst anns) then (anns, w)
             else case k_isonow api w of (t, w') \<Rightarrow>
               (dict_set CLIENT_REQUEST_TIME_ANNOTATION t anns, w'))
      in case construct_sandbox_claim_env_spec (ca_env a) of
           Inl e \<Rightarrow> (Inl e, w1)
         | Inr env_spec \<Rightarrow>
             k_create api (api_resource Claims) namespace
               (claim_manifest name warmpool a updated_annotations env_spec) w1)"

section \<open>The watch loop\<close>

datatype ('st, 'r) turn = Stop "exn + 'r" | Go 'st

datatype 'st on_error = Raise | Restart 'st | Backoff 'st

fun feed ::
  "('st \<Rightarrow> watch_event \<Rightarrow> ('st, 'r) turn) \<Rightarrow> 'st \<Rightarrow> (watch_event \<times> 'w) list \<Rightarrow> ('r res \<times> 'w) + 'st"
where
  "feed h st [] = Inr st"
| "feed h st ((ev, w) # es) = (case h st ev of Stop r \<Rightarrow> Inl (r, w) | Go st' \<Rightarrow> feed h st' es)"

text \<open>
  The \<^verbatim>\<open>while True\<close> that the three waits have in common; \<open>None\<close> is a loop still running when the
  fuel is used up. \<open>opn\<close> starts the stream with the state of before the initial events, as the
  arguments of \<^verbatim>\<open>w.stream\<close> are evaluated first; \<open>h\<close> is the body of the \<^verbatim>\<open>for\<close>; \<open>err\<close> is what the
  \<^verbatim>\<open>except\<close> clauses do with an error of the stream.
\<close>

fun watch_loop ::
  "nat \<Rightarrow> 'w kube \<Rightarrow> (int \<Rightarrow> 'st \<Rightarrow> 'w \<Rightarrow> 'w session) \<Rightarrow> ('st \<Rightarrow> watch_event \<Rightarrow> ('st, 'r) turn)
   \<Rightarrow> ('st \<Rightarrow> exn \<Rightarrow> 'st on_error) \<Rightarrow> rat \<Rightarrow> watch_event list \<Rightarrow> 'st \<Rightarrow> 'w \<Rightarrow> ('r res \<times> 'w) option"
where
  "watch_loop 0 api opn h err deadline initial st w = None"
| "watch_loop (Suc n) api opn h err deadline initial st w =
     (case k_now api w of (now, w1) \<Rightarrow>
        let remaining = \<lceil>deadline - now\<rceil> in
        if remaining \<le> 0 then Some (Inl TimeoutError, w1)
        else case feed h st (map (\<lambda>ev. (ev, w1)) initial) of
          Inl done \<Rightarrow> Some done
        | Inr st1 \<Rightarrow>
            let s = opn remaining st w1 in
            case feed h st1 (ses_events s) of
              Inl done \<Rightarrow> Some done
            | Inr st2 \<Rightarrow>
                (case ses_end s of
                   None \<Rightarrow> watch_loop n api opn h err deadline [] st2 (ses_world s)
                 | Some e \<Rightarrow>
                     (case err st2 e of
                        Raise \<Rightarrow> Some (Inl e, ses_world s)
                      | Restart st3 \<Rightarrow> watch_loop n api opn h err deadline [] st3 (ses_world s)
                      | Backoff st3 \<Rightarrow>
                          (case k_now api (ses_world s) of (now2, w2) \<Rightarrow>
                             watch_loop n api opn h err deadline [] st3
                               (k_sleep api (min (1/2) (max 0 (deadline - now2))) w2)))))"

section \<open>Waiting for a claim\<close>

definition TERMINAL_CLAIM_READY_REASONS :: "string list" where
  "TERMINAL_CLAIM_READY_REASONS =
     [''InvalidMetadata'', ''EnvVarsInjectionRejected'', ''VolumeClaimTemplatesError'',
      ''ClaimExpired'', ''SandboxExpired'', ''InvalidConfiguration'', ''PodFailed'', ''PodSucceeded'']"

text \<open>Membership in a frozenset raises on unhashable values.\<close>

definition is_terminal_reason :: "json \<Rightarrow> bool res" where
  "is_terminal_reason r =
     (case r of
        JStr s \<Rightarrow> Inr (s \<in> set TERMINAL_CLAIM_READY_REASONS)
      | JList _ \<Rightarrow> Inl TypeError
      | JObj _ \<Rightarrow> Inl TypeError
      | _ \<Rightarrow> Inr False)"

text \<open>\<^verbatim>\<open>==\<close> on the numbers that stand for generations; \<open>True\<close> and \<open>1.0\<close> equal \<open>1\<close> in Python, and a
  value that is not a number equals nothing.\<close>

definition num_eq :: "json \<Rightarrow> json \<Rightarrow> bool" where
  "num_eq a b =
     (let n = (\<lambda>j. case j of JBool x \<Rightarrow> JInt (if x then 1 else 0)
                 | JFloat (Finite r) \<Rightarrow> if of_int \<lfloor>r\<rfloor> = r then JInt \<lfloor>r\<rfloor> else j
                 | _ \<Rightarrow> j) in n a = n b \<and> a \<noteq> JFloat NaN)"

record claim_wait =
  cw_require_ready :: bool
  cw_expected_uid :: "string option"
  cw_require_current_generation :: bool

definition ready_status :: "json \<Rightarrow> json \<Rightarrow> string \<Rightarrow> bool" where
  "ready_status ty st v = (ty = JStr ''Ready'' \<and> st = JStr v)"

definition claim_condition :: "claim_wait \<Rightarrow> json \<Rightarrow> bool \<Rightarrow> json \<Rightarrow> bool res" where
  "claim_condition cw metadata ready cond =
     bindE (jget cond ''type'') (\<lambda>ty. bindE (jget cond ''status'') (\<lambda>st.
     bindE (jget cond ''reason'') (\<lambda>reason. bindE (jget cond ''observedGeneration'') (\<lambda>observed.
     bindE (jget metadata ''generation'') (\<lambda>generation.
       if ready_status ty st ''False'' \<and> reason = JStr ''TemplateNotFound''
       then Inl SandboxTemplateNotFoundError
       else if reason = JStr ''WarmPoolNotFound'' then Inl SandboxWarmPoolNotFoundError
       else bindE (if ready_status ty st ''False'' then is_terminal_reason reason else Inr False)
         (\<lambda>terminal.
            if terminal then Inl SandboxClaimFailedError
            else if ready_status ty st ''True''
                 \<and> (\<not> cw_require_current_generation cw
                    \<or> generation \<noteq> JNull \<and> num_eq observed generation)
            then Inr True
            else Inr ready))))))"

text \<open>The body for an \<^verbatim>\<open>ADDED\<close> or \<^verbatim>\<open>MODIFIED\<close> event: the resourceVersion to go on from, and the sandbox
  name if the wait is over.\<close>

definition claim_snapshot :: "claim_wait \<Rightarrow> json \<Rightarrow> json \<Rightarrow> (json \<times> json option) res" where
  "claim_snapshot cw rv claim_object =
     bindE (jget claim_object ''metadata'') (\<lambda>md.
     let metadata = jor md (JObj []) in
     bindE (case cw_expected_uid cw of
              None \<Rightarrow> Inr ()
            | Some uid \<Rightarrow>
                bindE (jget metadata ''uid'') (\<lambda>u.
                if u \<noteq> JStr uid then Inl SandboxNotFoundError
                else bindE (jget metadata ''deletionTimestamp'') (\<lambda>ts.
                  if truthy ts then Inl SandboxNotFoundError else Inr ()))) (\<lambda>_.
     bindE (jget metadata ''resourceVersion'') (\<lambda>seen_rv.
     let rv' = jor seen_rv rv in
     bindE (jget claim_object ''status'') (\<lambda>st.
     let status = jor st (JObj []) in
     bindE (jget_dflt status ''conditions'' (JList [])) (\<lambda>cs.
     bindE (jiter cs) (\<lambda>conds.
     bindE (foldE (claim_condition cw metadata) False conds) (\<lambda>ready.
     bindE (jget_dflt status ''sandbox'' (JObj [])) (\<lambda>sandbox_status.
     bindE (jget_dflt sandbox_status ''name'' (JStr [])) (\<lambda>n1.
     bindE (jget_dflt sandbox_status ''Name'' (JStr [])) (\<lambda>n2.
     let name = jor n1 n2 in
     Inr (rv', if truthy name \<and> (ready \<or> \<not> cw_require_ready cw) then Some name else None)))))))))))"

definition claim_event :: "claim_wait \<Rightarrow> json \<Rightarrow> watch_event \<Rightarrow> (json, json) turn" where
  "claim_event cw rv ev =
     (case ev of
        NoEvent \<Rightarrow> Go rv
      | Event ty obj \<Rightarrow>
          (if ty = ''DELETED'' then Stop (Inl SandboxMetadataError)
           else if ty = ''ADDED'' \<or> ty = ''MODIFIED'' then
             (case claim_snapshot cw rv obj of
                Inl e \<Rightarrow> Stop (Inl e)
              | Inr (rv', Some name) \<Rightarrow> Stop (Inr name)
              | Inr (rv', None) \<Rightarrow> Go rv')
           else Go rv))"

definition claim_error :: "json \<Rightarrow> exn \<Rightarrow> json on_error" where
  "claim_error rv e =
     (case e of
        ApiException s \<Rightarrow> (if s = 410 then Restart (JStr ''0'') else Raise)
      | WatchDisconnected \<Rightarrow> Backoff rv
      | _ \<Rightarrow> Raise)"

definition watch_claim ::
  "nat \<Rightarrow> 'w kube \<Rightarrow> claim_wait \<Rightarrow> string \<Rightarrow> string \<Rightarrow> rat \<Rightarrow> json \<Rightarrow> json option \<Rightarrow> 'w
   \<Rightarrow> (json res \<times> 'w) option"
where
  "watch_claim fuel api cw claim_name namespace timeout resource_version initial_claim w =
     (case k_now api w of (now, w1) \<Rightarrow>
        watch_loop fuel api
          (\<lambda>remaining rv. k_watch api (api_resource Claims) namespace (''metadata.name='' @ claim_name)
                            (Some rv) remaining)
          (claim_event cw) claim_error (now + timeout)
          (case initial_claim of None \<Rightarrow> [] | Some c \<Rightarrow> [Event ''ADDED'' c])
          (jor resource_version (JStr ''0'')) w1)"

definition resolve_sandbox_name ::
  "nat \<Rightarrow> 'w kube \<Rightarrow> string \<Rightarrow> string \<Rightarrow> rat \<Rightarrow> json \<Rightarrow> 'w \<Rightarrow> (json res \<times> 'w) option"
where
  "resolve_sandbox_name fuel api claim_name namespace timeout resource_version =
     watch_claim fuel api
       \<lparr>cw_require_ready = False, cw_expected_uid = None, cw_require_current_generation = False\<rparr>
       claim_name namespace timeout resource_version None"

definition wait_for_claim_ready ::
  "nat \<Rightarrow> 'w kube \<Rightarrow> string \<Rightarrow> string \<Rightarrow> rat \<Rightarrow> json \<Rightarrow> string option \<Rightarrow> json option \<Rightarrow> bool \<Rightarrow> 'w
   \<Rightarrow> (json res \<times> 'w) option"
where
  "wait_for_claim_ready fuel api claim_name namespace timeout resource_version expected_uid
     initial_claim require_current_generation =
     watch_claim fuel api
       \<lparr>cw_require_ready = True, cw_expected_uid = expected_uid,
        cw_require_current_generation = require_current_generation\<rparr>
       claim_name namespace timeout resource_version initial_claim"

section \<open>Waiting for a sandbox and for a gateway\<close>

fun find_ready :: "json \<Rightarrow> json list \<Rightarrow> string option option res" where
  "find_ready status [] = Inr None"
| "find_ready status (cond # conds) =
     bindE (jget cond ''type'') (\<lambda>ty. bindE (jget cond ''status'') (\<lambda>st.
       if ready_status ty st ''True''
       then bindE (jget_dflt status ''podIPs'' (JList [])) (\<lambda>pod_ips.
            bindE (select_pod_ip pod_ips) (\<lambda>ip. Inr (Some ip)))
       else find_ready status conds))"

definition sandbox_snapshot :: "json \<Rightarrow> string option option res" where
  "sandbox_snapshot sandbox_object =
     bindE (jget sandbox_object ''status'') (\<lambda>st.
     let status = jor st (JObj []) in
     bindE (jget_dflt status ''conditions'' (JList [])) (\<lambda>cs.
     bindE (jiter cs) (find_ready status)))"

definition stop_at :: "'r option res \<Rightarrow> (unit, 'r) turn" where
  "stop_at r = (case r of Inl e \<Rightarrow> Stop (Inl e) | Inr (Some x) \<Rightarrow> Stop (Inr x) | Inr None \<Rightarrow> Go ())"

definition sandbox_event :: "unit \<Rightarrow> watch_event \<Rightarrow> (unit, string option) turn" where
  "sandbox_event st ev =
     (case ev of
        NoEvent \<Rightarrow> Go ()
      | Event ty obj \<Rightarrow>
          (if ty = ''ADDED'' \<or> ty = ''MODIFIED'' then stop_at (sandbox_snapshot obj)
           else if ty = ''DELETED'' then Stop (Inl SandboxNotFoundError)
           else Go ()))"

definition sandbox_error :: "unit \<Rightarrow> exn \<Rightarrow> unit on_error" where
  "sandbox_error st e = (case e of WatchDisconnected \<Rightarrow> Backoff () | _ \<Rightarrow> Raise)"

definition wait_for_sandbox_ready ::
  "nat \<Rightarrow> 'w kube \<Rightarrow> string \<Rightarrow> string \<Rightarrow> rat \<Rightarrow> 'w \<Rightarrow> (string option res \<times> 'w) option"
where
  "wait_for_sandbox_ready fuel api name namespace timeout w =
     (case k_now api w of (now, w1) \<Rightarrow>
        watch_loop fuel api
          (\<lambda>remaining st. k_watch api (api_resource Sandboxes) namespace (''metadata.name='' @ name)
                            None remaining)
          sandbox_event sandbox_error (now + timeout) [] () w1)"

fun find_address :: "json list \<Rightarrow> json option" where
  "find_address [] = None"
| "find_address (address # addresses) =
     (case address of
        JObj kvs \<Rightarrow>
          (let ip_address = (case map_of kvs ''value'' of None \<Rightarrow> JNull | Some v \<Rightarrow> v) in
           if \<not> truthy ip_address then find_address addresses
           else if \<not> is_valid_ip ip_address \<and> \<not> is_valid_gateway_hostname ip_address
           then find_address addresses
           else Some ip_address)
      | _ \<Rightarrow> find_address addresses)"

definition gateway_snapshot :: "json \<Rightarrow> json option res" where
  "gateway_snapshot gateway_object =
     bindE (jget gateway_object ''status'') (\<lambda>st.
     bindE (jget_dflt (jor st (JObj [])) ''addresses'' (JList [])) (\<lambda>as.
     bindE (jiter as) (\<lambda>addresses. Inr (find_address addresses))))"

definition gateway_event :: "unit \<Rightarrow> watch_event \<Rightarrow> (unit, json) turn" where
  "gateway_event st ev =
     (case ev of
        NoEvent \<Rightarrow> Go ()
      | Event ty obj \<Rightarrow>
          (if ty = ''ADDED'' \<or> ty = ''MODIFIED'' then stop_at (gateway_snapshot obj) else Go ()))"

definition wait_for_gateway_ip ::
  "nat \<Rightarrow> 'w kube \<Rightarrow> string \<Rightarrow> string \<Rightarrow> rat \<Rightarrow> 'w \<Rightarrow> (json res \<times> 'w) option"
where
  "wait_for_gateway_ip fuel api gateway_name namespace timeout w =
     (case k_now api w of (now, w1) \<Rightarrow>
        watch_loop fuel api
          (\<lambda>remaining st. k_watch api (api_resource Gateways) namespace
                            (''metadata.name='' @ gateway_name) None remaining)
          gateway_event (\<lambda>st e. Raise) (now + timeout) [] () w1)"

section \<open>Reading, changing and deleting objects\<close>

definition delete_sandbox_claim ::
  "'w kube \<Rightarrow> string \<Rightarrow> string \<Rightarrow> string option \<Rightarrow> ('w, exn, unit) exec"
where
  "delete_sandbox_claim api name namespace expected_uid =
     tryX (k_delete api (api_resource Claims) namespace name expected_uid)
       (\<lambda>e. if e = ApiException 404 then retX () else raiseX e)"

definition get_or_none :: "'w kube \<Rightarrow> resource_kind \<Rightarrow> string \<Rightarrow> string \<Rightarrow> ('w, exn, json option) exec" where
  "get_or_none api r name namespace =
     tryX (bindX (k_get api (api_resource r) namespace name) (\<lambda>j. retX (Some j)))
       (\<lambda>e. if e = ApiException 404 then retX None else raiseX e)"

definition get_sandbox_object :: "'w kube \<Rightarrow> string \<Rightarrow> string \<Rightarrow> ('w, exn, json option) exec" where
  "get_sandbox_object api = get_or_none api Sandboxes"

definition get_sandbox_claim :: "'w kube \<Rightarrow> string \<Rightarrow> string \<Rightarrow> ('w, exn, json option) exec" where
  "get_sandbox_claim api = get_or_none api Claims"

definition patch_sandbox_claim :: "'w kube \<Rightarrow> string \<Rightarrow> string \<Rightarrow> json \<Rightarrow> ('w, exn, json) exec" where
  "patch_sandbox_claim api name namespace body =
     k_patch api (api_resource Claims) namespace name body"

definition item_name :: "json \<Rightarrow> json res" where
  "item_name item =
     bindE (jget_dflt item ''metadata'' (JObj [])) (\<lambda>md. jget md ''name'')"

definition list_sandbox_claims ::
  "'w kube \<Rightarrow> string \<Rightarrow> string option \<Rightarrow> ('w, exn, json list) exec"
where
  "list_sandbox_claims api namespace label_selector =
     bindX (k_list api (api_resource Claims) namespace label_selector) (\<lambda>response.
     liftX (bindE (jget_dflt response ''items'' (JList [])) (\<lambda>is.
            bindE (jiter is) (\<lambda>items.
            bindE (mapE item_name items) (\<lambda>names. Inr (filter truthy names))))))"

section \<open>What a watch loop returns\<close>

text \<open>The events the loop can be given: the initial ones and those of the streams it opens.\<close>

definition offered ::
  "(int \<Rightarrow> 'st \<Rightarrow> 'w \<Rightarrow> 'w session) \<Rightarrow> watch_event list \<Rightarrow> watch_event \<Rightarrow> bool"
where
  "offered opn initial ev =
     (ev \<in> set initial \<or> (\<exists>remaining st w. ev \<in> fst ` set (ses_events (opn remaining st w))))"

lemma feed_Inl:
  "feed h st es = Inl (r, w) \<Longrightarrow> \<exists>st' ev. (ev, w) \<in> set es \<and> h st' ev = Stop r"
  by (induction h st es rule: feed.induct) (auto split: turn.splits)

lemma offered_Nil: "offered opn [] ev \<Longrightarrow> offered opn initial ev"
  by (auto simp: offered_def)

lemma watch_loop_stop:
  "watch_loop n api opn h err deadline initial st w = Some (Inr r, w') \<Longrightarrow>
   \<exists>st' ev. offered opn initial ev \<and> h st' ev = Stop (Inr r)"
proof (induction n api opn h err deadline initial st w rule: watch_loop.induct)
  case (2 n api opn h err deadline initial st w)
  obtain now w1 where now: "k_now api w = (now, w1)" by (cases "k_now api w")
  let ?rem = "\<lceil>deadline - now\<rceil>" and ?s = "opn \<lceil>deadline - now\<rceil> st w1"
  have rem: "\<not> ?rem \<le> 0" using 2(4) now by (auto split: if_splits)
  show ?case
  proof (cases "feed h st (map (\<lambda>ev. (ev, w1)) initial)")
    case (Inl d)
    with 2(4) now rem have "feed h st (map (\<lambda>ev. (ev, w1)) initial) = Inl (Inr r, w')"
      by (simp add: Let_def)
    from feed_Inl [OF this] show ?thesis by (auto simp: offered_def)
  next
    case init: (Inr st1)
    show ?thesis
    proof (cases "feed h st1 (ses_events ?s)")
      case (Inl d)
      with 2(4) now rem init have "feed h st1 (ses_events ?s) = Inl (Inr r, w')"
        by (simp add: Let_def)
      from feed_Inl [OF this] show ?thesis by (force simp: offered_def)
    next
      case (Inr st2)
      have "\<exists>st' ev. offered opn [] ev \<and> h st' ev = Stop (Inr r)"
        using 2 now rem init Inr
        by (auto simp: Let_def split: option.splits on_error.splits prod.splits)
      then show ?thesis using offered_Nil by blast
    qed
  qed
qed simp

text \<open>
  The contract a wait's event handler has with the loop: it gives a result only for an event that
  \<open>accepts\<close> it. Then whatever the wait returns was accepted at an event it was offered.
\<close>

locale watch_handler =
  fixes h :: "'st \<Rightarrow> watch_event \<Rightarrow> ('st, 'r) turn"
    and accepts :: "watch_event \<Rightarrow> 'r \<Rightarrow> bool"
  assumes handler_sound: "h st ev = Stop (Inr r) \<Longrightarrow> accepts ev r"
begin

lemma returned_accepted:
  assumes "watch_loop n api opn h err deadline initial st w = Some (Inr r, w')"
  obtains ev where "offered opn initial ev" and "accepts ev r"
  using watch_loop_stop [OF assms] handler_sound by blast

end

text \<open>The facts a ready claim has, read off the object.\<close>

definition obj_get :: "json \<Rightarrow> string \<Rightarrow> json" where
  "obj_get j k = (case j of JObj kvs \<Rightarrow> (case map_of kvs k of None \<Rightarrow> JNull | Some v \<Rightarrow> v) | _ \<Rightarrow> JNull)"

lemma jget_obj_get: "jget j k = Inr v \<Longrightarrow> obj_get j k = v"
  by (auto simp: jget_def jget_or_def obj_get_def split: json.splits)

definition metadata_of :: "json \<Rightarrow> json" where
  "metadata_of obj = jor (obj_get obj ''metadata'') (JObj [])"

definition conditions_of :: "json \<Rightarrow> json list" where
  "conditions_of obj = (case obj_get (jor (obj_get obj ''status'') (JObj [])) ''conditions'' of
     JList cs \<Rightarrow> cs | _ \<Rightarrow> [])"

definition sandbox_name_of :: "json \<Rightarrow> json" where
  "sandbox_name_of obj =
     (let s = obj_get (jor (obj_get obj ''status'') (JObj [])) ''sandbox'' in
      jor (obj_get s ''name'') (obj_get s ''Name''))"

definition cond_ready :: "claim_wait \<Rightarrow> json \<Rightarrow> json \<Rightarrow> bool" where
  "cond_ready cw md c =
     (ready_status (obj_get c ''type'') (obj_get c ''status'') ''True''
      \<and> (cw_require_current_generation cw \<longrightarrow>
           obj_get md ''generation'' \<noteq> JNull
           \<and> num_eq (obj_get c ''observedGeneration'') (obj_get md ''generation'')))"

definition cond_fatal :: "json \<Rightarrow> bool" where
  "cond_fatal c =
     (obj_get c ''reason'' = JStr ''WarmPoolNotFound''
      \<or> ready_status (obj_get c ''type'') (obj_get c ''status'') ''False''
        \<and> (\<exists>s \<in> set (''TemplateNotFound'' # TERMINAL_CLAIM_READY_REASONS). obj_get c ''reason'' = JStr s))"

text \<open>The claim object that ends a wait: it is the claim that was asked for and not being deleted, it
  names its sandbox, no condition is fatal and, if readiness is required, one is a current
  \<^verbatim>\<open>Ready=True\<close>.\<close>

definition claim_bound :: "claim_wait \<Rightarrow> json \<Rightarrow> json \<Rightarrow> bool" where
  "claim_bound cw obj name =
     (truthy name \<and> name = sandbox_name_of obj
      \<and> (case cw_expected_uid cw of None \<Rightarrow> True
         | Some uid \<Rightarrow> obj_get (metadata_of obj) ''uid'' = JStr uid
                      \<and> \<not> truthy (obj_get (metadata_of obj) ''deletionTimestamp''))
      \<and> \<not> list_ex cond_fatal (conditions_of obj)
      \<and> (cw_require_ready cw \<longrightarrow> list_ex (cond_ready cw (metadata_of obj)) (conditions_of obj)))"

definition claim_accepts :: "claim_wait \<Rightarrow> watch_event \<Rightarrow> json \<Rightarrow> bool" where
  "claim_accepts cw ev name =
     (case ev of NoEvent \<Rightarrow> False
      | Event ty obj \<Rightarrow> (ty = ''ADDED'' \<or> ty = ''MODIFIED'') \<and> claim_bound cw obj name)"

lemma claim_condition_Inr:
  assumes "claim_condition cw md ready c = Inr b"
  shows "\<not> cond_fatal c" and "b = (ready \<or> cond_ready cw md c)"
proof -
  from assms obtain ty st re ob ge where g:
    "jget c ''type'' = Inr ty" "jget c ''status'' = Inr st" "jget c ''reason'' = Inr re"
    "jget c ''observedGeneration'' = Inr ob" "jget md ''generation'' = Inr ge"
    unfolding claim_condition_def bindE_eq_Inr by blast
  note o = g [THEN jget_obj_get]
  have ne: "ready_status ty st ''False'' \<Longrightarrow> \<not> ready_status ty st ''True''"
    by (auto simp: ready_status_def)
  show "\<not> cond_fatal c"
    using assms by (auto simp: claim_condition_def g o cond_fatal_def is_terminal_reason_def
        bindE_eq_Inr split: if_splits json.splits)
  show "b = (ready \<or> cond_ready cw md c)"
    using assms ne unfolding claim_condition_def g cond_ready_def o
    by (auto simp: bindE_eq_Inr split: if_splits)
qed

lemma claim_conditions_Inr:
  "foldE (claim_condition cw md) ready cs = Inr b \<Longrightarrow>
   \<not> list_ex cond_fatal cs \<and> b = (ready \<or> list_ex (cond_ready cw md) cs)"
proof (induction cs arbitrary: ready)
  case (Cons c cs)
  then obtain b' where "claim_condition cw md ready c = Inr b'"
    and "foldE (claim_condition cw md) b' cs = Inr b"
    by (auto simp: bindE_eq_Inr)
  with Cons.IH [of b'] claim_condition_Inr [of cw md ready c b'] show ?case by simp
qed simp

lemma conds_not_list:
  "jiter cs = Inr conds \<Longrightarrow> foldE (claim_condition cw md) r conds = Inr b \<Longrightarrow>
   conds = (case cs of JList xs \<Rightarrow> xs | _ \<Rightarrow> [])"
  by (cases cs; cases conds)
     (auto simp: claim_condition_def jget_def jget_or_def)

lemma jget_dflt_obj_get:
  "jget_dflt j k d = Inr v \<Longrightarrow> obj_get j k = v \<or> obj_get j k = JNull \<and> v = d"
  by (auto simp: jget_dflt_def jget_or_def obj_get_def split: json.splits option.splits)

lemma claim_snapshot_Inr:
  assumes "claim_snapshot cw rv obj = Inr (rv', res)"
  shows "case cw_expected_uid cw of None \<Rightarrow> True
         | Some uid \<Rightarrow> obj_get (metadata_of obj) ''uid'' = JStr uid
                      \<and> \<not> truthy (obj_get (metadata_of obj) ''deletionTimestamp'')"
    and "\<not> list_ex cond_fatal (conditions_of obj)"
    and "res = Some name \<Longrightarrow> claim_bound cw obj name"
proof -
  from assms obtain md u rvj st cs conds ready sb n1 n2 where g:
    "jget obj ''metadata'' = Inr md"
    "(case cw_expected_uid cw of
              None \<Rightarrow> Inr ()
            | Some uid \<Rightarrow>
                bindE (jget (jor md (JObj [])) ''uid'') (\<lambda>u.
                if u \<noteq> JStr uid then Inl SandboxNotFoundError
                else bindE (jget (jor md (JObj [])) ''deletionTimestamp'') (\<lambda>ts.
                  if truthy ts then Inl SandboxNotFoundError else Inr ()))) = Inr u"
    "jget (jor md (JObj [])) ''resourceVersion'' = Inr rvj"
    "jget obj ''status'' = Inr st"
    "jget_dflt (jor st (JObj [])) ''conditions'' (JList []) = Inr cs"
    "jiter cs = Inr conds"
    "foldE (claim_condition cw (jor md (JObj []))) False conds = Inr ready"
    "jget_dflt (jor st (JObj [])) ''sandbox'' (JObj []) = Inr sb"
    "jget_dflt sb ''name'' (JStr []) = Inr n1" "jget_dflt sb ''Name'' (JStr []) = Inr n2"
    and r: "res = (if truthy (jor n1 n2) \<and> (ready \<or> \<not> cw_require_ready cw) then Some (jor n1 n2) else None)"
    unfolding claim_snapshot_def Let_def bindE_eq_Inr by auto
  have md: "metadata_of obj = jor md (JObj [])" using jget_obj_get [OF g(1)] by (simp add: metadata_of_def)
  have st: "obj_get obj ''status'' = st" using jget_obj_get [OF g(4)] .
  have conds: "conditions_of obj = conds"
    using conds_not_list [OF g(6,7)] jget_dflt_obj_get [OF g(5)]
    by (auto simp: conditions_of_def st)
  show uid: "case cw_expected_uid cw of None \<Rightarrow> True
         | Some uid \<Rightarrow> obj_get (metadata_of obj) ''uid'' = JStr uid
                      \<and> \<not> truthy (obj_get (metadata_of obj) ''deletionTimestamp'')"
    using g(2) by (auto simp: md bindE_eq_Inr dest!: jget_obj_get split: option.splits if_splits)
  show fatal: "\<not> list_ex cond_fatal (conditions_of obj)"
    using claim_conditions_Inr [OF g(7)] by (simp add: conds)
  assume "res = Some name"
  with r have t: "truthy (jor n1 n2)" "ready \<or> \<not> cw_require_ready cw" "name = jor n1 n2"
    by (auto split: if_splits)
  have "sb \<noteq> JObj []" using g(9,10) t(1) by (auto simp: jor_def)
  then have sb: "obj_get (jor st (JObj [])) ''sandbox'' = sb" using jget_dflt_obj_get [OF g(8)] by simp
  have "sandbox_name_of obj = jor (obj_get sb ''name'') (obj_get sb ''Name'')"
    unfolding sandbox_name_of_def Let_def st sb ..
  also have "\<dots> = jor n1 n2"
    using t(1) jget_dflt_obj_get [OF g(9)] jget_dflt_obj_get [OF g(10)]
    by (auto simp: jor_def split: if_splits)
  finally have "sandbox_name_of obj = jor n1 n2" .
  then show "claim_bound cw obj name"
    using t uid fatal claim_conditions_Inr [OF g(7)] by (auto simp: claim_bound_def conds md)
qed

interpretation claim_watch: watch_handler "claim_event cw" "claim_accepts cw" for cw
proof
  fix st ev r
  assume "claim_event cw st ev = Stop (Inr r)"
  then show "claim_accepts cw ev r"
    using claim_snapshot_Inr(3)
    by (fastforce simp: claim_event_def claim_accepts_def
        split: watch_event.splits if_splits sum.splits prod.splits option.splits)
qed

definition sandbox_accepts :: "watch_event \<Rightarrow> string option \<Rightarrow> bool" where
  "sandbox_accepts ev ip =
     (case ev of NoEvent \<Rightarrow> False
      | Event ty obj \<Rightarrow> (ty = ''ADDED'' \<or> ty = ''MODIFIED'')
          \<and> list_ex (\<lambda>c. ready_status (obj_get c ''type'') (obj_get c ''status'') ''True'') (conditions_of obj)
          \<and> select_pod_ip (obj_get (obj_get obj ''status'') ''podIPs'') = Inr ip)"

lemma find_ready_Some:
  "find_ready status cs = Inr (Some ip) \<Longrightarrow>
   list_ex (\<lambda>c. ready_status (obj_get c ''type'') (obj_get c ''status'') ''True'') cs
   \<and> select_pod_ip (obj_get status ''podIPs'') = Inr ip"
proof (induction status cs rule: find_ready.induct)
  case (2 status c cs)
  from 2(2) obtain ty st where g: "jget c ''type'' = Inr ty" "jget c ''status'' = Inr st"
    by (auto simp: bindE_eq_Inr)
  show ?case
  proof (cases "ready_status ty st ''True''")
    case True
    with 2(2) g obtain ips where "jget_dflt status ''podIPs'' (JList []) = Inr ips" "select_pod_ip ips = Inr ip"
      by (auto simp: bindE_eq_Inr)
    with True g [THEN jget_obj_get] show ?thesis
      using jget_dflt_obj_get [of status "''podIPs''" "JList []" ips] by (auto simp: select_pod_ip_def)
  next
    case False
    with 2 g show ?thesis by simp
  qed
qed simp

lemma find_ready_list:
  "jiter cs = Inr conds \<Longrightarrow> find_ready status conds = Inr (Some ip) \<Longrightarrow> cs = JList conds"
  by (cases cs; cases conds) (auto simp: jget_def jget_or_def)

interpretation sandbox_watch: watch_handler sandbox_event sandbox_accepts
proof
  fix st :: unit and ev r
  assume a: "sandbox_event st ev = Stop (Inr r)"
  then obtain ty obj where ev: "ev = Event ty obj" "ty = ''ADDED'' \<or> ty = ''MODIFIED''"
      and s: "sandbox_snapshot obj = Inr (Some r)"
    by (auto simp: sandbox_event_def stop_at_def split: watch_event.splits if_splits sum.splits option.splits)
  from s obtain sj cs conds where g: "jget obj ''status'' = Inr sj"
      "jget_dflt (jor sj (JObj [])) ''conditions'' (JList []) = Inr cs" "jiter cs = Inr conds"
      "find_ready (jor sj (JObj [])) conds = Inr (Some r)"
    unfolding sandbox_snapshot_def Let_def bindE_eq_Inr by auto
  have c: "cs = JList conds" using find_ready_list [OF g(3,4)] .
  have ne: "conds \<noteq> []" using g(4) by auto
  then have sj: "jor sj (JObj []) = sj" using g(2) c by (auto simp: jor_def split: if_splits)
  have "conditions_of obj = conds"
    using jget_dflt_obj_get [OF g(2)] c ne jget_obj_get [OF g(1)] by (auto simp: conditions_of_def)
  with find_ready_Some [OF g(4)] ev show "sandbox_accepts ev r"
    by (auto simp: sandbox_accepts_def jget_obj_get [OF g(1)] sj)
qed

definition gateway_accepts :: "watch_event \<Rightarrow> json \<Rightarrow> bool" where
  "gateway_accepts ev v =
     (case ev of NoEvent \<Rightarrow> False
      | Event ty obj \<Rightarrow> (ty = ''ADDED'' \<or> ty = ''MODIFIED'')
          \<and> (is_valid_ip v \<or> is_valid_gateway_hostname v)
          \<and> (\<exists>as. obj_get (obj_get obj ''status'') ''addresses'' = JList as \<and> v \<in> (\<lambda>a. obj_get a ''value'') ` set as))"

lemma find_address_Some:
  "find_address as = Some v \<Longrightarrow>
   (is_valid_ip v \<or> is_valid_gateway_hostname v) \<and> v \<in> (\<lambda>a. obj_get a ''value'') ` set as"
  by (induction as rule: find_address.induct)
     (auto simp: obj_get_def Let_def split: json.splits if_splits)

lemma find_address_strings: "find_address (map (\<lambda>x. JStr (f x)) xs) = None"
  by (induction xs) auto

lemma find_address_list:
  "jiter as = Inr es \<Longrightarrow> find_address es = Some v \<Longrightarrow> as = JList es"
  by (cases as) (auto simp: comp_def find_address_strings)

interpretation gateway_watch: watch_handler gateway_event gateway_accepts
proof
  fix st :: unit and ev r
  assume a: "gateway_event st ev = Stop (Inr r)"
  then obtain ty obj where ev: "ev = Event ty obj" "ty = ''ADDED'' \<or> ty = ''MODIFIED''"
      and s: "gateway_snapshot obj = Inr (Some r)"
    by (auto simp: gateway_event_def stop_at_def split: watch_event.splits if_splits sum.splits option.splits)
  from s obtain sj as es where g: "jget obj ''status'' = Inr sj"
      "jget_dflt (jor sj (JObj [])) ''addresses'' (JList []) = Inr as" "jiter as = Inr es"
      "find_address es = Some r"
    unfolding gateway_snapshot_def bindE_eq_Inr by auto
  have l: "as = JList es" using find_address_list [OF g(3,4)] .
  have ne: "es \<noteq> []" using g(4) by auto
  then have sj: "jor sj (JObj []) = sj" using g(2) l by (auto simp: jor_def split: if_splits)
  have "obj_get (obj_get obj ''status'') ''addresses'' = JList es"
    using jget_dflt_obj_get [OF g(2)] l ne jget_obj_get [OF g(1)] sj by auto
  with find_address_Some [OF g(4)] ev show "gateway_accepts ev r"
    by (auto simp: gateway_accepts_def)
qed

text \<open>(C23) A wait on a claim returns a name only for a claim that has it: whatever the streams, restarts and
  disconnects, the name \<^verbatim>\<open>wait_for_claim_ready\<close> returns is \<^verbatim>\<open>status.sandbox.name\<close> of an object it was given
  (the initial claim or an \<^verbatim>\<open>ADDED\<close>/\<^verbatim>\<open>MODIFIED\<close> event of a watch on that claim) which has the expected
  UID and is not terminating, has no fatal condition, and has a \<^verbatim>\<open>Ready=True\<close> condition, for the current
  generation if that is required.\<close>

theorem wait_for_claim_ready_sound:
  assumes "wait_for_claim_ready fuel api claim_name namespace timeout rv uid initial_claim gen w
             = Some (Inr name, w')"
  shows "\<exists>obj. (initial_claim = Some obj
           \<or> (\<exists>ty remaining v w0. Event ty obj \<in> fst ` set (ses_events
                (k_watch api (api_resource Claims) namespace (''metadata.name='' @ claim_name)
                   (Some v) remaining w0))))
         \<and> claim_bound \<lparr>cw_require_ready = True, cw_expected_uid = uid, cw_require_current_generation = gen\<rparr>
             obj name"
proof -
  let ?cw = "\<lparr>cw_require_ready = True, cw_expected_uid = uid, cw_require_current_generation = gen\<rparr>"
  let ?init = "case initial_claim of None \<Rightarrow> [] | Some c \<Rightarrow> [Event ''ADDED'' c]"
  obtain now w1 where "k_now api w = (now, w1)" by (cases "k_now api w")
  with assms have "watch_loop fuel api
          (\<lambda>remaining rv. k_watch api (api_resource Claims) namespace (''metadata.name='' @ claim_name)
                            (Some rv) remaining)
          (claim_event ?cw) claim_error (now + timeout) ?init (jor rv (JStr ''0'')) w1 = Some (Inr name, w')"
    by (simp add: wait_for_claim_ready_def watch_claim_def)
  then obtain ev where "offered (\<lambda>remaining rv. k_watch api (api_resource Claims) namespace
        (''metadata.name='' @ claim_name) (Some rv) remaining) ?init ev" and "claim_accepts ?cw ev name"
    by (rule claim_watch.returned_accepted)
  then show ?thesis
    by (cases ev) (fastforce simp: offered_def claim_accepts_def split: option.splits)+
qed

text \<open>A simulated API for examples: the world is the time in seconds, every watch delivers one object and
  ends a second later.\<close>

definition sim_kube :: "json \<Rightarrow> nat kube" where
  "sim_kube obj =
     \<lparr>k_now = \<lambda>w. (of_nat w, w), k_utcnow = \<lambda>w. (int w, w), k_isonow = \<lambda>w. (''2026-01-01'', w),
      k_sleep = \<lambda>d w. w + 1, k_create = \<lambda>r ns b w. (Inr b, w + 1), k_get = \<lambda>r ns n w. (Inr obj, w + 1),
      k_delete = \<lambda>r ns n u w. (Inr (), w + 1), k_patch = \<lambda>r ns n b w. (Inr b, w + 1),
      k_list = \<lambda>r ns s w. (Inr (JObj [(''items'', JList [obj])]), w + 1),
      k_watch = \<lambda>r ns f rv t w. \<lparr>ses_events = [(Event ''ADDED'' obj, w)], ses_end = None, ses_world = w + 1\<rparr>\<rparr>"

definition sim_claim :: json where
  "sim_claim = JObj [(''metadata'', JObj [(''name'', JStr ''c''), (''uid'', JStr ''u'')]),
     (''status'', JObj [(''conditions'', JList [JObj [(''type'', JStr ''Ready''), (''status'', JStr ''True'')]]),
        (''sandbox'', JObj [(''name'', JStr ''sb'')])])]"

theorem wait_for_claim_ready_sound_witness:
  "wait_for_claim_ready (Suc 0) (sim_kube sim_claim) ''c'' ''ns'' 5 JNull (Some ''u'') None False 0
     = Some (Inr (JStr ''sb''), 0)
   \<and> (\<exists>obj. claim_bound \<lparr>cw_require_ready = True, cw_expected_uid = Some ''u'',
                        cw_require_current_generation = False\<rparr> obj (JStr ''sb''))"
proof
  show 1: "wait_for_claim_ready (Suc 0) (sim_kube sim_claim) ''c'' ''ns'' 5 JNull (Some ''u'') None False 0
     = Some (Inr (JStr ''sb''), 0)"
    by (simp add: wait_for_claim_ready_def watch_claim_def sim_kube_def sim_claim_def claim_event_def
        claim_snapshot_def claim_condition_def jor_def ready_status_def is_terminal_reason_def)
  show "\<exists>obj. claim_bound \<lparr>cw_require_ready = True, cw_expected_uid = Some ''u'',
                        cw_require_current_generation = False\<rparr> obj (JStr ''sb'')"
    using wait_for_claim_ready_sound [OF 1] by blast
qed

section \<open>Failing fast\<close>

lemma claim_conditions_fatal:
  "list_ex cond_fatal cs \<Longrightarrow> \<exists>e. foldE (claim_condition cw md) ready cs = Inl e"
  using claim_conditions_Inr [of cw md ready cs]
  by (cases "foldE (claim_condition cw md) ready cs") auto

text \<open>A wait does not sit out its timeout on a claim that cannot become ready: an event whose object
  carries a fatal condition (template or warm pool not found, or a terminal \<^verbatim>\<open>Ready=False\<close> reason), that
  reports the deletion, or that shows another UID than the expected one, ends the wait with an
  exception.\<close>

lemma claim_event_fails_fast:
  assumes "ty = ''DELETED''
    \<or> (ty = ''ADDED'' \<or> ty = ''MODIFIED'')
      \<and> (list_ex cond_fatal (conditions_of obj)
         \<or> (\<exists>uid. cw_expected_uid cw = Some uid \<and> obj_get (metadata_of obj) ''uid'' \<noteq> JStr uid))"
  shows "\<exists>e. claim_event cw rv (Event ty obj) = Stop (Inl e)"
proof (cases "ty = ''DELETED''")
  case False
  have "\<exists>e. claim_snapshot cw rv obj = Inl e"
  proof (rule ccontr)
    assume "\<nexists>e. claim_snapshot cw rv obj = Inl e"
    then obtain rv' res where "claim_snapshot cw rv obj = Inr (rv', res)"
      by (cases "claim_snapshot cw rv obj") auto
    from claim_snapshot_Inr(1,2) [OF this] assms False show False by auto
  qed
  with False assms show ?thesis by (auto simp: claim_event_def)
qed (simp add: claim_event_def)

section \<open>The waits end\<close>

definition clock :: "'w kube \<Rightarrow> 'w \<Rightarrow> rat" where
  "clock api w = fst (k_now api w)"

text \<open>A monotonic clock on which opening a watch and reading it to its end takes at least \<open>d\<close>.\<close>

definition clock_ticks :: "'w kube \<Rightarrow> rat \<Rightarrow> bool" where
  "clock_ticks api d =
     (d > 0 \<and> (\<forall>w. clock api w \<le> clock api (snd (k_now api w)))
      \<and> (\<forall>t w. clock api w \<le> clock api (k_sleep api t w))
      \<and> (\<forall>r ns f rv t w. clock api w + d \<le> clock api (ses_world (k_watch api r ns f rv t w))))"

lemma watch_loop_ends:
  assumes mono: "\<And>w. clock api w \<le> clock api (snd (k_now api w))"
    and sleep: "\<And>t w. clock api w \<le> clock api (k_sleep api t w)"
    and opn: "\<And>r st w. clock api w + d \<le> clock api (ses_world (opn r st w))"
  shows "deadline \<le> clock api w + d * of_nat n \<Longrightarrow>
         watch_loop (Suc n) api opn h err deadline initial st w \<noteq> None"
proof (induction n arbitrary: initial st w)
  case 0
  then show ?case by (auto simp: clock_def split: prod.split)
next
  case (Suc n)
  obtain now w1 where now: "k_now api w = (now, w1)" by (cases "k_now api w")
  have next_ok: "clock api (ses_world (opn r st w1)) \<le> clock api w' \<Longrightarrow>
      watch_loop (Suc n) api opn h err deadline [] st' w' \<noteq> None" for r w' st'
  proof (rule Suc.IH)
    assume "clock api (ses_world (opn r st w1)) \<le> clock api w'"
    with opn [of w1 r st] mono [of w] now have "clock api w + d \<le> clock api w'" by simp
    with Suc.prems show "deadline \<le> clock api w' + d * of_nat n" by (simp add: algebra_simps)
  qed
  have slept: "clock api (ses_world s) \<le> clock api (k_sleep api t w2)"
    if "k_now api (ses_world s) = (now2, w2)" for s :: "'a session" and t now2 w2
    using mono [of "ses_world s"] sleep [of w2 t] that by simp
  let ?s = "opn \<lceil>deadline - now\<rceil> st w1"
  have n1: "\<exists>a b. watch_loop (Suc n) api opn h err deadline [] st' (ses_world ?s) = Some (a, b)" for st'
    using next_ok [of "\<lceil>deadline - now\<rceil>" "ses_world ?s" st'] by simp
  have n2: "\<exists>a b. watch_loop (Suc n) api opn h err deadline [] st' (k_sleep api t w2) = Some (a, b)"
    if "k_now api (ses_world ?s) = (now2, w2)" for st' t now2 w2
    using next_ok [OF slept [OF that]] by simp
  show ?case
    by (auto simp: watch_loop.simps(2) [of "Suc n"] Let_def now n1 n2
        simp del: watch_loop.simps(2) split: sum.split option.split on_error.split prod.split)
qed

text \<open>(C24) Every wait ends: if the clock is monotonic and each stream takes at least \<open>d\<close>, a wait of at most
  \<open>d * n\<close> seconds is over (with a result, an error or the timeout) after at most \<open>n + 1\<close> streams,
  whatever the streams contain and however often they are dropped or expire.\<close>

theorem waits_end:
  assumes "clock_ticks api d" and "timeout \<le> d * of_nat n"
  shows "watch_claim (Suc n) api cw name namespace timeout rv initial_claim w \<noteq> None
    \<and> wait_for_sandbox_ready (Suc n) api name namespace timeout w \<noteq> None
    \<and> wait_for_gateway_ip (Suc n) api name namespace timeout w \<noteq> None"
proof (intro conjI)
  obtain now w1 where now: "k_now api w = (now, w1)" by (cases "k_now api w")
  have "now \<le> clock api w1" using assms(1) now by (auto simp: clock_ticks_def clock_def) (metis fst_conv snd_conv)
  with assms(2) have dl: "now + timeout \<le> clock api w1 + d * of_nat n" by simp
  have loop: "watch_loop (Suc n) api opn h err (now + timeout) initial st w1 \<noteq> None"
    if "\<And>r st w. clock api w + d \<le> clock api (ses_world (opn r st w))"
    for opn h err initial st
    by (rule watch_loop_ends [OF _ _ that dl]) (use assms(1) in \<open>simp_all add: clock_ticks_def\<close>)
  show "watch_claim (Suc n) api cw name namespace timeout rv initial_claim w \<noteq> None"
    unfolding watch_claim_def now prod.case
    by (rule loop) (use assms(1) in \<open>simp add: clock_ticks_def\<close>)
  show "wait_for_sandbox_ready (Suc n) api name namespace timeout w \<noteq> None"
    unfolding wait_for_sandbox_ready_def now prod.case
    by (rule loop) (use assms(1) in \<open>simp add: clock_ticks_def\<close>)
  show "wait_for_gateway_ip (Suc n) api name namespace timeout w \<noteq> None"
    unfolding wait_for_gateway_ip_def now prod.case
    by (rule loop) (use assms(1) in \<open>simp add: clock_ticks_def\<close>)
qed

lemma sim_kube_ticks: "clock_ticks (sim_kube obj) 1"
  by (simp add: clock_ticks_def clock_def sim_kube_def)

theorem waits_end_witness:
  "watch_claim 4 (sim_kube JNull) \<lparr>cw_require_ready = True, cw_expected_uid = None,
      cw_require_current_generation = False\<rparr> ''c'' ''ns'' 3 JNull None 0 \<noteq> None"
  using waits_end [OF sim_kube_ticks, of 3 3] by (simp add: eval_nat_numeral del: not_None_eq)

section \<open>Sandbox and gateway addresses\<close>

text \<open>\<^verbatim>\<open>wait_for_sandbox_ready\<close> returns only for a sandbox some watch event shows with a
  \<^verbatim>\<open>Ready=True\<close> condition, and what it returns is the address \<^verbatim>\<open>select_pod_ip\<close> picks from that object's
  \<^verbatim>\<open>status.podIPs\<close>.\<close>

lemma wait_for_sandbox_ready_sound:
  assumes "wait_for_sandbox_ready fuel api name namespace timeout w = Some (Inr ip, w')"
  shows "\<exists>ty obj remaining w0. Event ty obj \<in> fst ` set (ses_events
            (k_watch api (api_resource Sandboxes) namespace (''metadata.name='' @ name) None remaining w0))
          \<and> sandbox_accepts (Event ty obj) ip"
proof -
  obtain now w1 where "k_now api w = (now, w1)" by (cases "k_now api w")
  with assms obtain ev where "offered (\<lambda>remaining (st :: unit). k_watch api (api_resource Sandboxes) namespace
      (''metadata.name='' @ name) None remaining) [] ev" and acc: "sandbox_accepts ev ip"
    unfolding wait_for_sandbox_ready_def by (auto elim: sandbox_watch.returned_accepted)
  moreover from acc obtain ty obj where "ev = Event ty obj" by (cases ev) (auto simp: sandbox_accepts_def)
  ultimately show ?thesis unfolding offered_def by simp blast
qed

definition sim_sandbox :: json where
  "sim_sandbox = JObj [(''status'', JObj [
     (''conditions'', JList [JObj [(''type'', JStr ''Ready''), (''status'', JStr ''True'')]])])]"

lemma wait_for_sandbox_ready_sound_witness:
  "\<exists>ty obj. sandbox_accepts (Event ty obj) None"
proof -
  have "wait_for_sandbox_ready (Suc 0) (sim_kube sim_sandbox) ''s'' ''ns'' 5 0 = Some (Inr None, 0)"
    by (simp add: wait_for_sandbox_ready_def sim_kube_def sim_sandbox_def sandbox_event_def stop_at_def
        sandbox_snapshot_def jor_def ready_status_def select_pod_ip_def)
  from wait_for_sandbox_ready_sound [OF this] show ?thesis by blast
qed

definition gateway_host :: "string \<Rightarrow> bool" where
  "gateway_host s = (ip_address s \<noteq> None \<or> length s \<le> 253 \<and> list_all host_label (py_split CHR ''.'' s))"

lemma gateway_ip_host:
  assumes "wait_for_gateway_ip fuel api name namespace timeout w = Some (Inr v, w')"
  shows "\<exists>s. v = JStr s \<and> gateway_host s"
proof -
  obtain now w1 where "k_now api w = (now, w1)" by (cases "k_now api w")
  with assms obtain ev where "gateway_accepts ev v"
    unfolding wait_for_gateway_ip_def by (auto elim: gateway_watch.returned_accepted)
  then have "is_valid_ip v \<or> is_valid_gateway_hostname v"
    by (auto simp: gateway_accepts_def split: watch_event.splits)
  then show ?thesis
  proof
    assume "is_valid_ip v"
    then show ?thesis by (auto simp: is_valid_ip_def gateway_host_def split: json.splits)
  next
    assume "is_valid_gateway_hostname v"
    then show ?thesis unfolding gateway_hostname_labels gateway_host_def by blast
  qed
qed

text \<open>The address \<^verbatim>\<open>wait_for_gateway_ip\<close> returns, which the client then puts into a URL, is an IP address
  or a host name of well-formed labels: no other text from the Gateway's status gets through, and no
  other object of the status is returned.\<close>

lemma wait_for_gateway_ip_sound:
  assumes "wait_for_gateway_ip fuel api name namespace timeout w = Some (Inr v, w')"
  shows "\<exists>s. v = JStr s \<and> (ip_address s \<noteq> None \<or> length s \<le> 253 \<and> list_all host_label (py_split CHR ''.'' s))"
  using gateway_ip_host [OF assms] unfolding gateway_host_def .

definition sim_gateway :: json where
  "sim_gateway = JObj [(''status'', JObj [(''addresses'', JList [JObj [(''value'', JStr ''gw'')]])])]"

section \<open>The manifest of a claim\<close>

lemma obj_get_jstrs: "obj_get (jstrs d) k = (case map_of d k of None \<Rightarrow> JNull | Some v \<Rightarrow> JStr v)"
  by (induction d) (auto simp: jstrs_def obj_get_def)

lemma claim_manifest_get:
  "obj_get (obj_get (claim_manifest n wp a anns env) ''metadata'') ''annotations'' = jstrs anns"
  "obj_get (obj_get (claim_manifest n wp a anns env) ''metadata'') ''name'' = JStr n"
  "obj_get (obj_get (claim_manifest n wp a anns env) ''metadata'') ''labels'' =
     jstrs (dict_set CREATED_BY_LABEL ''python-client'' (or_empty (ca_labels a)))"
  "obj_get (obj_get (obj_get (claim_manifest n wp a anns env) ''spec'') ''warmPoolRef'') ''name'' = JStr wp"
  "obj_get (obj_get (claim_manifest n wp a anns env) ''spec'') ''env'' =
     (if env = [] then JNull else JList (map dump_env_var env))"
  by (auto simp: claim_manifest_def obj_get_def claim_spec_def opt_field_def split: option.split)

text \<open>\<^verbatim>\<open>create_sandbox_claim\<close> posts one object, in the given namespace, with the given name and warm pool;
  its labels are the caller's with the creator label always \<^verbatim>\<open>python-client\<close>; its annotations are the
  caller's with the request time added only if the caller gave none; the environment is the validated
  one. An invalid environment variable raises before anything is posted.\<close>

lemma create_sandbox_claim_spec:
  "case construct_sandbox_claim_env_spec (ca_env a) of
     Inl e \<Rightarrow> create_sandbox_claim api name warmpool ns a w = (Inl e, w)
            \<or> create_sandbox_claim api name warmpool ns a w = (Inl e, snd (k_isonow api w))
   | Inr env_spec \<Rightarrow>
       (\<exists>body w1. create_sandbox_claim api name warmpool ns a w
                  = k_create api (''extensions.agents.x-k8s.io'', ''v1beta1'', ''sandboxclaims'') ns body w1
         \<and> w1 \<in> {w, snd (k_isonow api w)}
         \<and> obj_get (obj_get body ''metadata'') ''name'' = JStr name
         \<and> obj_get (obj_get (obj_get body ''spec'') ''warmPoolRef'') ''name'' = JStr warmpool
         \<and> (\<forall>k. obj_get (obj_get (obj_get body ''metadata'') ''labels'') k =
              (if k = CREATED_BY_LABEL then JStr ''python-client''
               else case map_of (or_empty (ca_labels a)) k of None \<Rightarrow> JNull | Some v \<Rightarrow> JStr v))
         \<and> (\<forall>k. obj_get (obj_get (obj_get body ''metadata'') ''annotations'') k =
              (case map_of (or_empty (ca_annotations a)) k of Some v \<Rightarrow> JStr v
               | None \<Rightarrow> if k = CLIENT_REQUEST_TIME_ANNOTATION then JStr (fst (k_isonow api w)) else JNull))
         \<and> obj_get (obj_get body ''spec'') ''env'' =
              (if env_spec = [] then JNull else JList (map dump_env_var env_spec)))"
proof (cases "construct_sandbox_claim_env_spec (ca_env a)")
  case (Inl e)
  then show ?thesis by (auto simp: create_sandbox_claim_def Let_def split: prod.split)
next
  case (Inr env_spec)
  let ?anns = "or_empty (ca_annotations a)"
  let ?u = "if CLIENT_REQUEST_TIME_ANNOTATION \<in> set (map fst ?anns) then (?anns, w)
            else (dict_set CLIENT_REQUEST_TIME_ANNOTATION (fst (k_isonow api w)) ?anns, snd (k_isonow api w))"
  let ?body = "claim_manifest name warmpool a (fst ?u) env_spec"
  have "create_sandbox_claim api name warmpool ns a w = k_create api (api_resource Claims) ns ?body (snd ?u)"
    using Inr by (simp add: create_sandbox_claim_def Let_def split: prod.split)
  moreover have "map_of (fst ?u) k = (case map_of ?anns k of Some v \<Rightarrow> Some v
      | None \<Rightarrow> if k = CLIENT_REQUEST_TIME_ANNOTATION then Some (fst (k_isonow api w)) else None)" for k
    by (cases "map_of ?anns CLIENT_REQUEST_TIME_ANNOTATION")
       (auto simp: update_conv map_of_eq_None_iff split: option.split dest: map_of_SomeD intro: rev_image_eqI)
  ultimately show ?thesis
    unfolding Inr sum.case
    by (intro exI [of _ ?body] exI [of _ "snd ?u"])
       (auto simp: claim_manifest_get obj_get_jstrs update_conv split: option.split)
qed

end
