(* ===== verification/Connector_Strategies.thy ===== *)
theory Connector_Strategies
  imports K8s_Helper
begin

text \<open>
  The connection strategies of \<^verbatim>\<open>connector.py\<close> and the temporary kubeconfig of \<^verbatim>\<open>utils.py\<close> that the two
  \<^verbatim>\<open>kubectl\<close> tunnels use. Processes, sockets and temporary files are a record \<open>'w host\<close> of functions on
  the world. Logging and the latency metric are not modelled; the locks are, by giving each operation
  as one step.
\<close>

section \<open>Processes, sockets, temporary files\<close>

text \<open>\<open>h_dial\<close> is \<^verbatim>\<open>socket.create_connection\<close> to a local port; \<open>h_run\<close> is \<^verbatim>\<open>subprocess.run\<close> with its exit
  code and stderr; \<open>h_poll\<close> gives the exit code of a process that has ended.\<close>

record 'w host =
  h_now :: "'w \<Rightarrow> rat \<times> 'w"
  h_sleep :: "rat \<Rightarrow> 'w \<Rightarrow> 'w"
  h_free_port :: "('w, exn, nat) exec"
  h_dial :: "nat \<Rightarrow> ('w, exn, unit) exec"
  h_run :: "string list \<Rightarrow> ('w, exn, int \<times> string) exec"
  h_tempfile :: "('w, exn, unit) exec"
  h_popen :: "string list \<Rightarrow> ('w, exn, nat) exec"
  h_poll :: "nat \<Rightarrow> 'w \<Rightarrow> int option \<times> 'w"
  h_terminate :: "nat \<Rightarrow> ('w, exn, unit) exec"
  h_kill :: "nat \<Rightarrow> ('w, exn, unit) exec"
  h_wait :: "nat \<Rightarrow> rat \<Rightarrow> ('w, exn, unit) exec"
  h_mkstemp :: "('w, exn, string) exec"
  h_dump :: "string \<Rightarrow> json \<Rightarrow> ('w, exn, unit) exec"
  h_unlink :: "string \<Rightarrow> 'w \<Rightarrow> 'w"

section \<open>The kubeconfig of an injected API client\<close>

record api_client =
  ac_configuration :: kube_configuration
  ac_api_key :: "string \<Rightarrow> string option"
  ac_default_headers :: "headers option"

definition AUTHORIZATION_KEYS :: "string list" where
  "AUTHORIZATION_KEYS = [''BearerToken'', ''authorization'']"

fun first_api_key :: "api_client \<Rightarrow> string option \<Rightarrow> string list \<Rightarrow> string option" where
  "first_api_key ac authorization [] = authorization"
| "first_api_key ac authorization (k # ks) =
     (let a = ac_api_key ac k in if str_true a then a else first_api_key ac a ks)"

text \<open>\<^verbatim>\<open>_temporary_kubeconfig\<close> and \<^verbatim>\<open>kubectl_kubeconfig_args\<close>, with the body of the \<^verbatim>\<open>with\<close> statement as an
  argument (\<open>None\<close>: still running). The file is removed however the body ends.\<close>

definition temporary_kubeconfig ::
  "'w host \<Rightarrow> api_client \<Rightarrow> string option
   \<Rightarrow> (string list \<Rightarrow> 'w \<Rightarrow> ('a res \<times> 'st \<times> 'w) option) \<Rightarrow> 'st \<Rightarrow> 'w \<Rightarrow> ('a res \<times> 'st \<times> 'w) option"
where
  "temporary_kubeconfig hst ac authorization body st w =
     (case h_mkstemp hst w of
        (Inl e, w1) \<Rightarrow> Some (Inl e, st, w1)
      | (Inr path, w1) \<Rightarrow>
          (case h_dump hst path
                  (kubeconfig_from_configuration (ac_configuration ac) authorization
                     (ac_default_headers ac)) w1 of
             (Inl e, w2) \<Rightarrow> Some (Inl e, st, h_unlink hst path w2)
           | (Inr _, w2) \<Rightarrow>
               map_option (\<lambda>(r, st', w3). (r, st', h_unlink hst path w3))
                 (body [''--kubeconfig'', path] w2)))"

definition kubectl_kubeconfig_args ::
  "'w host \<Rightarrow> api_client option
   \<Rightarrow> (string list \<Rightarrow> 'w \<Rightarrow> ('a res \<times> 'st \<times> 'w) option) \<Rightarrow> 'st \<Rightarrow> 'w \<Rightarrow> ('a res \<times> 'st \<times> 'w) option"
where
  "kubectl_kubeconfig_args hst client body st w =
     (case client of
        None \<Rightarrow> body [] w
      | Some ac \<Rightarrow> temporary_kubeconfig hst ac (first_api_key ac None AUTHORIZATION_KEYS) body st w)"

section \<open>The kubectl tunnels\<close>

definition ROUTER_SERVICE_NAME :: string where
  "ROUTER_SERVICE_NAME = ''svc/sandbox-router-svc''"

definition KUBECTL_STDERR_TAIL_LIMIT :: nat where
  "KUBECTL_STDERR_TAIL_LIMIT = 8 * 1024"

definition kubectl_stderr_tail :: "string option \<Rightarrow> string" where
  "kubectl_stderr_tail stderr_log =
     (case stderr_log of None \<Rightarrow> [] | Some bytes \<Rightarrow> drop (length bytes - KUBECTL_STDERR_TAIL_LIMIT) bytes)"

text \<open>The state of both tunnels: the process, whether the stderr log is open, the base URL and, for
  sandboxd, the gRPC target.\<close>

record tunnel =
  t_process :: "nat option"
  t_log :: bool
  t_base_url :: "string option"
  t_grpc_target :: "string option"

definition new_tunnel :: tunnel where
  "new_tunnel = \<lparr>t_process = None, t_log = False, t_base_url = None, t_grpc_target = None\<rparr>"

definition local_url :: "nat \<Rightarrow> string" where
  "local_url port = ''http://127.0.0.1:'' @ show_nat port"

text \<open>\<^verbatim>\<open>_is_port_open\<close>: the router tunnel treats only a timeout and a refused connection as closed, the
  sandboxd tunnel every \<open>OSError\<close>.\<close>

definition is_port_open :: "'w host \<Rightarrow> nat \<Rightarrow> ('w, exn, bool) exec" where
  "is_port_open hst port =
     tryX (bindX (h_dial hst port) (\<lambda>_. retX True))
       (\<lambda>e. if e = TimeoutError \<or> e = ConnectionRefusedError then retX False else raiseX e)"

definition is_os_error :: "exn \<Rightarrow> bool" where
  "is_os_error e =
     (e = TimeoutError \<or> e = ConnectionRefusedError \<or> e = OSError \<or> e = PermissionError)"

definition is_port_open_sandboxd :: "'w host \<Rightarrow> nat \<Rightarrow> ('w, exn, bool) exec" where
  "is_port_open_sandboxd hst port =
     tryX (bindX (h_dial hst port) (\<lambda>_. retX True))
       (\<lambda>e. if is_os_error e then retX False else raiseX e)"

text \<open>Only a definite absence of the router service stops the tunnel.\<close>

definition preflight_check_router_service ::
  "'w host \<Rightarrow> string \<Rightarrow> string list \<Rightarrow> ('w, exn, unit) exec"
where
  "preflight_check_router_service hst router_namespace kube_args w =
     (case h_run hst ([''kubectl'', ''get'', ROUTER_SERVICE_NAME, ''-n'', router_namespace] @ kube_args) w of
        (Inl e, w1) \<Rightarrow> (if e = SandboxPortForwardError then Inl e else Inr (), w1)
      | (Inr (returncode, stderr), w1) \<Rightarrow>
          (if returncode \<noteq> 0 \<and> contains_sub ''not found'' (py_lower (py_strip stderr))
           then Inl SandboxPortForwardError else Inr (), w1))"

text \<open>The readiness loop: \<open>Inr True\<close> when the probe succeeds, \<open>Inr False\<close> when the time is up.\<close>

fun tunnel_wait ::
  "nat \<Rightarrow> 'w host \<Rightarrow> nat \<Rightarrow> ('w, exn, bool) exec \<Rightarrow> rat \<Rightarrow> rat \<Rightarrow> 'w \<Rightarrow> (bool res \<times> 'w) option"
where
  "tunnel_wait 0 hst pid probe start timeout w = None"
| "tunnel_wait (Suc n) hst pid probe start timeout w =
     (case h_now hst w of (now, w1) \<Rightarrow>
        if \<not> now - start < timeout then Some (Inr False, w1)
        else case h_poll hst pid w1 of
          (Some _, w2) \<Rightarrow> Some (Inl SandboxPortForwardError, w2)
        | (None, w2) \<Rightarrow>
            (case probe w2 of
               (Inl e, w3) \<Rightarrow> Some (Inl e, w3)
             | (Inr True, w3) \<Rightarrow> Some (Inr True, w3)
             | (Inr False, w3) \<Rightarrow> tunnel_wait n hst pid probe start timeout (h_sleep hst (1/20) w3)))"

text \<open>\<^verbatim>\<open>_close\<close> of both tunnels: when stopping fails the process and the log are kept.\<close>

definition stop_process :: "'w host \<Rightarrow> nat \<Rightarrow> ('w, exn, unit) exec" where
  "stop_process hst pid =
     bindX (h_terminate hst pid) (\<lambda>_.
       tryX (h_wait hst pid 2)
         (\<lambda>e. if e = SubprocessTimeout then bindX (h_kill hst pid) (\<lambda>_. h_wait hst pid 2) else raiseX e))"

definition tunnel_close :: "'w host \<Rightarrow> tunnel \<Rightarrow> 'w \<Rightarrow> tunnel \<times> 'w" where
  "tunnel_close hst t w =
     (let (t1, w1) =
        (case t_process t of
           None \<Rightarrow> (t, w)
         | Some pid \<Rightarrow>
             (case stop_process hst pid w of
                (Inl e, w') \<Rightarrow> (t, w')
              | (Inr _, w') \<Rightarrow>
                  (t\<lparr>t_process := None, t_base_url := None, t_grpc_target := None\<rparr>, w')))
      in (if t_log t1 \<and> t_process t1 = None then t1\<lparr>t_log := False\<rparr> else t1, w1))"

text \<open>\<^verbatim>\<open>_start_kubectl\<close> with the \<^verbatim>\<open>try\<close> around it: a log is opened, and dropped if kubectl does not start.\<close>

definition start_kubectl :: "'w host \<Rightarrow> string list \<Rightarrow> tunnel \<Rightarrow> 'w \<Rightarrow> nat res \<times> tunnel \<times> 'w" where
  "start_kubectl hst argv t w =
     (case h_tempfile hst w of
        (Inl e, w1) \<Rightarrow> (Inl e, t, w1)
      | (Inr _, w1) \<Rightarrow>
          (case h_popen hst argv w1 of
             (Inl e, w2) \<Rightarrow> (Inl e, t\<lparr>t_log := False\<rparr>, w2)
           | (Inr pid, w2) \<Rightarrow> (Inr pid, t\<lparr>t_process := Some pid, t_log := True\<rparr>, w2)))"

definition finish_tunnel ::
  "'w host \<Rightarrow> string \<Rightarrow> string option \<Rightarrow> tunnel \<Rightarrow> (bool res \<times> 'w) option
   \<Rightarrow> (string res \<times> tunnel \<times> 'w) option"
where
  "finish_tunnel hst url grpc t r =
     (case r of
        None \<Rightarrow> None
      | Some (Inl e, w) \<Rightarrow> Some (Inl e, t, w)
      | Some (Inr True, w) \<Rightarrow> Some (Inr url, t\<lparr>t_base_url := Some url, t_grpc_target := grpc\<rparr>, w)
      | Some (Inr False, w) \<Rightarrow>
          (case tunnel_close hst t w of (t', w') \<Rightarrow> Some (Inl TimeoutError, t', w')))"

definition start_local_tunnel ::
  "nat \<Rightarrow> 'w host \<Rightarrow> tunnel_config \<Rightarrow> tunnel \<Rightarrow> string list \<Rightarrow> 'w \<Rightarrow> (string res \<times> tunnel \<times> 'w) option"
where
  "start_local_tunnel fuel hst cfg t kube_args w =
     (case preflight_check_router_service hst (tc_router_namespace cfg) kube_args w of
        (Inl e, w1) \<Rightarrow> Some (Inl e, t, w1)
      | (Inr _, w1) \<Rightarrow>
     (case h_free_port hst w1 of
        (Inl e, w2) \<Rightarrow> Some (Inl e, t, w2)
      | (Inr local_port, w2) \<Rightarrow>
     (case start_kubectl hst
             ([''kubectl'', ''port-forward'', ROUTER_SERVICE_NAME, show_nat local_port @ '':8080'',
               ''-n'', tc_router_namespace cfg] @ kube_args) t w2 of
        (Inl e, t3, w3) \<Rightarrow> Some (Inl e, t3, w3)
      | (Inr pid, t3, w3) \<Rightarrow>
          (case h_now hst w3 of (start, w4) \<Rightarrow>
             finish_tunnel hst (local_url local_port) None t3
               (tunnel_wait fuel hst pid (is_port_open hst local_port) start
                  (tc_ready_timeout cfg) w4)))))"

definition start_pod_tunnel ::
  "nat \<Rightarrow> 'w host \<Rightarrow> pod_tunnel_config \<Rightarrow> string \<Rightarrow> string \<Rightarrow> tunnel \<Rightarrow> string list \<Rightarrow> 'w
   \<Rightarrow> (string res \<times> tunnel \<times> 'w) option"
where
  "start_pod_tunnel fuel hst cfg namespace pod_name t kube_args w =
     (case h_now hst w of (start, w0) \<Rightarrow>
     (case h_free_port hst w0 of
        (Inl e, w1) \<Rightarrow> Some (Inl e, t, w1)
      | (Inr rest_local, w1) \<Rightarrow>
     (case h_free_port hst w1 of
        (Inl e, w2) \<Rightarrow> Some (Inl e, t, w2)
      | (Inr grpc_local, w2) \<Rightarrow>
     (case start_kubectl hst
             ([''kubectl'', ''port-forward'', ''pod/'' @ pod_name,
               show_nat rest_local @ '':'' @ show_int (pt_rest_port cfg),
               show_nat grpc_local @ '':'' @ show_int (pt_grpc_port cfg), ''-n'', namespace] @ kube_args) t w2 of
        (Inl e, t3, w3) \<Rightarrow> Some (Inl e, t3, w3)
      | (Inr pid, t3, w3) \<Rightarrow>
          finish_tunnel hst (local_url rest_local) (Some (''127.0.0.1:'' @ show_nat grpc_local)) t3
            (tunnel_wait fuel hst pid
               (bindX (is_port_open_sandboxd hst rest_local)
                  (\<lambda>b. if b then is_port_open_sandboxd hst grpc_local else retX False))
               start (pt_ready_timeout cfg) w3)))))"

definition tunnel_connect ::
  "'w host \<Rightarrow> (tunnel \<Rightarrow> 'w \<Rightarrow> (string res \<times> tunnel \<times> 'w) option) \<Rightarrow> tunnel \<Rightarrow> 'w
   \<Rightarrow> (string res \<times> tunnel \<times> 'w) option"
where
  "tunnel_connect hst start t w =
     (case t_process t of
        None \<Rightarrow> start t w
      | Some pid \<Rightarrow>
          (case (if str_true (t_base_url t) then h_poll hst pid w else (Some 0, w)) of
             (None, w1) \<Rightarrow> Some (Inr (the (t_base_url t)), t, w1)
           | (Some _, w1) \<Rightarrow>
               (case tunnel_close hst t w1 of (t2, w2) \<Rightarrow>
                  if t_process t2 \<noteq> None then Some (Inl SandboxPortForwardError, t2, w2)
                  else start t2 w2)))"

text \<open>\<^verbatim>\<open>LocalTunnelConnectionStrategy.connect\<close> and \<^verbatim>\<open>SandboxdPodTunnelStrategy.connect\<close>.\<close>

definition local_tunnel_connect ::
  "nat \<Rightarrow> 'w host \<Rightarrow> api_client option \<Rightarrow> tunnel_config \<Rightarrow> tunnel \<Rightarrow> 'w \<Rightarrow> (string res \<times> tunnel \<times> 'w) option"
where
  "local_tunnel_connect fuel hst client cfg =
     tunnel_connect hst
       (\<lambda>t. kubectl_kubeconfig_args hst client (start_local_tunnel fuel hst cfg t) t)"

definition pod_tunnel_connect ::
  "nat \<Rightarrow> 'w host \<Rightarrow> api_client option \<Rightarrow> ('w, exn, string option) exec option \<Rightarrow> pod_tunnel_config
   \<Rightarrow> string \<Rightarrow> tunnel \<Rightarrow> 'w \<Rightarrow> (string res \<times> tunnel \<times> 'w) option"
where
  "pod_tunnel_connect fuel hst client get_pod_name cfg namespace =
     tunnel_connect hst
       (\<lambda>t w. case (case get_pod_name of None \<Rightarrow> (Inr None, w) | Some f \<Rightarrow> f w) of
          (Inl e, w1) \<Rightarrow> Some (Inl e, t, w1)
        | (Inr pod_name, w1) \<Rightarrow>
            (if \<not> str_true pod_name then Some (Inl SandboxPortForwardError, t, w1)
             else kubectl_kubeconfig_args hst client
                    (start_pod_tunnel fuel hst cfg namespace (the pod_name) t) t w1))"

definition tunnel_verify :: "'w host \<Rightarrow> tunnel \<Rightarrow> ('w, exn, unit) exec" where
  "tunnel_verify hst t w =
     (case t_process t of
        None \<Rightarrow> (Inr (), w)
      | Some pid \<Rightarrow>
          (case h_poll hst pid w of
             (None, w1) \<Rightarrow> (Inr (), w1)
           | (Some _, w1) \<Rightarrow> (Inl SandboxPortForwardError, w1)))"

section \<open>Gateway and in-cluster strategies\<close>

definition format_host :: "string \<Rightarrow> string" where
  "format_host host = (if CHR '':'' \<in> set host then ''['' @ host @ '']'' else host)"

definition gateway_connect ::
  "nat \<Rightarrow> 'w kube \<Rightarrow> gateway_config \<Rightarrow> string option \<Rightarrow> 'w \<Rightarrow> (string res \<times> string option \<times> 'w) option"
where
  "gateway_connect fuel api cfg base_url w =
     (if str_true base_url then Some (Inr (the base_url), base_url, w)
      else case wait_for_gateway_ip fuel api (gw_name cfg) (gw_namespace cfg) (gw_ready_timeout cfg) w of
        None \<Rightarrow> None
      | Some (Inl e, w1) \<Rightarrow> Some (Inl e, base_url, w1)
      | Some (Inr (JStr ip), w1) \<Rightarrow>
          (let url = ''http://'' @ format_host ip in Some (Inr url, Some url, w1))
      | Some (Inr _, w1) \<Rightarrow> Some (Inl TypeError, base_url, w1))"

text \<open>\<open>SandboxdInClusterStrategy\<close>: the cached Service FQDN and the gRPC target.\<close>

record cluster_state =
  cs_service_fqdn :: "string option"
  cs_grpc_target :: "string option"

definition call_opt :: "('w, exn, string option) exec option \<Rightarrow> ('w, exn, string option) exec" where
  "call_opt f w = (case f of None \<Rightarrow> (Inr None, w) | Some g \<Rightarrow> g w)"

definition cluster_urls :: "sandboxd_cluster_config \<Rightarrow> string \<Rightarrow> string \<times> string" where
  "cluster_urls cfg host =
     (''http://'' @ format_host host @ '':'' @ show_int (sc_rest_port cfg),
      format_host host @ '':'' @ show_int (sc_grpc_port cfg))"

definition cluster_connect ::
  "sandboxd_cluster_config \<Rightarrow> ('w, exn, string option) exec option \<Rightarrow> ('w, exn, string option) exec option
   \<Rightarrow> cluster_state \<Rightarrow> 'w \<Rightarrow> string res \<times> cluster_state \<times> 'w"
where
  "cluster_connect cfg get_pod_ip get_service_fqdn st w =
     (let st0 = st\<lparr>cs_grpc_target := None\<rparr>;
          ready = (\<lambda>st' host w'. case cluster_urls cfg host of (rest, grpc) \<Rightarrow>
                     (Inr rest, st'\<lparr>cs_grpc_target := Some grpc\<rparr>, w')) in
      case sc_mode cfg of
        InClusterService \<Rightarrow>
          (case cs_service_fqdn st0 of
             Some fqdn \<Rightarrow> ready st0 fqdn w
           | None \<Rightarrow>
               (case call_opt get_service_fqdn w of
                  (Inl e, w1) \<Rightarrow> (Inl e, st0, w1)
                | (Inr fqdn, w1) \<Rightarrow>
                    (if \<not> str_true fqdn then (Inl SandboxNoServiceError, st0, w1)
                     else ready (st0\<lparr>cs_service_fqdn := fqdn\<rparr>) (the fqdn) w1)))
      | InClusterPodIP \<Rightarrow>
          (case call_opt get_pod_ip w of
             (Inl e, w1) \<Rightarrow> (Inl e, st0, w1)
           | (Inr pod_ip, w1) \<Rightarrow>
               (if \<not> str_true pod_ip then (Inl SandboxNotReadyError, st0, w1)
                else ready st0 (the pod_ip) w1)))"

definition invalidate_service_fqdn :: "cluster_state \<Rightarrow> cluster_state" where
  "invalidate_service_fqdn st = st\<lparr>cs_service_fqdn := None, cs_grpc_target := None\<rparr>"

text \<open>\<open>InClusterConnectionStrategy\<close>: whether the pod address was resolved, and its URL.\<close>

record pod_ip_cache =
  pc_resolved :: bool
  pc_url :: "string option"

definition dns_url :: "string \<Rightarrow> string \<Rightarrow> in_cluster_config \<Rightarrow> string" where
  "dns_url sandbox_id namespace cfg =
     ''http://'' @ sandbox_id @ ''.'' @ namespace @ ''.svc.cluster.local:'' @ show_int (ic_server_port cfg)"

definition in_cluster_connect ::
  "string \<Rightarrow> string \<Rightarrow> in_cluster_config \<Rightarrow> ('w, exn, string option) exec option \<Rightarrow> pod_ip_cache \<Rightarrow> 'w
   \<Rightarrow> string res \<times> pod_ip_cache \<times> 'w"
where
  "in_cluster_connect sandbox_id namespace cfg get_pod_ip st w =
     (let dns = dns_url sandbox_id namespace cfg in
      case get_pod_ip of
        None \<Rightarrow> (Inr dns, st, w)
      | Some f \<Rightarrow>
          (if pc_resolved st then (Inr (if str_true (pc_url st) then the (pc_url st) else dns), st, w)
           else case f w of
             (Inl e, w1) \<Rightarrow> (Inl e, st, w1)
           | (Inr pod_ip, w1) \<Rightarrow>
               (if str_true pod_ip then
                  (let url = ''http://'' @ format_host (the pod_ip) @ '':'' @ show_int (ic_server_port cfg) in
                   (Inr url, \<lparr>pc_resolved = True, pc_url = Some url\<rparr>, w1))
                else (Inr dns, st, w1))))"

definition in_cluster_invalidate :: "pod_ip_cache \<Rightarrow> pod_ip_cache" where
  "in_cluster_invalidate st = \<lparr>pc_resolved = False, pc_url = None\<rparr>"

section \<open>The contract of a strategy\<close>

text \<open>States a strategy can get into from \<open>st\<close>, in any sequence of its operations and in any worlds.\<close>

inductive uses ::
  "(nat \<Rightarrow> 'st \<Rightarrow> 'w \<Rightarrow> (string res \<times> 'st \<times> 'w) option) \<Rightarrow> ('st \<Rightarrow> 'w \<Rightarrow> 'st \<times> 'w) \<Rightarrow> ('st \<Rightarrow> 'st)
   \<Rightarrow> 'st \<Rightarrow> 'st \<Rightarrow> bool"
  for connect close invalidate st
where
  uses_refl: "uses connect close invalidate st st"
| uses_connect: "uses connect close invalidate st st1 \<Longrightarrow> connect n st1 w = Some (r, st2, w') \<Longrightarrow>
    uses connect close invalidate st st2"
| uses_close: "uses connect close invalidate st st1 \<Longrightarrow> close st1 w = (st2, w') \<Longrightarrow>
    uses connect close invalidate st st2"
| uses_invalidate: "uses connect close invalidate st st1 \<Longrightarrow>
    uses connect close invalidate st (invalidate st1)"

text \<open>
  What the connector relies on: \<open>ok\<close> is kept by every operation whatever its outcome, and a URL that
  \<open>connect\<close> returns is the one the state stands for.
\<close>

locale connection_strategy =
  fixes connect :: "nat \<Rightarrow> 'st \<Rightarrow> 'w \<Rightarrow> (string res \<times> 'st \<times> 'w) option"
    and close :: "'st \<Rightarrow> 'w \<Rightarrow> 'st \<times> 'w"
    and invalidate :: "'st \<Rightarrow> 'st"
    and ok :: "'st \<Rightarrow> bool"
    and connected :: "'st \<Rightarrow> string \<Rightarrow> bool"
  assumes connect_ok: "ok st \<Longrightarrow> connect n st w = Some (r, st', w') \<Longrightarrow> ok st'"
    and connect_url: "ok st \<Longrightarrow> connect n st w = Some (Inr url, st', w') \<Longrightarrow> connected st' url"
    and close_ok: "ok st \<Longrightarrow> ok (fst (close st w))"
    and invalidate_ok: "ok st \<Longrightarrow> ok (invalidate st)"
begin

lemma uses_ok: "uses connect close invalidate st st' \<Longrightarrow> ok st \<Longrightarrow> ok st'"
proof (induction rule: uses.induct)
  case (uses_close st1 w st2 w')
  then show ?case using close_ok [of st1 w] by simp
qed (auto intro: connect_ok invalidate_ok)

lemma uses_connected:
  "uses connect close invalidate st st1 \<Longrightarrow> ok st \<Longrightarrow> connect n st1 w = Some (Inr url, st2, w') \<Longrightarrow>
   ok st2 \<and> connected st2 url"
  using uses_ok connect_ok connect_url by blast

end

section \<open>The tunnels keep their state consistent\<close>

text \<open>A URL is held only with a process, the stderr log is open exactly while a process is held, and a
  gRPC target is held only with a URL.\<close>

definition tunnel_ok :: "tunnel \<Rightarrow> bool" where
  "tunnel_ok t =
     ((t_base_url t = None \<or> t_process t \<noteq> None) \<and> (t_log t = (t_process t \<noteq> None))
      \<and> (t_grpc_target t = None \<or> t_base_url t \<noteq> None))"

definition tunnel_connected :: "tunnel \<Rightarrow> string \<Rightarrow> bool" where
  "tunnel_connected t url = (t_base_url t = Some url \<and> t_process t \<noteq> None \<and> t_log t)"

lemma tunnel_close_cases:
  obtains "t_process t = None" "snd (tunnel_close hst t w) = w"
      "fst (tunnel_close hst t w) = t\<lparr>t_log := False\<rparr>"
  | pid w' where "t_process t = Some pid" "stop_process hst pid w = (Inr (), w')"
      "tunnel_close hst t w = (t\<lparr>t_process := None, t_base_url := None, t_grpc_target := None, t_log := False\<rparr>, w')"
  | pid e w' where "t_process t = Some pid" "stop_process hst pid w = (Inl e, w')"
      "tunnel_close hst t w = (t, w')"
proof (cases "t_process t")
  case None
  then show ?thesis using that(1) by (simp add: tunnel_close_def)
next
  case (Some pid)
  obtain r w' where s: "stop_process hst pid w = (r, w')" by (cases "stop_process hst pid w")
  show ?thesis
  proof (cases r)
    case (Inl e)
    then show ?thesis using that(3) Some s by (simp add: tunnel_close_def)
  next
    case (Inr u)
    then show ?thesis using that(2) Some s by (simp add: tunnel_close_def)
  qed
qed

lemma tunnel_close_ok: "tunnel_ok t \<Longrightarrow> tunnel_ok (fst (tunnel_close hst t w))"
  by (rule tunnel_close_cases [of t hst w]) (auto simp: tunnel_ok_def)

lemma tunnel_close_closed:
  "tunnel_ok t \<Longrightarrow> t_process (fst (tunnel_close hst t w)) = None \<Longrightarrow>
   fst (tunnel_close hst t w) = t\<lparr>t_process := None, t_base_url := None, t_grpc_target := None, t_log := False\<rparr>"
  by (rule tunnel_close_cases [of t hst w]) (auto simp: tunnel_ok_def)

lemma start_kubectl_ok:
  "tunnel_ok t \<Longrightarrow> t_process t = None \<Longrightarrow> start_kubectl hst argv t w = (r, t', w') \<Longrightarrow>
   tunnel_ok t' \<and> t_base_url t' = None \<and> (\<forall>pid. r = Inr pid \<longrightarrow> t_process t' = Some pid)"
  by (auto simp: start_kubectl_def tunnel_ok_def split: prod.splits sum.splits)

lemma finish_tunnel_ok:
  assumes t: "tunnel_ok t" "t_process t = Some pid" and f: "finish_tunnel hst url grpc t x = Some (q, t', w')"
  shows "tunnel_ok t'" and "q = Inr u \<Longrightarrow> u = url \<and> tunnel_connected t' url \<and> t_grpc_target t' = grpc"
proof -
  from f obtain r w where x: "x = Some (r, w)" by (auto simp: finish_tunnel_def split: option.splits)
  consider (exn) e where "r = Inl e" | (opened) "r = Inr True" | (late) "r = Inr False"
    by (cases r) auto
  then have "tunnel_ok t' \<and> (\<forall>u. q = Inr u \<longrightarrow> u = url \<and> tunnel_connected t' url \<and> t_grpc_target t' = grpc)"
  proof cases
    case exn
    with f t show ?thesis by (auto simp: finish_tunnel_def x)
  next
    case opened
    with f t show ?thesis
      by (auto simp: finish_tunnel_def x tunnel_ok_def tunnel_connected_def)
  next
    case late
    obtain t2 w2 where c: "tunnel_close hst t w = (t2, w2)" by (cases "tunnel_close hst t w")
    with f late have "q = Inl TimeoutError" "t' = t2" by (auto simp: finish_tunnel_def x)
    then show ?thesis using tunnel_close_ok [OF t(1), of hst w] c by simp
  qed
  then show "tunnel_ok t'" "q = Inr u \<Longrightarrow> u = url \<and> tunnel_connected t' url \<and> t_grpc_target t' = grpc"
    by blast+
qed

text \<open>How a start ends: before kubectl, when kubectl does not start, or after the readiness loop.\<close>

inductive start_outcome :: "'w host \<Rightarrow> tunnel \<Rightarrow> string res \<Rightarrow> tunnel \<Rightarrow> 'w \<Rightarrow> bool" where
  no_kubectl: "start_outcome hst t (Inl e) t w'"
| kubectl_failed: "start_kubectl hst argv t w2 = (Inl e, t', w3) \<Longrightarrow> start_outcome hst t (Inl e) t' w'"
| waited: "start_kubectl hst argv t w2 = (Inr pid, t3, w3) \<Longrightarrow>
    finish_tunnel hst (local_url port) grpc t3 x = Some (r, t', w') \<Longrightarrow> start_outcome hst t r t' w'"

lemma start_outcome_ok:
  assumes t: "tunnel_ok t" "t_process t = None" and s: "start_outcome hst t r t' w'"
  shows "tunnel_ok t' \<and> (\<forall>url. r = Inr url \<longrightarrow> tunnel_connected t' url \<and> (\<exists>port. url = local_url port))"
  using s
proof cases
  case kubectl_failed
  then show ?thesis using start_kubectl_ok [OF t kubectl_failed(2)] by simp
next
  case (waited argv w2 pid t3 w3 port grpc x)
  from start_kubectl_ok [OF t waited(1)] have "tunnel_ok t3" "t_process t3 = Some pid" by auto
  from finish_tunnel_ok [OF this waited(2)] show ?thesis by blast
qed (use t in simp)

lemma start_local_tunnel_outcome:
  assumes "start_local_tunnel fuel hst cfg t args w = Some (r, t', w')"
  shows "start_outcome hst t r t' w'"
proof -
  obtain r1 w1 where 1: "preflight_check_router_service hst (tc_router_namespace cfg) args w = (r1, w1)"
    by (cases "preflight_check_router_service hst (tc_router_namespace cfg) args w")
  obtain r2 w2 where 2: "h_free_port hst w1 = (r2, w2)" by (cases "h_free_port hst w1")
  show ?thesis
  proof (cases r1; cases r2)
    fix u port
    assume r: "r1 = Inr u" "r2 = Inr port"
    define argv where "argv = [''kubectl'', ''port-forward'', ROUTER_SERVICE_NAME,
      show_nat port @ '':8080'', ''-n'', tc_router_namespace cfg] @ args"
    obtain q t3 w3 where 3: "start_kubectl hst argv t w2 = (q, t3, w3)"
      by (cases "start_kubectl hst argv t w2") auto
    obtain now w4 where 4: "h_now hst w3 = (now, w4)" by (cases "h_now hst w3")
    from assms have "(case q of Inl e \<Rightarrow> Some (Inl e, t3, w3)
      | Inr pid \<Rightarrow> finish_tunnel hst (local_url port) None t3
               (tunnel_wait fuel hst pid (is_port_open hst port) now (tc_ready_timeout cfg) w4)) = Some (r, t', w')"
      unfolding start_local_tunnel_def 1 2 r prod.case sum.case argv_def [symmetric] 3 4
      by (cases q) auto
    then show ?thesis using 3 by (cases q) (auto intro: start_outcome.intros)
  qed (use assms in \<open>auto simp: start_local_tunnel_def 1 2 intro: no_kubectl\<close>)
qed

lemma start_pod_tunnel_outcome:
  assumes "start_pod_tunnel fuel hst cfg ns pod t args w = Some (r, t', w')"
  shows "start_outcome hst t r t' w'"
proof -
  obtain now w0 where 0: "h_now hst w = (now, w0)" by (cases "h_now hst w")
  obtain r1 w1 where 1: "h_free_port hst w0 = (r1, w1)" by (cases "h_free_port hst w0")
  obtain r2 w2 where 2: "h_free_port hst w1 = (r2, w2)" by (cases "h_free_port hst w1")
  show ?thesis
  proof (cases r1; cases r2)
    fix rp gp
    assume r: "r1 = Inr rp" "r2 = Inr gp"
    define argv where "argv = [''kubectl'', ''port-forward'', ''pod/'' @ pod,
               show_nat rp @ '':'' @ show_int (pt_rest_port cfg),
               show_nat gp @ '':'' @ show_int (pt_grpc_port cfg), ''-n'', ns] @ args"
    obtain q t3 w3 where 3: "start_kubectl hst argv t w2 = (q, t3, w3)"
      by (cases "start_kubectl hst argv t w2") auto
    from assms have "(case q of Inl e \<Rightarrow> Some (Inl e, t3, w3)
      | Inr pid \<Rightarrow> finish_tunnel hst (local_url rp) (Some (''127.0.0.1:'' @ show_nat gp)) t3
            (tunnel_wait fuel hst pid
               (bindX (is_port_open_sandboxd hst rp)
                  (\<lambda>b. if b then is_port_open_sandboxd hst gp else retX False))
               now (pt_ready_timeout cfg) w3)) = Some (r, t', w')"
      unfolding start_pod_tunnel_def 0 1 2 r prod.case sum.case argv_def [symmetric] 3
      by (cases q) auto
    then show ?thesis using 3 by (cases q) (auto intro: start_outcome.intros)
  qed (use assms in \<open>auto simp: start_pod_tunnel_def 0 1 2 intro: no_kubectl\<close>)
qed

text \<open>A start that satisfies the contract from a tunnel holding no process gives a \<open>connect\<close> that does.\<close>

definition start_ok :: "(tunnel \<Rightarrow> 'w \<Rightarrow> (string res \<times> tunnel \<times> 'w) option) \<Rightarrow> bool" where
  "start_ok start =
     (\<forall>t w r t' w'. tunnel_ok t \<longrightarrow> t_process t = None \<longrightarrow> start t w = Some (r, t', w') \<longrightarrow>
        tunnel_ok t' \<and> (\<forall>url. r = Inr url \<longrightarrow> tunnel_connected t' url))"

lemma start_okD:
  "start_ok start \<Longrightarrow> tunnel_ok t \<Longrightarrow> t_process t = None \<Longrightarrow> start t w = Some (r, t', w') \<Longrightarrow>
   tunnel_ok t' \<and> (\<forall>url. r = Inr url \<longrightarrow> tunnel_connected t' url)"
  unfolding start_ok_def by blast

lemma tunnel_connect_ok:
  assumes s: "start_ok start" and t: "tunnel_ok t" and c: "tunnel_connect hst start t w = Some (r, t', w')"
  shows "tunnel_ok t' \<and> (\<forall>url. r = Inr url \<longrightarrow> tunnel_connected t' url)"
proof (cases "t_process t")
  case None
  with c show ?thesis using start_okD [OF s t None] by (simp add: tunnel_connect_def)
next
  case (Some pid)
  define b where "b = (if str_true (t_base_url t) then h_poll hst pid w else (Some 0, w))"
  obtain x w1 where b: "b = (x, w1)" by (cases b)
  show ?thesis
  proof (cases x)
    case None
    with b have "str_true (t_base_url t)" unfolding b_def by (auto split: if_splits)
    moreover from c Some b None have "r = Inr (the (t_base_url t))" "t' = t"
      by (auto simp: tunnel_connect_def simp flip: b_def)
    ultimately show ?thesis using t Some
      by (auto simp: tunnel_connected_def tunnel_ok_def str_true_def)
  next
    case (Some code)
    obtain t2 w2 where cl: "tunnel_close hst t w1 = (t2, w2)" by (cases "tunnel_close hst t w1")
    from tunnel_close_ok [OF t, of hst w1] cl have t2: "tunnel_ok t2" by simp
    have e: "tunnel_connect hst start t w =
      (if t_process t2 \<noteq> None then Some (Inl SandboxPortForwardError, t2, w2) else start t2 w2)"
      using Some \<open>t_process t = Some pid\<close> b cl by (simp add: tunnel_connect_def flip: b_def)
    show ?thesis
    proof (cases "t_process t2")
      case None
      with e c have "start t2 w2 = Some (r, t', w')" by simp
      with start_okD [OF s t2 None] show ?thesis by blast
    next
      case (Some p)
      with e c t2 show ?thesis by auto
    qed
  qed
qed

lemma kubeconfig_args_Some:
  assumes "kubectl_kubeconfig_args hst client body st w = Some (r, st', w')"
  shows "(\<exists>e. r = Inl e \<and> st' = st) \<or> (\<exists>args w1 w2. body args w1 = Some (r, st', w2))"
  using assms
  by (auto simp: kubectl_kubeconfig_args_def temporary_kubeconfig_def
      split: option.splits prod.splits sum.splits)

lemma local_start_ok:
  "start_ok (\<lambda>t. kubectl_kubeconfig_args hst client (start_local_tunnel fuel hst cfg t) t)"
  unfolding start_ok_def
proof (intro allI impI)
  fix t w r t' w'
  assume t: "tunnel_ok t" "t_process t = None"
    and k: "kubectl_kubeconfig_args hst client (start_local_tunnel fuel hst cfg t) t w = Some (r, t', w')"
  from kubeconfig_args_Some [OF k]
  show "tunnel_ok t' \<and> (\<forall>url. r = Inr url \<longrightarrow> tunnel_connected t' url)"
  proof (elim disjE exE conjE)
    fix args w1 w2
    assume "start_local_tunnel fuel hst cfg t args w1 = Some (r, t', w2)"
    from start_outcome_ok [OF t start_local_tunnel_outcome [OF this]] show ?thesis by blast
  qed (use t in simp)
qed

lemma pod_start_ok:
  "start_ok (\<lambda>t w. case (case get_pod_name of None \<Rightarrow> (Inr None, w) | Some f \<Rightarrow> f w) of
          (Inl e, w1) \<Rightarrow> Some (Inl e, t, w1)
        | (Inr pod_name, w1) \<Rightarrow>
            (if \<not> str_true pod_name then Some (Inl SandboxPortForwardError, t, w1)
             else kubectl_kubeconfig_args hst client
                    (start_pod_tunnel fuel hst cfg namespace (the pod_name) t) t w1))"
  unfolding start_ok_def
proof (intro allI impI)
  fix t w r t' w'
  assume t: "tunnel_ok t" "t_process t = None"
    and k: "(case (case get_pod_name of None \<Rightarrow> (Inr None, w) | Some f \<Rightarrow> f w) of
          (Inl e, w1) \<Rightarrow> Some (Inl e, t, w1)
        | (Inr pod_name, w1) \<Rightarrow>
            (if \<not> str_true pod_name then Some (Inl SandboxPortForwardError, t, w1)
             else kubectl_kubeconfig_args hst client
                    (start_pod_tunnel fuel hst cfg namespace (the pod_name) t) t w1)) = Some (r, t', w')"
  then consider (err) e where "r = Inl e" "t' = t"
    | (run) pod w1 where "kubectl_kubeconfig_args hst client
                    (start_pod_tunnel fuel hst cfg namespace pod t) t w1 = Some (r, t', w')"
    by (auto split: prod.splits sum.splits if_splits)
  then show "tunnel_ok t' \<and> (\<forall>url. r = Inr url \<longrightarrow> tunnel_connected t' url)"
  proof cases
    case run
    from kubeconfig_args_Some [OF this] show ?thesis
    proof (elim disjE exE conjE)
      fix args w1 w2
      assume "start_pod_tunnel fuel hst cfg namespace pod t args w1 = Some (r, t', w2)"
      from start_outcome_ok [OF t start_pod_tunnel_outcome [OF this]] show ?thesis by blast
    qed (use t in simp)
  qed (use t in simp)
qed

lemma local_tunnel_connect_ok:
  "tunnel_ok t \<Longrightarrow> local_tunnel_connect n hst client cfg t w = Some (r, t', w') \<Longrightarrow>
   tunnel_ok t' \<and> (\<forall>url. r = Inr url \<longrightarrow> tunnel_connected t' url)"
  unfolding local_tunnel_connect_def by (rule tunnel_connect_ok [OF local_start_ok])

lemma pod_tunnel_connect_ok:
  "tunnel_ok t \<Longrightarrow> pod_tunnel_connect n hst client get_pod_name cfg namespace t w = Some (r, t', w') \<Longrightarrow>
   tunnel_ok t' \<and> (\<forall>url. r = Inr url \<longrightarrow> tunnel_connected t' url)"
  unfolding pod_tunnel_connect_def by (rule tunnel_connect_ok [OF pod_start_ok])

interpretation local_tunnel: connection_strategy
  "\<lambda>n. local_tunnel_connect n hst client cfg" "tunnel_close hst" "\<lambda>t. t" tunnel_ok tunnel_connected
  for hst client cfg
  by unfold_locales
     (use local_tunnel_connect_ok [THEN conjunct1] local_tunnel_connect_ok [THEN conjunct2] tunnel_close_ok in metis)+

interpretation pod_tunnel: connection_strategy
  "\<lambda>n. pod_tunnel_connect n hst client get_pod_name cfg namespace" "tunnel_close hst" "\<lambda>t. t"
  tunnel_ok tunnel_connected
  for hst client get_pod_name cfg namespace
  by unfold_locales
     (use pod_tunnel_connect_ok [THEN conjunct1] pod_tunnel_connect_ok [THEN conjunct2] tunnel_close_ok in metis)+

section \<open>The other strategies\<close>

definition gateway_ok :: "string option \<Rightarrow> bool" where
  "gateway_ok b = (case b of None \<Rightarrow> True
     | Some url \<Rightarrow> (\<exists>host. url = ''http://'' @ format_host host \<and> gateway_host host))"

interpretation gateway: connection_strategy
  "\<lambda>n. gateway_connect n api cfg" "\<lambda>st w. (None, w)" "\<lambda>st. st" gateway_ok "\<lambda>st url. st = Some url"
  for api cfg
proof
  fix st st' :: "string option" and n w w' r
  assume ok: "gateway_ok st" and c: "gateway_connect n api cfg st w = Some (r, st', w')"
  show "gateway_ok st'"
  proof (cases "str_true st")
    case True
    with ok c show ?thesis by (auto simp: gateway_connect_def)
  next
    case False
    with ok c show ?thesis
      by (auto simp: gateway_connect_def gateway_ok_def Let_def dest: gateway_ip_host
          split: option.splits prod.splits sum.splits json.splits)
  qed
next
  fix st st' :: "string option" and n w w' url
  assume "gateway_connect n api cfg st w = Some (Inr url, st', w')"
  then show "st' = Some url"
    by (auto simp: gateway_connect_def str_true_def Let_def
        split: if_splits option.splits prod.splits sum.splits json.splits)
qed (simp_all add: gateway_ok_def)

definition cluster_ok :: "cluster_state \<Rightarrow> bool" where
  "cluster_ok st = (cs_service_fqdn st \<noteq> Some [])"

definition cluster_connected :: "sandboxd_cluster_config \<Rightarrow> cluster_state \<Rightarrow> string \<Rightarrow> bool" where
  "cluster_connected cfg st url =
     (\<exists>host. host \<noteq> [] \<and> url = fst (cluster_urls cfg host) \<and> cs_grpc_target st = Some (snd (cluster_urls cfg host)))"

lemma cluster_connect_cases:
  assumes "cluster_ok st" and "cluster_connect cfg get_pod_ip get_fqdn st w = (r, st', w')"
  shows "cluster_ok st' \<and> (case r of Inl e \<Rightarrow> cs_grpc_target st' = None | Inr url \<Rightarrow> cluster_connected cfg st' url)"
  using assms
  by (auto simp: cluster_connect_def cluster_ok_def cluster_connected_def str_true_def Let_def case_prod_beta
      split: cluster_mode.splits option.splits prod.splits sum.splits if_splits)

interpretation sandboxd_cluster: connection_strategy
  "\<lambda>n st w. Some (cluster_connect cfg get_pod_ip get_fqdn st w)"
  "\<lambda>st w. (invalidate_service_fqdn st, w)" "\<lambda>st. st" cluster_ok "cluster_connected cfg"
  for cfg get_pod_ip get_fqdn
proof
  fix st st' n w w' r
  assume "cluster_ok st" "Some (cluster_connect cfg get_pod_ip get_fqdn st w) = Some (r, st', w')"
  then show "cluster_ok st'" using cluster_connect_cases [of st cfg get_pod_ip get_fqdn w r st' w'] by simp
next
  fix st st' n w w' url
  assume "cluster_ok st" "Some (cluster_connect cfg get_pod_ip get_fqdn st w) = Some (Inr url, st', w')"
  then show "cluster_connected cfg st' url"
    using cluster_connect_cases [of st cfg get_pod_ip get_fqdn w "Inr url" st' w'] by simp
qed (simp_all add: cluster_ok_def invalidate_service_fqdn_def)

definition pod_ip_cache_ok :: "pod_ip_cache \<Rightarrow> bool" where
  "pod_ip_cache_ok st = (pc_resolved st = (pc_url st \<noteq> None) \<and> pc_url st \<noteq> Some [])"

interpretation in_cluster: connection_strategy
  "\<lambda>n st w. Some (in_cluster_connect id ns cfg get_pod_ip st w)"
  "\<lambda>st w. (in_cluster_invalidate st, w)" in_cluster_invalidate pod_ip_cache_ok
  "\<lambda>st url. url = (case pc_url st of None \<Rightarrow> dns_url id ns cfg | Some u \<Rightarrow> u) \<or> get_pod_ip = None"
  for id ns cfg get_pod_ip
  by unfold_locales
     (auto simp: in_cluster_connect_def in_cluster_invalidate_def pod_ip_cache_ok_def str_true_def Let_def
       split: option.splits prod.splits sum.splits if_splits)

interpretation direct: connection_strategy
  "\<lambda>n st w. Some (Inr (dc_api_url st), st, w)" "\<lambda>st w. (st, w)" "\<lambda>st. st" "\<lambda>st. True"
  "\<lambda>st url. url = dc_api_url st"
  by unfold_locales auto

section \<open>Properties of the tunnels\<close>

text \<open>A simulated host for examples: every call succeeds, and sleeping takes a second.\<close>

definition sim_host :: "nat host" where
  "sim_host = \<lparr>h_now = \<lambda>w. (of_nat w, w), h_sleep = \<lambda>d w. w + 1 + nat \<lceil>d\<rceil>, h_free_port = \<lambda>w. (Inr 40000, w),
     h_dial = \<lambda>p w. (Inr (), w), h_run = \<lambda>a w. (Inr (0, []), w), h_tempfile = \<lambda>w. (Inr (), w),
     h_popen = \<lambda>a w. (Inr 7, w), h_poll = \<lambda>p w. (None, w), h_terminate = \<lambda>p w. (Inr (), w),
     h_kill = \<lambda>p w. (Inr (), w), h_wait = \<lambda>p t w. (Inr (), w), h_mkstemp = \<lambda>w. (Inr ''/tmp/k'', w),
     h_dump = \<lambda>p j w. (Inr (), w), h_unlink = \<lambda>p w. w\<rparr>"

text \<open>(C36) In every state the two kubectl tunnels reach, through any sequence of \<^verbatim>\<open>connect\<close> and \<^verbatim>\<open>close\<close> with any
  outcomes (kubectl missing or crashing, timeouts, a process that will not die), a base URL is held
  only together with its process, the stderr log is open exactly while a process is held, and the gRPC
  target only together with the base URL.\<close>

theorem tunnel_states_ok:
  assumes "uses (\<lambda>n. local_tunnel_connect n hst client cfg) (tunnel_close hst) (\<lambda>t. t) new_tunnel t1"
    and "uses (\<lambda>n. pod_tunnel_connect n hst client get_pod_name pcfg namespace) (tunnel_close hst) (\<lambda>t. t)
           new_tunnel t2"
  shows "tunnel_ok t1 \<and> tunnel_ok t2"
proof -
  have new: "tunnel_ok new_tunnel" by (simp add: tunnel_ok_def new_tunnel_def)
  show ?thesis using local_tunnel.uses_ok [OF assms(1) new] pod_tunnel.uses_ok [OF assms(2) new] ..
qed

definition sim_tunnel_config :: tunnel_config where
  "sim_tunnel_config = \<lparr>tc_ready_timeout = 5, tc_server_port = 8888, tc_router_namespace = ''default''\<rparr>"

lemma sim_local_connect:
  "local_tunnel_connect (Suc 0) sim_host None sim_tunnel_config new_tunnel 0 =
     Some (Inr (local_url 40000),
       \<lparr>t_process = Some 7, t_log = True, t_base_url = Some (local_url 40000), t_grpc_target = None\<rparr>, 0)"
  by (simp add: local_tunnel_connect_def tunnel_connect_def new_tunnel_def kubectl_kubeconfig_args_def
      start_local_tunnel_def preflight_check_router_service_def sim_host_def start_kubectl_def
      is_port_open_def tryX_def bindX_def retX_def finish_tunnel_def sim_tunnel_config_def)

theorem tunnel_states_ok_witness:
  "tunnel_ok \<lparr>t_process = Some 7, t_log = True, t_base_url = Some (local_url 40000), t_grpc_target = None\<rparr>
   \<and> tunnel_ok new_tunnel"
  by (rule tunnel_states_ok [of sim_host None sim_tunnel_config _ None
        "\<lparr>pt_auth_token = None, pt_rest_port = 1, pt_grpc_port = 2, pt_ready_timeout = 1\<rparr>" "''ns''"])
     (rule uses_connect, rule uses_refl, rule sim_local_connect, rule uses_refl)

text \<open>A tunnel never loses track of a kubectl process: \<^verbatim>\<open>connect\<close> starts a new one only from a state in
  which none is held, so its result is the same for any two start functions that agree on such states;
  while the process lives and the URL is known it starts nothing; and if the old process cannot be
  stopped it raises \<open>SandboxPortForwardError\<close>.\<close>

lemma tunnel_connect_starts_fresh:
  assumes "\<And>t w. t_process t = None \<Longrightarrow> start t w = start' t w"
  shows "tunnel_connect hst start t w = tunnel_connect hst start' t w
    \<and> (case (t_process t, t_base_url t) of
         (Some pid, Some url) \<Rightarrow>
           (if url \<noteq> [] \<and> fst (h_poll hst pid w) = None
            then tunnel_connect hst start t w = Some (Inr url, t, snd (h_poll hst pid w))
            else if t_process (fst (tunnel_close hst t (if url = [] then w else snd (h_poll hst pid w)))) \<noteq> None
            then \<exists>t' w'. tunnel_connect hst start t w = Some (Inl SandboxPortForwardError, t', w')
            else True)
       | _ \<Rightarrow> True)"
proof
  show "tunnel_connect hst start t w = tunnel_connect hst start' t w"
    using assms by (auto simp: tunnel_connect_def split: option.split prod.split)
  show "case (t_process t, t_base_url t) of
         (Some pid, Some url) \<Rightarrow>
           (if url \<noteq> [] \<and> fst (h_poll hst pid w) = None
            then tunnel_connect hst start t w = Some (Inr url, t, snd (h_poll hst pid w))
            else if t_process (fst (tunnel_close hst t (if url = [] then w else snd (h_poll hst pid w)))) \<noteq> None
            then \<exists>t' w'. tunnel_connect hst start t w = Some (Inl SandboxPortForwardError, t', w')
            else True)
       | _ \<Rightarrow> True"
    by (auto simp: tunnel_connect_def str_true_def case_prod_beta split: option.split)
qed

section \<open>Connecting a tunnel ends\<close>

definition hclock :: "'w host \<Rightarrow> 'w \<Rightarrow> rat" where
  "hclock hst w = fst (h_now hst w)"

text \<open>A monotonic clock on which sleeping takes at least the time asked for.\<close>

definition host_ticks :: "'w host \<Rightarrow> bool" where
  "host_ticks hst =
     ((\<forall>w. hclock hst w \<le> hclock hst (snd (h_now hst w)))
      \<and> (\<forall>w. hclock hst w \<le> hclock hst (snd (h_free_port hst w)))
      \<and> (\<forall>w. hclock hst w \<le> hclock hst (snd (h_tempfile hst w)))
      \<and> (\<forall>a w. hclock hst w \<le> hclock hst (snd (h_popen hst a w)))
      \<and> (\<forall>p w. hclock hst w \<le> hclock hst (snd (h_poll hst p w)))
      \<and> (\<forall>p w. hclock hst w \<le> hclock hst (snd (h_dial hst p w)))
      \<and> (\<forall>d w. hclock hst w + d \<le> hclock hst (h_sleep hst d w)))"

lemma host_ticksD:
  assumes "host_ticks hst"
  shows "h_now hst w = (x, w1) \<Longrightarrow> hclock hst w \<le> hclock hst w1"
    and "h_free_port hst w = (x2, w1) \<Longrightarrow> hclock hst w \<le> hclock hst w1"
    and "h_tempfile hst w = (x3, w1) \<Longrightarrow> hclock hst w \<le> hclock hst w1"
    and "h_popen hst a w = (x4, w1) \<Longrightarrow> hclock hst w \<le> hclock hst w1"
    and "h_poll hst p w = (x5, w1) \<Longrightarrow> hclock hst w \<le> hclock hst w1"
    and "h_dial hst q w = (x6, w1) \<Longrightarrow> hclock hst w \<le> hclock hst w1"
    and "hclock hst w + d \<le> hclock hst (h_sleep hst d w)"
  using assms unfolding host_ticks_def by (metis snd_conv)+

lemma tunnel_wait_ends:
  assumes h: "host_ticks hst" and probe: "\<And>w r w'. probe w = (r, w') \<Longrightarrow> hclock hst w \<le> hclock hst w'"
  shows "start + timeout \<le> hclock hst w + of_nat n / 20 \<Longrightarrow>
         \<exists>r w'. tunnel_wait (Suc n) hst pid probe start timeout w = Some (r, w')"
proof (induction n arbitrary: w)
  case 0
  then show ?case by (auto simp: hclock_def split: prod.split)
next
  case (Suc n)
  obtain now w1 where n: "h_now hst w = (now, w1)" by (cases "h_now hst w")
  obtain x w2 where p: "h_poll hst pid w1 = (x, w2)" by (cases "h_poll hst pid w1")
  obtain q w3 where q: "probe w2 = (q, w3)" by (cases "probe w2")
  have "hclock hst w + 1/20 \<le> hclock hst (h_sleep hst (1/20) w3)"
    using host_ticksD(1) [OF h n] host_ticksD(5) [OF h p] probe [OF q] host_ticksD(7) [OF h, of w3 "1/20"] by simp
  with Suc.prems have "start + timeout \<le> hclock hst (h_sleep hst (1/20) w3) + of_nat n / 20"
    by (simp add: field_simps)
  from Suc.IH [OF this] show ?case
    unfolding tunnel_wait.simps(2) [of "Suc n"] n p q
    by (simp add: p q del: tunnel_wait.simps split: option.split sum.split bool.split)
qed

lemma finish_tunnel_ends:
  "\<exists>r w. x = Some (r, w) \<Longrightarrow> \<exists>a b c. finish_tunnel hst url grpc t x = Some (a, b, c)"
  by (auto simp: finish_tunnel_def split: sum.split bool.split prod.split)

lemma port_open_mono:
  assumes h: "host_ticks hst"
  shows "is_port_open hst p w = (r, w') \<Longrightarrow> hclock hst w \<le> hclock hst w'"
    and "is_port_open_sandboxd hst p w = (r, w') \<Longrightarrow> hclock hst w \<le> hclock hst w'"
  by (auto simp: is_port_open_def is_port_open_sandboxd_def tryX_def bindX_def retX_def raiseX_def
      split: prod.splits sum.splits if_splits dest: host_ticksD(6) [OF h])

lemma start_kubectl_mono:
  assumes h: "host_ticks hst" and s: "start_kubectl hst argv t w = (r, t', w')"
  shows "hclock hst w \<le> hclock hst w'"
proof -
  obtain x w1 where 1: "h_tempfile hst w = (x, w1)" by (cases "h_tempfile hst w")
  obtain y w2 where 2: "h_popen hst argv w1 = (y, w2)" by (cases "h_popen hst argv w1")
  have "w' = w1 \<or> w' = w2" using s by (auto simp: start_kubectl_def 1 2 split: sum.splits)
  then show ?thesis using host_ticksD(3) [OF h 1] host_ticksD(4) [OF h 2] by auto
qed

lemma start_local_tunnel_ends:
  assumes h: "host_ticks hst" and n: "tc_ready_timeout cfg \<le> of_nat n / 20"
  shows "start_local_tunnel (Suc n) hst cfg t args w \<noteq> None"
proof -
  have "\<exists>r w'. tunnel_wait (Suc n) hst pid (is_port_open hst port) now (tc_ready_timeout cfg) w4 = Some (r, w')"
    if "h_now hst w3 = (now, w4)" for pid port now w3 w4
    by (rule tunnel_wait_ends [OF h])
       (use port_open_mono(1) [OF h] host_ticksD(1) [OF h that] n that in \<open>auto simp: hclock_def\<close>)
  then show ?thesis
    unfolding start_local_tunnel_def
    by (auto simp del: tunnel_wait.simps intro!: finish_tunnel_ends split: prod.split sum.split)
qed

lemma start_pod_tunnel_ends:
  assumes h: "host_ticks hst" and n: "pt_ready_timeout cfg \<le> of_nat n / 20"
  shows "start_pod_tunnel (Suc n) hst cfg ns pod t args w \<noteq> None"
proof -
  let ?probe = "\<lambda>rp gp. bindX (is_port_open_sandboxd hst rp)
                  (\<lambda>b. if b then is_port_open_sandboxd hst gp else retX False)"
  obtain now w0 where 0: "h_now hst w = (now, w0)" by (cases "h_now hst w")
  obtain r1 w1 where 1: "h_free_port hst w0 = (r1, w1)" by (cases "h_free_port hst w0")
  obtain r2 w2 where 2: "h_free_port hst w1 = (r2, w2)" by (cases "h_free_port hst w1")
  have probe: "?probe rp gp w = (r, w') \<Longrightarrow> hclock hst w \<le> hclock hst w'" for rp gp w r w'
    by (auto simp: bindX_def retX_def split: prod.splits sum.splits if_splits
        dest!: port_open_mono(2) [OF h])
  have "\<exists>r w'. tunnel_wait (Suc n) hst pid (?probe rp gp) now (pt_ready_timeout cfg) w3 = Some (r, w')"
    if "start_kubectl hst argv t w2 = (q, t3, w3)" for argv q t3 pid rp gp w3
  proof (rule tunnel_wait_ends [OF h probe])
    have "now \<le> hclock hst w3"
      using host_ticksD(1) [OF h 0] host_ticksD(2) [OF h 1] host_ticksD(2) [OF h 2]
        start_kubectl_mono [OF h that] 0 by (simp add: hclock_def)
    with n show "now + pt_ready_timeout cfg \<le> hclock hst w3 + of_nat n / 20" by simp
  qed
  then show ?thesis
    unfolding start_pod_tunnel_def
    by (auto simp: 0 1 2 simp del: tunnel_wait.simps intro!: finish_tunnel_ends split: prod.split sum.split)
qed

lemma kubeconfig_args_ends:
  "(\<And>args w. body args w \<noteq> None) \<Longrightarrow> kubectl_kubeconfig_args hst client body st w \<noteq> None"
  by (auto simp: kubectl_kubeconfig_args_def temporary_kubeconfig_def
      split: option.split prod.split sum.split)

lemma tunnel_connect_ends:
  "(\<And>t w. start t w \<noteq> None) \<Longrightarrow> tunnel_connect hst start t w \<noteq> None"
  by (auto simp: tunnel_connect_def split: option.split prod.split)

text \<open>(C37) Connecting a tunnel always ends: on a monotonic clock on which a sleep takes at least its time, a
  connect with a ready timeout of at most \<open>n / 20\<close> seconds is over after at most \<open>n + 1\<close> polls of the
  port, ready, crashed or timed out.\<close>

theorem tunnels_connect_end:
  assumes "host_ticks hst" and "tc_ready_timeout cfg \<le> of_nat n / 20" and "pt_ready_timeout pcfg \<le> of_nat n / 20"
  shows "local_tunnel_connect (Suc n) hst client cfg t w \<noteq> None
    \<and> pod_tunnel_connect (Suc n) hst client get_pod_name pcfg namespace t w \<noteq> None"
proof
  show "local_tunnel_connect (Suc n) hst client cfg t w \<noteq> None"
    unfolding local_tunnel_connect_def
    by (intro tunnel_connect_ends kubeconfig_args_ends start_local_tunnel_ends assms)
  have "(case (case get_pod_name of None \<Rightarrow> (Inr None, w) | Some f \<Rightarrow> f w) of
          (Inl e, w1) \<Rightarrow> Some (Inl e, t, w1)
        | (Inr pod_name, w1) \<Rightarrow>
            (if \<not> str_true pod_name then Some (Inl SandboxPortForwardError, t, w1)
             else kubectl_kubeconfig_args hst client
                    (start_pod_tunnel (Suc n) hst pcfg namespace (the pod_name) t) t w1)) \<noteq> None" for t w
  proof -
    have "kubectl_kubeconfig_args hst client (start_pod_tunnel (Suc n) hst pcfg namespace p t) t w1 \<noteq> None" for p w1
      by (intro kubeconfig_args_ends start_pod_tunnel_ends assms)
    then show ?thesis by (auto split: prod.split sum.split)
  qed
  then show "pod_tunnel_connect (Suc n) hst client get_pod_name pcfg namespace t w \<noteq> None"
    unfolding pod_tunnel_connect_def by (rule tunnel_connect_ends)
qed

lemma sim_host_ticks: "host_ticks sim_host"
proof -
  have "d \<le> rat_of_nat (nat \<lceil>d\<rceil>)" for d :: rat
    using le_of_int_ceiling [of d] by (cases "0 \<le> \<lceil>d\<rceil>") (auto intro: order_trans)
  then have "rat_of_nat w + d \<le> 1 + (rat_of_nat w + rat_of_nat (nat \<lceil>d\<rceil>))" for d and w :: nat
    by (meson add_left_mono order_trans le_add_same_cancel2 zero_le_one)
  then show ?thesis by (auto simp: host_ticks_def hclock_def sim_host_def)
qed

theorem tunnels_connect_end_witness:
  "local_tunnel_connect (Suc 100) sim_host None sim_tunnel_config new_tunnel 0 \<noteq> None"
  using tunnels_connect_end [OF sim_host_ticks, of sim_tunnel_config 100
      "\<lparr>pt_auth_token = None, pt_rest_port = 1, pt_grpc_port = 2, pt_ready_timeout = 5\<rparr>" None new_tunnel 0 None "[]"]
  by (simp add: sim_tunnel_config_def del: not_None_eq)

text \<open>Connecting to sandboxd inside the cluster either fails with no gRPC target left behind, so a stale
  target is never used after a failed refresh, or returns the REST URL and sets the gRPC target for one
  and the same host; an IPv6 host is put in brackets in both.\<close>

lemma cluster_connect_spec:
  "case cluster_connect cfg get_pod_ip get_fqdn \<lparr>cs_service_fqdn = None, cs_grpc_target = g\<rparr> w of
     (Inl e, st', w') \<Rightarrow> st' = \<lparr>cs_service_fqdn = None, cs_grpc_target = None\<rparr>
   | (Inr url, st', w') \<Rightarrow>
       (\<exists>host. host \<noteq> [] \<and> url = ''http://'' @ format_host host @ '':'' @ show_int (sc_rest_port cfg)
          \<and> cs_grpc_target st' = Some (format_host host @ '':'' @ show_int (sc_grpc_port cfg))
          \<and> cs_service_fqdn st' = (if sc_mode cfg = InClusterService then Some host else None))"
  by (auto simp: cluster_connect_def cluster_urls_def str_true_def Let_def
      split: cluster_mode.split option.split prod.split sum.split)

end
