(* ===== verification/Connector.thy ===== *)
theory Connector
  imports Connector_Strategies
begin

text \<open>
  \<open>SandboxConnector\<close> of \<^verbatim>\<open>connector.py\<close>: the strategy it picks for its configuration, the gRPC channel, the
  transport token that protects a replaced in-cluster transport from late failures, and
  \<^verbatim>\<open>send_request\<close>. HTTP and gRPC are functions of the environment \<open>'w env\<close>; each operation is one step,
  as the transport lock makes it.
\<close>

section \<open>Timeouts and error bodies\<close>

text \<open>A Python float: a finite one is its value with its \<^verbatim>\<open>repr\<close>.\<close>

datatype py_float = FFin rat string | FInf | FNegInf | FNan

datatype py_timeout = TNone | TBool bool | TInt int | TFloat py_float | TTuple "py_timeout list" | TOther

text \<open>\<^verbatim>\<open>math.isfinite(v)\<close>, \<^verbatim>\<open>v <= 0\<close> and \<^verbatim>\<open>str(v)\<close> on the last element; \<open>isfinite\<close> raises on what is not a
  number and on an integer with no float value.\<close>

definition positive_str :: "py_timeout \<Rightarrow> string option res" where
  "positive_str v =
     (case v of
        TNone \<Rightarrow> Inr None
      | TBool b \<Rightarrow> Inr (if b then Some ''True'' else None)
      | TInt i \<Rightarrow> (if \<bar>i\<bar> \<ge> 2 ^ 1024 - 2 ^ 970 then Inl OverflowError
                   else Inr (if i \<le> 0 then None else Some (show_int i)))
      | TFloat (FFin q r) \<Rightarrow> Inr (if q \<le> 0 then None else Some r)
      | TFloat _ \<Rightarrow> Inr None
      | _ \<Rightarrow> Inl TypeError)"

definition router_timeout_header_value :: "py_timeout \<Rightarrow> string option res" where
  "router_timeout_header_value timeout =
     (case timeout of
        TBool _ \<Rightarrow> Inr None
      | TInt _ \<Rightarrow> positive_str timeout
      | TFloat _ \<Rightarrow> positive_str timeout
      | TTuple ts \<Rightarrow> (if ts = [] then Inr None else positive_str (last ts))
      | _ \<Rightarrow> Inr None)"

definition ERROR_BODY_LIMIT :: nat where
  "ERROR_BODY_LIMIT = 64 * 1024"

text \<open>The loop over \<^verbatim>\<open>iter_content\<close>: a stream is its chunks and whether it then raises; \<open>None\<close> when it
  does before the limit.\<close>

fun capture_loop :: "string list \<Rightarrow> bool \<Rightarrow> string \<Rightarrow> string option" where
  "capture_loop [] raises acc = (if raises then None else Some acc)"
| "capture_loop (chunk # rest) raises acc =
     (if chunk = [] then capture_loop rest raises acc
      else if length acc \<ge> ERROR_BODY_LIMIT then Some acc
      else let acc' = acc @ take (ERROR_BODY_LIMIT - length acc) chunk in
           if length acc' \<ge> ERROR_BODY_LIMIT then Some acc' else capture_loop rest raises acc')"

definition capture_streamed_error_body :: "string list \<Rightarrow> bool \<Rightarrow> string option" where
  "capture_streamed_error_body chunks raises = capture_loop chunks raises []"

section \<open>Requests, responses, the environment\<close>

text \<open>The body of a request: the bytes of \<^verbatim>\<open>data\<close>, the chunks an iterator yields and the exception it ends
  with if any, a one-file form (\<^verbatim>\<open>files\<close>), or \<^verbatim>\<open>json\<close>.\<close>

datatype http_body = NoBody | BytesBody string | ChunksBody "string list" "exn option"
  | FileForm string string | JsonBody json

record http_request =
  rq_method :: string
  rq_url :: string
  rq_headers :: headers
  rq_retries :: bool
  rq_allow_redirects :: bool
  rq_explicit_auth :: bool
  rq_stream :: bool
  rq_body :: http_body

text \<open>A response with what its accessors give: \<^verbatim>\<open>content\<close>, the decoded JSON if it is JSON, and for a streamed
  one the chunks of \<^verbatim>\<open>iter_content\<close> and the exception that ends them, if any.\<close>

record http_response =
  rs_status :: int
  rs_has_location :: bool
  rs_headers :: headers
  rs_body :: string
  rs_json :: "json option"
  rs_chunks :: "string list"
  rs_stream_error :: "exn option"

record 'w env =
  e_kube :: "'w kube"
  e_host :: "'w host"
  e_client :: "api_client option"
  e_get_pod_ip :: "('w, exn, string option) exec option"
  e_get_pod_name :: "('w, exn, string option) exec option"
  e_get_service_fqdn :: "('w, exn, string option) exec option"
  e_http :: "http_request \<Rightarrow> ('w, exn, http_response) exec"
  e_has_grpc :: bool
  e_insecure_channel :: "string \<Rightarrow> 'w \<Rightarrow> nat \<times> 'w"
  e_intercept :: "nat \<Rightarrow> string \<Rightarrow> ('w, exn, nat) exec"
  e_close_channel :: "nat \<Rightarrow> 'w \<Rightarrow> 'w"

text \<open>\<^verbatim>\<open>requests\<close>: a redirect has a Location and one of five codes; \<^verbatim>\<open>raise_for_status\<close> raises for 400 to 599.\<close>

definition is_redirect :: "http_response \<Rightarrow> bool" where
  "is_redirect r = (rs_has_location r \<and> rs_status r \<in> {301, 302, 303, 307, 308})"

definition is_error_status :: "http_response \<Rightarrow> bool" where
  "is_error_status r = (400 \<le> rs_status r \<and> rs_status r < 600)"

section \<open>Strategies\<close>

datatype strategy =
    SDirect direct_config
  | SGateway gateway_config "string option"
  | SLocal tunnel_config tunnel
  | SInCluster in_cluster_config pod_ip_cache
  | SPodTunnel pod_tunnel_config tunnel
  | SCluster sandboxd_cluster_config cluster_state

definition connection_strategy_of :: "connection_config \<Rightarrow> strategy" where
  "connection_strategy_of cfg =
     (case cfg of
        DirectConfig d \<Rightarrow> SDirect d
      | GatewayConfig g \<Rightarrow> SGateway g None
      | LocalTunnelConfig t \<Rightarrow> SLocal t new_tunnel
      | InClusterConfig i \<Rightarrow> SInCluster i \<lparr>pc_resolved = False, pc_url = None\<rparr>
      | SandboxdPodTunnelConfig p \<Rightarrow> SPodTunnel p new_tunnel
      | SandboxdInClusterConfig s \<Rightarrow> SCluster s \<lparr>cs_service_fqdn = None, cs_grpc_target = None\<rparr>)"

definition strategy_connect ::
  "nat \<Rightarrow> 'w env \<Rightarrow> string \<Rightarrow> string \<Rightarrow> strategy \<Rightarrow> 'w \<Rightarrow> (string res \<times> strategy \<times> 'w) option"
where
  "strategy_connect fuel env sid ns s w =
     (case s of
        SDirect d \<Rightarrow> Some (Inr (dc_api_url d), s, w)
      | SGateway g b \<Rightarrow>
          map_option (\<lambda>(r, b', w'). (r, SGateway g b', w')) (gateway_connect fuel (e_kube env) g b w)
      | SLocal cfg t \<Rightarrow>
          map_option (\<lambda>(r, t', w'). (r, SLocal cfg t', w'))
            (local_tunnel_connect fuel (e_host env) (e_client env) cfg t w)
      | SInCluster cfg st \<Rightarrow>
          (case in_cluster_connect sid ns cfg (e_get_pod_ip env) st w of (r, st', w') \<Rightarrow>
             Some (r, SInCluster cfg st', w'))
      | SPodTunnel cfg t \<Rightarrow>
          map_option (\<lambda>(r, t', w'). (r, SPodTunnel cfg t', w'))
            (pod_tunnel_connect fuel (e_host env) (e_client env) (e_get_pod_name env) cfg ns t w)
      | SCluster cfg st \<Rightarrow>
          (case cluster_connect cfg (e_get_pod_ip env) (e_get_service_fqdn env) st w of (r, st', w') \<Rightarrow>
             Some (r, SCluster cfg st', w')))"

definition strategy_close :: "'w env \<Rightarrow> strategy \<Rightarrow> 'w \<Rightarrow> strategy \<times> 'w" where
  "strategy_close env s w =
     (case s of
        SGateway g b \<Rightarrow> (SGateway g None, w)
      | SLocal cfg t \<Rightarrow> (case tunnel_close (e_host env) t w of (t', w') \<Rightarrow> (SLocal cfg t', w'))
      | SInCluster cfg st \<Rightarrow> (SInCluster cfg (in_cluster_invalidate st), w)
      | SPodTunnel cfg t \<Rightarrow> (case tunnel_close (e_host env) t w of (t', w') \<Rightarrow> (SPodTunnel cfg t', w'))
      | SCluster cfg st \<Rightarrow> (SCluster cfg (invalidate_service_fqdn st), w)
      | SDirect d \<Rightarrow> (SDirect d, w))"

definition strategy_verify :: "'w env \<Rightarrow> strategy \<Rightarrow> ('w, exn, unit) exec" where
  "strategy_verify env s w =
     (case s of
        SLocal cfg t \<Rightarrow> tunnel_verify (e_host env) t w
      | SPodTunnel cfg t \<Rightarrow> tunnel_verify (e_host env) t w
      | _ \<Rightarrow> (Inr (), w))"

fun should_inject_router_headers :: "strategy \<Rightarrow> bool" where
  "should_inject_router_headers (SDirect _) = True"
| "should_inject_router_headers (SGateway _ _) = True"
| "should_inject_router_headers (SLocal _ _) = True"
| "should_inject_router_headers (SInCluster _ _) = False"
| "should_inject_router_headers (SPodTunnel _ _) = False"
| "should_inject_router_headers (SCluster _ _) = False"

fun invalidate_pod_ip :: "strategy \<Rightarrow> strategy" where
  "invalidate_pod_ip (SInCluster cfg st) = SInCluster cfg (in_cluster_invalidate st)"
| "invalidate_pod_ip s = s"

fun strategy_grpc_target :: "strategy \<Rightarrow> string option" where
  "strategy_grpc_target (SPodTunnel _ t) = t_grpc_target t"
| "strategy_grpc_target (SCluster _ st) = cs_grpc_target st"
| "strategy_grpc_target _ = None"

fun is_cluster_strategy :: "strategy \<Rightarrow> bool" where
  "is_cluster_strategy (SCluster _ _) = True"
| "is_cluster_strategy _ = False"

section \<open>The connector\<close>

text \<open>\<open>c_token\<close> is the identity of the current transport token and \<open>c_fresh\<close> the next unused one, so that
  \<^verbatim>\<open>object()\<close> is a new number each time.\<close>

record connector =
  c_id :: string
  c_namespace :: string
  c_config :: connection_config
  c_strategy :: strategy
  c_pod_ip :: "string option"
  c_pod_ip_resolved :: bool
  c_pod_ip_auth_failed :: bool
  c_grpc_channel :: "nat option"
  c_grpc_channel_target :: "string option"
  c_incluster_target :: "string option"
  c_token :: nat
  c_fresh :: nat

definition new_connector :: "string \<Rightarrow> string \<Rightarrow> connection_config \<Rightarrow> connector" where
  "new_connector sid ns cfg =
     \<lparr>c_id = sid, c_namespace = ns, c_config = cfg, c_strategy = connection_strategy_of cfg,
      c_pod_ip = None, c_pod_ip_resolved = False, c_pod_ip_auth_failed = False,
      c_grpc_channel = None, c_grpc_channel_target = None, c_incluster_target = None,
      c_token = 0, c_fresh = 1\<rparr>"

definition fresh_token :: "connector \<Rightarrow> connector" where
  "fresh_token c = c\<lparr>c_token := c_fresh c, c_fresh := Suc (c_fresh c)\<rparr>"

definition is_sandboxd :: "connection_config \<Rightarrow> bool" where
  "is_sandboxd cfg =
     (case cfg of SandboxdPodTunnelConfig _ \<Rightarrow> True | SandboxdInClusterConfig _ \<Rightarrow> True | _ \<Rightarrow> False)"

definition close_opt_channel :: "'w env \<Rightarrow> nat option \<Rightarrow> 'w \<Rightarrow> 'w" where
  "close_opt_channel env ch w = (case ch of None \<Rightarrow> w | Some n \<Rightarrow> e_close_channel env n w)"

definition drop_channel :: "connector \<Rightarrow> connector" where
  "drop_channel c = c\<lparr>c_grpc_channel := None, c_grpc_channel_target := None\<rparr>"

definition open_channel :: "'w env \<Rightarrow> connection_config \<Rightarrow> string \<Rightarrow> ('w, exn, nat) exec" where
  "open_channel env cfg target w =
     (if \<not> e_has_grpc env then (Inl ImportError, w)
      else case e_insecure_channel env target w of (ch, w1) \<Rightarrow>
        (case dict_get (sandboxd_auth_headers cfg) ''authorization'' of
           None \<Rightarrow> (Inr ch, w1)
         | Some authorization \<Rightarrow>
             (case e_intercept env ch authorization w1 of
                (Inl e, w2) \<Rightarrow> (Inl e, e_close_channel env ch w2)
              | (Inr ch', w2) \<Rightarrow> (Inr ch', w2))))"

definition grpc_channel :: "'w env \<Rightarrow> connector \<Rightarrow> 'w \<Rightarrow> nat res \<times> connector \<times> 'w" where
  "grpc_channel env c w =
     (if \<not> is_sandboxd (c_config c) then (Inl RuntimeError, c, w)
      else let target = strategy_grpc_target (c_strategy c) in
        if \<not> str_true target then (Inl (SandboxRequestError None), c, w)
        else if c_grpc_channel c \<noteq> None \<and> c_grpc_channel_target c = target
        then (Inr (the (c_grpc_channel c)), c, w)
        else
          (let w1 = close_opt_channel env (c_grpc_channel c) w;
               c1 = (if c_grpc_channel c \<noteq> None then drop_channel c else c) in
           case open_channel env (c_config c) (the target) w1 of
             (Inl e, w2) \<Rightarrow> (Inl e, c1, w2)
           | (Inr ch, w2) \<Rightarrow>
               (Inr ch, c1\<lparr>c_grpc_channel := Some ch, c_grpc_channel_target := target\<rparr>, w2)))"

fun invalidate_strategy_fqdn :: "strategy \<Rightarrow> strategy" where
  "invalidate_strategy_fqdn (SCluster cfg st) = SCluster cfg (invalidate_service_fqdn st)"
| "invalidate_strategy_fqdn s = s"

definition invalidate_sandboxd_transport ::
  "'w env \<Rightarrow> nat option \<Rightarrow> nat option \<Rightarrow> connector \<Rightarrow> 'w \<Rightarrow> connector \<times> 'w"
where
  "invalidate_sandboxd_transport env channel transport_token c w =
     (if \<not> is_cluster_strategy (c_strategy c) then (c, w)
      else if channel \<noteq> None \<and> channel \<noteq> c_grpc_channel c then (c, w)
      else if transport_token \<noteq> None \<and> transport_token \<noteq> Some (c_token c) then (c, w)
      else (drop_channel (fresh_token c)
              \<lparr>c_incluster_target := None, c_strategy := invalidate_strategy_fqdn (c_strategy c)\<rparr>,
            close_opt_channel env (c_grpc_channel c) w))"

definition connector_connect :: "nat \<Rightarrow> 'w env \<Rightarrow> connector \<Rightarrow> 'w \<Rightarrow> (string res \<times> connector \<times> 'w) option" where
  "connector_connect fuel env c w =
     (case strategy_connect fuel env (c_id c) (c_namespace c) (c_strategy c) w of
        None \<Rightarrow> None
      | Some (Inl e, s, w1) \<Rightarrow>
          (let c1 = c\<lparr>c_strategy := s\<rparr> in
           Some (Inl e, if is_cluster_strategy s then fresh_token (c1\<lparr>c_incluster_target := None\<rparr>) else c1, w1))
      | Some (Inr base_url, s, w1) \<Rightarrow>
          (let c1 = c\<lparr>c_strategy := s\<rparr> in
           Some (Inr base_url,
                 if is_cluster_strategy s \<and> strategy_grpc_target s \<noteq> c_incluster_target c1
                 then fresh_token (c1\<lparr>c_incluster_target := strategy_grpc_target s\<rparr>) else c1, w1)))"

definition connector_close :: "'w env \<Rightarrow> connector \<Rightarrow> 'w \<Rightarrow> connector \<times> 'w" where
  "connector_close env c w =
     (let c1 = (fresh_token c)\<lparr>c_incluster_target := None, c_pod_ip_resolved := False, c_pod_ip := None\<rparr>;
          w1 = close_opt_channel env (c_grpc_channel c) w;
          c2 = (if c_grpc_channel c \<noteq> None then drop_channel c1 else c1) in
      case strategy_close env (c_strategy c2) w1 of (s, w2) \<Rightarrow> (c2\<lparr>c_strategy := s\<rparr>, w2))"

section \<open>Sending a request\<close>

record request_args =
  ra_headers :: "headers option"
  ra_timeout :: py_timeout
  ra_stream :: bool
  ra_allowed_statuses :: "int list option"
  ra_disable_retries :: bool
  ra_body :: http_body

definition extra_headers :: "connection_config \<Rightarrow> headers" where
  "extra_headers cfg = (case cfg of DirectConfig d \<Rightarrow> dc_extra_headers d | _ \<Rightarrow> [])"

definition server_port_of :: "connection_config \<Rightarrow> int option" where
  "server_port_of cfg =
     (case cfg of
        DirectConfig d \<Rightarrow> Some (dc_server_port d)
      | GatewayConfig g \<Rightarrow> Some (gw_server_port g)
      | LocalTunnelConfig t \<Rightarrow> Some (tc_server_port t)
      | InClusterConfig i \<Rightarrow> Some (ic_server_port i)
      | _ \<Rightarrow> None)"

text \<open>\<^verbatim>\<open>getattr(getattr(e, "response", None), "status_code", None)\<close>: only the exceptions of \<^verbatim>\<open>requests\<close> and
  \<open>SandboxRequestError\<close> have a \<^verbatim>\<open>response\<close>; an \<open>ApiException\<close> of the Kubernetes client has not.\<close>

fun response_status :: "exn \<Rightarrow> int option" where
  "response_status (RequestException s) = s"
| "response_status (SandboxRequestError s) = s"
| "response_status _ = None"

definition resolve_pod_ip :: "'w env \<Rightarrow> connector \<Rightarrow> 'w \<Rightarrow> connector \<times> 'w" where
  "resolve_pod_ip env c w =
     (case e_get_pod_ip env of
        None \<Rightarrow> (c, w)
      | Some f \<Rightarrow>
          (if c_pod_ip_auth_failed c \<or> c_pod_ip_resolved c then (c, w)
           else case f w of
             (Inr ip, w1) \<Rightarrow>
               (if str_true ip then (c\<lparr>c_pod_ip := ip, c_pod_ip_resolved := True\<rparr>, w1) else (c, w1))
           | (Inl e, w1) \<Rightarrow>
               (if response_status e = Some 401 \<or> response_status e = Some 403
                then (c\<lparr>c_pod_ip_auth_failed := True\<rparr>, w1) else (c, w1))))"

definition opt_set :: "string \<Rightarrow> string option \<Rightarrow> headers \<Rightarrow> headers" where
  "opt_set k v hs = (case v of None \<Rightarrow> hs | Some x \<Rightarrow> dict_set k x hs)"

definition request_headers ::
  "'w env \<Rightarrow> request_args \<Rightarrow> connector \<Rightarrow> 'w \<Rightarrow> headers res \<times> connector \<times> 'w"
where
  "request_headers env args c w =
     (let hs = merge_headers [Some (extra_headers (c_config c)), ra_headers args,
                              Some (sandboxd_auth_headers (c_config c))] in
      if \<not> should_inject_router_headers (c_strategy c) then (Inr hs, c, w)
      else
        (let hs1 = opt_set ''X-Sandbox-Port'' (map_option show_int (server_port_of (c_config c)))
               (dict_set ''X-Sandbox-Namespace'' (c_namespace c) (dict_set ''X-Sandbox-ID'' (c_id c) hs)) in
         case router_timeout_header_value (ra_timeout args) of
           Inl e \<Rightarrow> (Inl e, c, w)
         | Inr timeout_header \<Rightarrow>
             (let hs2 = opt_set ''X-Sandbox-Timeout'' timeout_header hs1 in
              case resolve_pod_ip env c w of (c1, w1) \<Rightarrow>
                (Inr (if e_get_pod_ip env \<noteq> None \<and> \<not> c_pod_ip_auth_failed c \<and> str_true (c_pod_ip c1)
                      then dict_set ''X-Sandbox-Pod-IP'' (the (c_pod_ip c1)) hs2 else hs2), c1, w1))))"

definition request_url :: "string \<Rightarrow> string \<Rightarrow> string" where
  "request_url base_url endpoint =
     rstrip_char CHR ''/'' base_url @ ''/'' @ lstrip_char CHR ''/'' endpoint"

text \<open>What the \<^verbatim>\<open>except RequestException\<close> clause does to the connector: \<open>token\<close> is \<open>None\<close> when the request
  failed before \<^verbatim>\<open>transport_token\<close> was bound.\<close>

definition drop_pod_ip :: "connector \<Rightarrow> connector" where
  "drop_pod_ip c = c\<lparr>c_pod_ip_resolved := False, c_pod_ip := None\<rparr>"

definition on_request_error ::
  "'w env \<Rightarrow> int option \<Rightarrow> nat option \<Rightarrow> connector \<Rightarrow> 'w \<Rightarrow> exn option \<times> connector \<times> 'w"
where
  "on_request_error env status token c w =
     (case status of
        None \<Rightarrow>
          (let c1 = drop_pod_ip c in
           if is_cluster_strategy (c_strategy c) then
             (case token of
                None \<Rightarrow> (Some UnboundLocalError, c1, w)
              | Some t \<Rightarrow> (case invalidate_sandboxd_transport env None (Some t) c1 w of (c2, w2) \<Rightarrow> (None, c2, w2)))
           else (case connector_close env c1 w of (c2, w2) \<Rightarrow> (None, c2, w2)))
      | Some s \<Rightarrow>
          (if s \<ge> 500
           then (None, (drop_pod_ip c)\<lparr>c_strategy := invalidate_pod_ip (c_strategy c)\<rparr>, w)
           else (None, c, w)))"

text \<open>The exception a failed attempt ends in; \<open>url_bound\<close> is false when the request failed before its URL was
  known.\<close>

definition request_failed ::
  "'w env \<Rightarrow> bool \<Rightarrow> nat option \<Rightarrow> exn \<Rightarrow> connector \<Rightarrow> 'w \<Rightarrow> 'a res \<times> connector \<times> 'w"
where
  "request_failed env url_bound token e c w =
     (case e of
        SandboxPortForwardError \<Rightarrow> (case connector_close env c w of (c1, w1) \<Rightarrow> (Inl e, c1, w1))
      | RequestException status \<Rightarrow>
          (case on_request_error env status token c w of (x, c1, w1) \<Rightarrow>
             (Inl (case x of Some e' \<Rightarrow> e'
                   | None \<Rightarrow> if url_bound then SandboxRequestError status else UnboundLocalError), c1, w1))
      | _ \<Rightarrow> (Inl e, c, w))"

text \<open>\<^verbatim>\<open>send_request\<close>; the result is the response and, for a streamed one in the cluster, the token it is
  tagged with.\<close>

definition check_response :: "request_args \<Rightarrow> http_response \<Rightarrow> http_response res" where
  "check_response args r =
     (if is_redirect r then Inl (RequestException (Some (rs_status r)))
      else if (case ra_allowed_statuses args of None \<Rightarrow> False | Some ss \<Rightarrow> rs_status r \<in> set ss) then Inr r
      else if is_error_status r then Inl (RequestException (Some (rs_status r)))
      else Inr r)"

definition request_of :: "connector \<Rightarrow> request_args \<Rightarrow> string \<Rightarrow> string \<Rightarrow> headers \<Rightarrow> http_request" where
  "request_of c args http_method url hs =
     \<lparr>rq_method = http_method, rq_url = url, rq_headers = hs, rq_retries = (\<not> ra_disable_retries args),
      rq_allow_redirects = False, rq_explicit_auth = (sandboxd_auth_headers (c_config c) \<noteq> []),
      rq_stream = ra_stream args, rq_body = ra_body args\<rparr>"

definition send_request ::
  "nat \<Rightarrow> 'w env \<Rightarrow> string \<Rightarrow> string \<Rightarrow> request_args \<Rightarrow> connector \<Rightarrow> 'w
   \<Rightarrow> ((http_response \<times> nat option) res \<times> connector \<times> 'w) option"
where
  "send_request fuel env http_method endpoint args c w =
     (case connector_connect fuel env c w of
        None \<Rightarrow> None
      | Some (Inl e, c1, w1) \<Rightarrow> Some (request_failed env False None e c1 w1)
      | Some (Inr base_url, c1, w1) \<Rightarrow>
          (let token = c_token c1 in
           case strategy_verify env (c_strategy c1) w1 of
             (Inl e, w2) \<Rightarrow> Some (request_failed env False (Some token) e c1 w2)
           | (Inr _, w2) \<Rightarrow>
               (let url = request_url base_url endpoint in
                case request_headers env args c1 w2 of
                  (Inl e, c3, w3) \<Rightarrow> Some (request_failed env True (Some token) e c3 w3)
                | (Inr hs, c3, w3) \<Rightarrow>
                    (case e_http env (request_of c3 args http_method url hs) w3 of
                       (Inl e, w4) \<Rightarrow> Some (request_failed env True (Some token) e c3 w4)
                     | (Inr resp, w4) \<Rightarrow>
                         (case check_response args resp of
                            Inl e \<Rightarrow> Some (request_failed env True (Some token) e c3 w4)
                          | Inr r \<Rightarrow>
                              Some (Inr (r, if ra_stream args \<and> is_cluster_strategy (c_strategy c3)
                                            then Some token else None), c3, w4))))))"

section \<open>The headers on the wire\<close>

text \<open>\<^verbatim>\<open>requests\<close> sends its headers from a case-insensitive dictionary filled in order: of two spellings of a
  name the last one counts.\<close>

definition wire_get :: "headers \<Rightarrow> string \<Rightarrow> string option" where
  "wire_get hs name = map_of (rev (map (\<lambda>(k, v). (py_lower k, v)) hs)) (py_lower name)"

definition spellings :: "headers \<Rightarrow> string \<Rightarrow> headers" where
  "spellings hs name = filter (\<lambda>(k, v). py_lower k = py_lower name) hs"

lemma wire_get_spellings:
  "wire_get hs name = (if spellings hs name = [] then None else Some (snd (last (spellings hs name))))"
proof (induction hs rule: rev_induct)
  case Nil
  show ?case by (simp add: wire_get_def spellings_def)
next
  case (snoc x hs)
  obtain k v where x: "x = (k, v)" by (cases x)
  with snoc show ?case by (simp add: wire_get_def spellings_def)
qed

lemma spellings_set_same:
  "py_lower k = py_lower name \<Longrightarrow> spellings (dict_set k v hs) name = dict_set k v (spellings hs name)"
  by (induction hs) (auto simp: spellings_def)

lemma spellings_set_other:
  "py_lower k \<noteq> py_lower name \<Longrightarrow> spellings (dict_set k v hs) name = spellings hs name"
  by (induction hs) (auto simp: spellings_def)

lemma wire_get_set_other:
  "py_lower k \<noteq> py_lower name \<Longrightarrow> wire_get (dict_set k v hs) name = wire_get hs name"
  by (simp add: wire_get_spellings spellings_set_other)

lemma wire_get_opt_set_other:
  "py_lower k \<noteq> py_lower name \<Longrightarrow> wire_get (opt_set k v hs) name = wire_get hs name"
  by (simp add: opt_set_def wire_get_set_other split: option.split)

lemma wire_get_set_same:
  assumes "length (spellings hs k) \<le> 1"
  shows "wire_get (dict_set k v hs) k = Some v"
proof -
  from assms consider "spellings hs k = []" | n x where "spellings hs k = [(n, x)]"
    by (cases "spellings hs k") auto
  then show ?thesis
    by cases (simp_all add: wire_get_spellings spellings_set_same)
qed

lemma spellings_merge_headers: "length (spellings (merge_headers layers) k) \<le> 1"
proof -
  have d: "distinct (map (\<lambda>(n, v). py_lower n) (merge_headers layers))"
    using merge_headers_lookup by blast
  have "distinct (map (\<lambda>(n, v). py_lower n) (spellings hs k)) \<Longrightarrow> length (spellings hs k) \<le> 1" for hs
  proof -
    assume a: "distinct (map (\<lambda>(n, v). py_lower n) (spellings hs k))"
    have "set (map (\<lambda>(n, v). py_lower n) (spellings hs k)) \<subseteq> {py_lower k}"
      by (auto simp: spellings_def)
    from card_mono [OF _ this] distinct_card [OF a] show ?thesis by simp
  qed
  moreover have "distinct (map (\<lambda>(n, v). py_lower n) (spellings (merge_headers layers) k))"
    using d unfolding spellings_def by (rule distinct_map_filter)
  ultimately show ?thesis .
qed

lemma lower_names:
  "py_lower ''X-Sandbox-ID'' = ''x-sandbox-id''" "py_lower ''X-Sandbox-Namespace'' = ''x-sandbox-namespace''"
  "py_lower ''X-Sandbox-Port'' = ''x-sandbox-port''" "py_lower ''X-Sandbox-Timeout'' = ''x-sandbox-timeout''"
  "py_lower ''X-Sandbox-Pod-IP'' = ''x-sandbox-pod-ip''" "py_lower ''authorization'' = ''authorization''"
  by code_simp+

lemma sandboxd_not_injected:
  "is_sandboxd cfg \<Longrightarrow> \<not> should_inject_router_headers (connection_strategy_of cfg)"
  by (auto simp: is_sandboxd_def connection_strategy_of_def split: connection_config.splits)

lemma request_headers_routing:
  assumes "should_inject_router_headers (c_strategy c)"
    and "request_headers env args c w = (Inr hs, c', w')"
  shows "wire_get hs ''X-Sandbox-ID'' = Some (c_id c)
    \<and> wire_get hs ''X-Sandbox-Namespace'' = Some (c_namespace c)
    \<and> (\<forall>p. server_port_of (c_config c) = Some p \<longrightarrow> wire_get hs ''X-Sandbox-Port'' = Some (show_int p))"
proof -
  define m where "m = merge_headers [Some (extra_headers (c_config c)), ra_headers args,
                              Some (sandboxd_auth_headers (c_config c))]"
  define h1 where "h1 = dict_set ''X-Sandbox-Namespace'' (c_namespace c) (dict_set ''X-Sandbox-ID'' (c_id c) m)"
  define h2 where "h2 = opt_set ''X-Sandbox-Port'' (map_option show_int (server_port_of (c_config c))) h1"
  from assms obtain th where "hs = opt_set ''X-Sandbox-Timeout'' th h2
      \<or> (\<exists>ip. hs = dict_set ''X-Sandbox-Pod-IP'' ip (opt_set ''X-Sandbox-Timeout'' th h2))"
    by (auto simp: request_headers_def Let_def h2_def h1_def m_def split: sum.splits prod.splits if_splits)
  then have eq: "wire_get hs k = wire_get h2 k"
    if "py_lower k \<noteq> ''x-sandbox-timeout''" "py_lower k \<noteq> ''x-sandbox-pod-ip''" for k
    using that by (auto simp: wire_get_set_other wire_get_opt_set_other lower_names)
  have one: "length (spellings m k) \<le> 1" for k unfolding m_def by (rule spellings_merge_headers)
  have oneI: "length (spellings (dict_set ''X-Sandbox-ID'' (c_id c) m) ''X-Sandbox-Namespace'') \<le> 1"
    using one by (subst spellings_set_other) (simp_all only: lower_names, simp)
  have oneP: "length (spellings h1 ''X-Sandbox-Port'') \<le> 1"
    unfolding h1_def using one
    by (subst spellings_set_other, simp only: lower_names, simp)+
  have "wire_get h2 ''X-Sandbox-ID'' = Some (c_id c)"
    using wire_get_set_same [OF one]
    by (simp add: h2_def h1_def wire_get_opt_set_other wire_get_set_other lower_names)
  moreover have "wire_get h2 ''X-Sandbox-Namespace'' = Some (c_namespace c)"
    using wire_get_set_same [OF oneI]
    by (simp add: h2_def h1_def wire_get_opt_set_other lower_names)
  moreover have "wire_get h2 ''X-Sandbox-Port'' = Some (show_int p)" if "server_port_of (c_config c) = Some p" for p
    using wire_get_set_same [OF oneP] by (simp add: that h2_def opt_set_def)
  ultimately show ?thesis by (simp add: eq lower_names)
qed


text \<open>A simulated environment for examples: no callbacks, and every request gets the given response.\<close>

definition sim_env :: "http_response \<Rightarrow> nat env" where
  "sim_env r = \<lparr>e_kube = sim_kube JNull, e_host = sim_host, e_client = None, e_get_pod_ip = None,
     e_get_pod_name = None, e_get_service_fqdn = None, e_http = \<lambda>rq w. (Inr r, w + 1), e_has_grpc = True,
     e_insecure_channel = \<lambda>t w. (w, w + 1), e_intercept = \<lambda>ch a w. (Inr ch, w), e_close_channel = \<lambda>ch w. w\<rparr>"

definition sim_direct :: connection_config where
  "sim_direct = DirectConfig \<lparr>dc_api_url = ''http://r/'', dc_server_port = 8888, dc_extra_headers = [],
     dc_client_cert = None, dc_ca_cert = None\<rparr>"

definition sim_args :: request_args where
  "sim_args = \<lparr>ra_headers = Some [(''x-sandbox-id'', ''evil'')], ra_timeout = TInt 5, ra_stream = False,
     ra_allowed_statuses = None, ra_disable_retries = False, ra_body = NoBody\<rparr>"

definition sim_response :: "int \<Rightarrow> http_response" where
  "sim_response s = \<lparr>rs_status = s, rs_has_location = False, rs_headers = [], rs_body = [], rs_json = None,
     rs_chunks = [], rs_stream_error = None\<rparr>"


section \<open>Redirects and failures\<close>

lemma env_http_sel:
  "e_kube (env\<lparr>e_http := h\<rparr>) = e_kube env" "e_host (env\<lparr>e_http := h\<rparr>) = e_host env"
  "e_client (env\<lparr>e_http := h\<rparr>) = e_client env" "e_get_pod_ip (env\<lparr>e_http := h\<rparr>) = e_get_pod_ip env"
  "e_get_pod_name (env\<lparr>e_http := h\<rparr>) = e_get_pod_name env"
  "e_get_service_fqdn (env\<lparr>e_http := h\<rparr>) = e_get_service_fqdn env"
  "e_http (env\<lparr>e_http := h\<rparr>) = h" "e_close_channel (env\<lparr>e_http := h\<rparr>) = e_close_channel env"
  by simp_all

lemma env_http_other:
  "strategy_connect fuel (env\<lparr>e_http := h\<rparr>) = strategy_connect fuel env"
  "strategy_close (env\<lparr>e_http := h\<rparr>) = strategy_close env"
  "strategy_verify (env\<lparr>e_http := h\<rparr>) = strategy_verify env"
  "close_opt_channel (env\<lparr>e_http := h\<rparr>) = close_opt_channel env"
  unfolding strategy_connect_def [abs_def] strategy_close_def [abs_def] strategy_verify_def [abs_def]
    close_opt_channel_def [abs_def] env_http_sel by (rule refl)+

lemma env_http_connector:
  "connector_connect fuel (env\<lparr>e_http := h\<rparr>) = connector_connect fuel env"
  "connector_close (env\<lparr>e_http := h\<rparr>) = connector_close env"
  "invalidate_sandboxd_transport (env\<lparr>e_http := h\<rparr>) = invalidate_sandboxd_transport env"
  "resolve_pod_ip (env\<lparr>e_http := h\<rparr>) = resolve_pod_ip env"
  unfolding connector_connect_def [abs_def] connector_close_def [abs_def] resolve_pod_ip_def [abs_def]
    invalidate_sandboxd_transport_def [abs_def] env_http_sel env_http_other by (rule refl)+

lemma env_http_request:
  "request_headers (env\<lparr>e_http := h\<rparr>) = request_headers env"
  "request_failed (env\<lparr>e_http := h\<rparr>) = request_failed env"
  unfolding request_headers_def [abs_def] request_failed_def [abs_def] on_request_error_def [abs_def]
    env_http_sel env_http_connector by (rule refl)+

lemma request_failed_not_Inr [simp]: "request_failed env b t e c w = (Inr x, c', w') \<longleftrightarrow> False"
  by (auto simp: request_failed_def split: exn.splits prod.splits)

lemma send_request_cases:
  assumes "send_request fuel env meth endpoint args c w = Some (q, c', w')"
  obtains
    (no_connection) e c1 w1 where "connector_connect fuel env c w = Some (Inl e, c1, w1)"
      "request_failed env False None e c1 w1 = (q, c', w')"
  | (not_verified) base c1 w1 e w2 where "connector_connect fuel env c w = Some (Inr base, c1, w1)"
      "request_failed env False (Some (c_token c1)) e c1 w2 = (q, c', w')"
  | (failed) base c1 w1 w2 x c3 w3 e w4 where "connector_connect fuel env c w = Some (Inr base, c1, w1)"
      "request_headers env args c1 w2 = (x, c3, w3)"
      "request_failed env True (Some (c_token c1)) e c3 w4 = (q, c', w')"
  | (answered) base c1 w1 w2 x w3 r tok where "connector_connect fuel env c w = Some (Inr base, c1, w1)"
      "request_headers env args c1 w2 = (x, c', w3)" "check_response args r = Inr r" "q = Inr (r, tok)"
proof -
  have chk: "check_response args resp = Inr r \<Longrightarrow> r = resp" for resp r
    by (auto simp: check_response_def split: if_splits)
  show thesis
    using assms that chk unfolding send_request_def Let_def
    by (auto split: option.splits prod.splits sum.splits) blast+
qed

lemma send_request_response:
  assumes "send_request fuel env meth endpoint args c w = Some (Inr (r, tok), c', w')"
  shows "check_response args r = Inr r"
  using assms by (cases rule: send_request_cases) auto

text \<open>(C26) Redirects are never followed and never handed on: \<^verbatim>\<open>send_request\<close> puts only requests with redirects
  disabled on the wire (two HTTP layers that agree on those give the same run, whatever the caller
  passed), and the response it returns is no redirect and has an error status only if the caller allowed
  that status.\<close>

theorem send_request_no_redirects:
  assumes "\<And>rq w. \<not> rq_allow_redirects rq \<Longrightarrow> h rq w = e_http env rq w"
  shows "send_request fuel (env\<lparr>e_http := h\<rparr>) meth endpoint args c w = send_request fuel env meth endpoint args c w
    \<and> (case send_request fuel env meth endpoint args c w of
         Some (Inr (r, tok), c', w') \<Rightarrow>
           \<not> is_redirect r
           \<and> (is_error_status r \<longrightarrow> (\<exists>ss. ra_allowed_statuses args = Some ss \<and> rs_status r \<in> set ss))
       | _ \<Rightarrow> True)"
proof
  have "h (request_of c3 args meth url hs) = e_http env (request_of c3 args meth url hs)" for c3 url hs
    using assms by (intro ext) (simp add: request_of_def)
  then show "send_request fuel (env\<lparr>e_http := h\<rparr>) meth endpoint args c w = send_request fuel env meth endpoint args c w"
    unfolding send_request_def env_http_connector env_http_other env_http_request env_http_sel
    by (simp only:)
  show "case send_request fuel env meth endpoint args c w of
         Some (Inr (r, tok), c', w') \<Rightarrow>
           \<not> is_redirect r
           \<and> (is_error_status r \<longrightarrow> (\<exists>ss. ra_allowed_statuses args = Some ss \<and> rs_status r \<in> set ss))
       | _ \<Rightarrow> True"
  proof -
    have "check_response args r = Inr r \<Longrightarrow> \<not> is_redirect r
      \<and> (is_error_status r \<longrightarrow> (\<exists>ss. ra_allowed_statuses args = Some ss \<and> rs_status r \<in> set ss))" for r
      by (auto simp: check_response_def split: if_splits option.splits)
    then show ?thesis
      using send_request_response [of fuel env meth endpoint args c w]
      by (auto split: option.split prod.split sum.split)
  qed
qed

theorem send_request_no_redirects_witness:
  "send_request 0 ((sim_env (sim_response 200))\<lparr>e_http := \<lambda>rq w. if rq_allow_redirects rq then (Inl OSError, w)
        else (Inr (sim_response 200), w + 1)\<rparr>) ''GET'' ''/x'' sim_args (new_connector ''sb'' ''ns'' sim_direct) 0
   = send_request 0 (sim_env (sim_response 200)) ''GET'' ''/x'' sim_args (new_connector ''sb'' ''ns'' sim_direct) 0"
  by (rule send_request_no_redirects [THEN conjunct1]) (simp add: sim_env_def)

text \<open>(C27) What a failed request does to the connection, once it was prepared: a response of 400 to 499 (or a
  redirect) leaves connector and tunnel exactly as they were; one of 500 and above only forgets the pod
  address, in the connector and in the in-cluster strategy, and keeps tunnel, gRPC channel and token; no
  response at all closes the connection, except in the cluster, where only the transport the request
  used is discarded. Each ends in a \<open>SandboxRequestError\<close> with the status.\<close>

theorem send_request_failure:
  assumes "connector_connect fuel env c w = Some (Inr base, c1, w1)"
    and "strategy_verify env (c_strategy c1) w1 = (Inr (), w2)"
    and "request_headers env args c1 w2 = (Inr hs, c3, w3)"
    and "e_http env (request_of c3 args meth (request_url base endpoint) hs) w3 = (x, w4)"
    and "x = Inl (RequestException status)
         \<or> (\<exists>r. x = Inr r \<and> status = Some (rs_status r) \<and> check_response args r \<noteq> Inr r)"
  shows "\<exists>c' w'. send_request fuel env meth endpoint args c w = Some (Inl (SandboxRequestError status), c', w')
    \<and> (case status of
         Some s \<Rightarrow> w' = w4 \<and> (if s < 500 then c' = c3
           else c' = c3\<lparr>c_pod_ip := None, c_pod_ip_resolved := False,
                        c_strategy := invalidate_pod_ip (c_strategy c3)\<rparr>)
       | None \<Rightarrow>
           if is_cluster_strategy (c_strategy c3)
           then (c', w') = invalidate_sandboxd_transport env None (Some (c_token c1)) (drop_pod_ip c3) w4
           else (c', w') = connector_close env (drop_pod_ip c3) w4)"
proof -
  have chk: "check_response args r \<noteq> Inr r \<Longrightarrow> check_response args r = Inl (RequestException (Some (rs_status r)))" for r
    unfolding check_response_def by (simp split: if_splits)
  have "send_request fuel env meth endpoint args c w =
      Some (request_failed env True (Some (c_token c1)) (RequestException status) c3 w4)"
    using assms(5)
  proof (elim disjE exE conjE)
    fix r
    assume r: "x = Inr r" "status = Some (rs_status r)" "check_response args r \<noteq> Inr r"
    then show ?thesis using assms(1-4) chk [OF r(3)] by (simp add: send_request_def)
  qed (use assms(1-4) in \<open>simp add: send_request_def\<close>)
  then show ?thesis
    by (cases status)
       (simp_all add: request_failed_def on_request_error_def drop_pod_ip_def Let_def split: prod.split,
        metis surj_pair)
qed

theorem send_request_failure_witness:
  "\<exists>c' w'. send_request 0 (sim_env (sim_response 404)) ''GET'' ''/x'' sim_args (new_connector ''sb'' ''ns'' sim_direct) 0
     = Some (Inl (SandboxRequestError (Some 404)), c', w')"
proof -
  let ?c = "new_connector ''sb'' ''ns'' sim_direct" and ?e = "sim_env (sim_response 404)"
  have 1: "connector_connect 0 ?e ?c 0 = Some (Inr ''http://r/'', ?c, 0)"
    by (simp add: connector_connect_def strategy_connect_def new_connector_def connection_strategy_of_def sim_direct_def)
  have 2: "strategy_verify ?e (c_strategy ?c) 0 = (Inr (), 0)"
    by (simp add: strategy_verify_def new_connector_def connection_strategy_of_def sim_direct_def)
  have "\<exists>hs. request_headers ?e sim_args ?c 0 = (Inr hs, ?c, 0)"
    by (simp add: request_headers_def Let_def new_connector_def connection_strategy_of_def sim_direct_def
        sim_args_def router_timeout_header_value_def positive_str_def resolve_pod_ip_def sim_env_def)
  then obtain hs where 3: "request_headers ?e sim_args ?c 0 = (Inr hs, ?c, 0)" by blast
  have 4: "e_http ?e rq 0 = (Inr (sim_response 404), 1)" for rq by (simp add: sim_env_def)
  have 5: "check_response sim_args (sim_response 404) \<noteq> Inr (sim_response 404)"
    by (simp add: check_response_def is_redirect_def sim_response_def sim_args_def is_error_status_def)
  show ?thesis
    using send_request_failure [OF 1 2 3 4, of "Some 404"] 5 by (auto simp: sim_response_def)
qed

section \<open>The transport token\<close>

text \<open>Any sequence of the connector's operations, in any worlds.\<close>

inductive conn_steps :: "'w env \<Rightarrow> connector \<Rightarrow> connector \<Rightarrow> bool" for env c where
  steps_refl: "conn_steps env c c"
| steps_connect: "conn_steps env c c1 \<Longrightarrow> connector_connect fuel env c1 w = Some (r, c2, w') \<Longrightarrow> conn_steps env c c2"
| steps_close: "conn_steps env c c1 \<Longrightarrow> connector_close env c1 w = (c2, w') \<Longrightarrow> conn_steps env c c2"
| steps_invalidate: "conn_steps env c c1 \<Longrightarrow> invalidate_sandboxd_transport env ch tok c1 w = (c2, w') \<Longrightarrow>
    conn_steps env c c2"
| steps_grpc: "conn_steps env c c1 \<Longrightarrow> grpc_channel env c1 w = (r2, c2, w') \<Longrightarrow> conn_steps env c c2"
| steps_send: "conn_steps env c c1 \<Longrightarrow> send_request fuel env meth endpoint args c1 w = Some (r3, c2, w') \<Longrightarrow>
    conn_steps env c c2"

text \<open>Either the token and the target are as before, or the token is a new one.\<close>

definition token_rel :: "connector \<Rightarrow> connector \<Rightarrow> bool" where
  "token_rel c c' =
     (c_fresh c \<le> c_fresh c'
      \<and> (c_token c' = c_token c \<and> c_incluster_target c' = c_incluster_target c
         \<or> c_fresh c \<le> c_token c' \<and> c_token c' < c_fresh c'))"

lemma token_rel_refl [simp]: "token_rel c c"
  by (simp add: token_rel_def)

lemma token_rel_trans: "token_rel c c1 \<Longrightarrow> token_rel c1 c2 \<Longrightarrow> token_rel c c2"
  by (auto simp: token_rel_def)

lemma token_rel_connect: "connector_connect fuel env c w = Some (r, c', w') \<Longrightarrow> token_rel c c'"
  by (auto simp: connector_connect_def fresh_token_def token_rel_def Let_def
      split: option.splits prod.splits sum.splits if_splits)

lemma token_rel_close: "connector_close env c w = (c', w') \<Longrightarrow> token_rel c c'"
  by (auto simp: connector_close_def fresh_token_def drop_channel_def token_rel_def Let_def
      split: prod.splits if_splits)

lemma token_rel_invalidate: "invalidate_sandboxd_transport env ch tok c w = (c', w') \<Longrightarrow> token_rel c c'"
  by (auto simp: invalidate_sandboxd_transport_def fresh_token_def drop_channel_def token_rel_def
      split: if_splits)

lemma token_rel_grpc: "grpc_channel env c w = (r, c', w') \<Longrightarrow> token_rel c c'"
  by (auto simp: grpc_channel_def drop_channel_def token_rel_def Let_def split: if_splits prod.splits sum.splits)

lemma token_rel_headers: "request_headers env args c w = (r, c', w') \<Longrightarrow> token_rel c c'"
  by (auto simp: request_headers_def resolve_pod_ip_def token_rel_def Let_def
      split: if_splits prod.splits sum.splits option.splits)

lemma token_rel_drop_pod_ip: "token_rel c (c\<lparr>c_pod_ip_resolved := False, c_pod_ip := None\<rparr>)"
  by (simp add: token_rel_def)

lemma token_rel_failed: "request_failed env b t e c w = (r, c', w') \<Longrightarrow> token_rel c c'"
proof -
  have "token_rel (drop_pod_ip c) c' \<Longrightarrow> token_rel c c'" for c c'
    by (simp add: token_rel_def drop_pod_ip_def)
  then show "request_failed env b t e c w = (r, c', w') \<Longrightarrow> token_rel c c'"
    by (cases e)
       (auto simp: request_failed_def on_request_error_def Let_def token_rel_def [of c "_\<lparr>c_strategy := _\<rparr>"] drop_pod_ip_def
        split: prod.splits option.splits if_splits
        intro: token_rel_close token_rel_invalidate)
qed

lemma token_rel_steps: "conn_steps env c c' \<Longrightarrow> token_rel c c'"
proof (induction rule: conn_steps.induct)
  case (steps_send c1 fuel meth endpoint args w r3 c2 w')
  from steps_send(2) have "token_rel c1 c2"
    by (cases rule: send_request_cases)
       (blast intro: token_rel_trans token_rel_connect token_rel_failed token_rel_headers)+
  with steps_send show ?case by (blast intro: token_rel_trans)
qed (use token_rel_refl token_rel_trans token_rel_connect token_rel_close token_rel_invalidate token_rel_grpc in metis)+


definition sim_cluster :: connector where
  "sim_cluster = (new_connector ''sb'' ''ns'' (SandboxdInClusterConfig \<lparr>sc_auth_token = None,
     sc_mode = InClusterPodIP, sc_rest_port = 1, sc_grpc_port = 2\<rparr>))\<lparr>c_incluster_target := Some ''t''\<rparr>"


section \<open>The gRPC channel\<close>

text \<open>The channel \<^verbatim>\<open>grpc_channel\<close> returns is always one to the strategy's current target: the cached one only
  while the target is unchanged (then nothing is opened or closed), otherwise a new one, and the stale
  one is closed first and forgotten even if opening fails.\<close>

lemma grpc_channel_spec:
  "case grpc_channel env c w of
     (Inr ch, c', w') \<Rightarrow>
       c_grpc_channel c' = Some ch \<and> c_grpc_channel_target c' = strategy_grpc_target (c_strategy c)
       \<and> str_true (strategy_grpc_target (c_strategy c)) \<and> c_strategy c' = c_strategy c
       \<and> (if c_grpc_channel c \<noteq> None \<and> c_grpc_channel_target c = strategy_grpc_target (c_strategy c)
          then c' = c \<and> w' = w
          else open_channel env (c_config c) (the (strategy_grpc_target (c_strategy c)))
                 (close_opt_channel env (c_grpc_channel c) w) = (Inr ch, w'))
   | (Inl e, c', w') \<Rightarrow>
       (if is_sandboxd (c_config c) \<and> str_true (strategy_grpc_target (c_strategy c)) \<and> c_grpc_channel c \<noteq> None
        then c' = drop_channel c else c' = c)"
  by (auto simp: grpc_channel_def drop_channel_def Let_def split: prod.split sum.split)

section \<open>Error bodies\<close>

lemma capture_loop_prefix:
  "length acc \<le> ERROR_BODY_LIMIT \<Longrightarrow> capture_loop chunks False acc = Some (take ERROR_BODY_LIMIT (acc @ concat chunks))"
proof (induction chunks arbitrary: acc)
  case (Cons chunk rest)
  show ?case
  proof (cases "length acc < ERROR_BODY_LIMIT \<and> chunk \<noteq> []")
    case True
    let ?acc = "acc @ take (ERROR_BODY_LIMIT - length acc) chunk"
    show ?thesis
    proof (cases "length ?acc \<ge> ERROR_BODY_LIMIT")
      case full: True
      with True have "length chunk \<ge> ERROR_BODY_LIMIT - length acc" by auto
      with True full show ?thesis by (simp add: Let_def)
    next
      case False
      then have "length chunk < ERROR_BODY_LIMIT - length acc" using True by auto
      with True False Cons.IH [of ?acc] show ?thesis by (simp add: Let_def)
    qed
  qed (use Cons in auto)
qed simp

text \<open>The error body kept from a streamed response is the first 64 KiB of it, however it is chunked; and
  when the stream breaks off the capture gives either exactly those 64 KiB or nothing.\<close>

lemma capture_streamed_error_body_spec:
  "capture_streamed_error_body chunks False = Some (take ERROR_BODY_LIMIT (concat chunks))
   \<and> capture_streamed_error_body chunks True \<in>
       {None, Some (take ERROR_BODY_LIMIT (concat chunks))}"
proof
  have raises: "capture_loop cs True acc = None \<or> capture_loop cs True acc = capture_loop cs False acc" for cs acc
    by (induction cs arbitrary: acc) (auto simp: Let_def)
  show 1: "capture_streamed_error_body chunks False = Some (take ERROR_BODY_LIMIT (concat chunks))"
    by (simp add: capture_streamed_error_body_def capture_loop_prefix)
  show "capture_streamed_error_body chunks True \<in> {None, Some (take ERROR_BODY_LIMIT (concat chunks))}"
    using 1 raises [of chunks "[]"] by (auto simp: capture_streamed_error_body_def)
qed

end
