(* ===== verification/Sandbox_Client.thy ===== *)
theory Sandbox_Client
  imports Connector
begin

text \<open>
  \<^verbatim>\<open>sandbox.py\<close> and \<^verbatim>\<open>sandbox_client.py\<close>: the handle of a sandbox and the client's registry of handles. The
  handles live in a store and the registry refers to them by address, because a handle is shared
  between the registry and the program that uses it: \<^verbatim>\<open>terminate\<close> on a handle changes the registry, and
  a handle that was replaced stays in use.
\<close>

section \<open>Handles\<close>

text \<open>\<open>s_engines\<close>: the command, file and watch engines are set; \<open>s_hook\<close>: \<^verbatim>\<open>_on_terminated\<close> is set.\<close>

record handle =
  s_claim_name :: "string option"
  s_sandbox_id :: string
  s_namespace :: string
  s_connector :: connector
  s_engines :: bool
  s_is_closed :: bool
  s_pod_name :: "string option"
  s_name_hash :: "string option"
  s_hook :: bool

definition new_handle :: "string \<Rightarrow> string \<Rightarrow> string \<Rightarrow> connection_config \<Rightarrow> handle" where
  "new_handle claim_name sandbox_id ns cfg =
     \<lparr>s_claim_name = Some claim_name, s_sandbox_id = sandbox_id, s_namespace = ns,
      s_connector = new_connector sandbox_id ns cfg, s_engines = True, s_is_closed = False,
      s_pod_name = None, s_name_hash = None, s_hook = False\<rparr>"

definition is_active :: "handle \<Rightarrow> bool" where
  "is_active h = (\<not> s_is_closed h \<and> s_engines h)"

definition POD_NAME_ANNOTATION :: string where
  "POD_NAME_ANNOTATION = ''agents.x-k8s.io/pod-name''"

definition or_empty_obj :: "json option \<Rightarrow> json" where
  "or_empty_obj j = (case j of None \<Rightarrow> JObj [] | Some x \<Rightarrow> jor x (JObj []))"

text \<open>\<^verbatim>\<open>get_pod_name\<close> caches its answer in the handle; the name is the legacy annotation if that is set.\<close>

definition annotated_pod_name :: "json \<Rightarrow> json res" where
  "annotated_pod_name sandbox_object =
     bindE (jget sandbox_object ''metadata'') (\<lambda>md.
     bindE (jget (jor md (JObj [])) ''annotations'') (\<lambda>as.
     jget (jor as (JObj [])) POD_NAME_ANNOTATION))"

definition as_str :: "json \<Rightarrow> string" where
  "as_str j = (case j of JStr s \<Rightarrow> s | _ \<Rightarrow> [])"

definition get_pod_name :: "'w kube \<Rightarrow> handle \<Rightarrow> 'w \<Rightarrow> string res \<times> handle \<times> 'w" where
  "get_pod_name api h w =
     (case s_pod_name h of
        Some n \<Rightarrow> (Inr n, h, w)
      | None \<Rightarrow>
          (case get_sandbox_object api (s_sandbox_id h) (s_namespace h) w of
             (Inl e, w1) \<Rightarrow> (Inl e, h, w1)
           | (Inr obj, w1) \<Rightarrow>
               (case annotated_pod_name (or_empty_obj obj) of
                  Inl e \<Rightarrow> (Inl e, h, w1)
                | Inr pod_name \<Rightarrow>
                    (let n = (if truthy pod_name then as_str pod_name else s_sandbox_id h) in
                     (Inr n, h\<lparr>s_pod_name := Some n\<rparr>, w1)))))"

definition get_sandbox_name_hash :: "'w kube \<Rightarrow> handle \<Rightarrow> 'w \<Rightarrow> string option res \<times> handle \<times> 'w" where
  "get_sandbox_name_hash api h w =
     (case s_name_hash h of
        Some n \<Rightarrow> (Inr (Some n), h, w)
      | None \<Rightarrow>
          (case get_sandbox_object api (s_sandbox_id h) (s_namespace h) w of
             (Inl e, w1) \<Rightarrow> (Inl e, h, w1)
           | (Inr obj, w1) \<Rightarrow>
               (case extract_sandbox_name_hash (or_empty_obj obj) of
                  Inl e \<Rightarrow> (Inl e, h, w1)
                | Inr n \<Rightarrow> (Inr n, if str_true n then h\<lparr>s_name_hash := n\<rparr> else h, w1))))"

definition get_pod_ip :: "'w kube \<Rightarrow> handle \<Rightarrow> ('w, exn, string option) exec" where
  "get_pod_ip api h =
     bindX (get_sandbox_object api (s_sandbox_id h) (s_namespace h)) (\<lambda>obj. liftX (
       bindE (jget (or_empty_obj obj) ''status'') (\<lambda>st.
       bindE (jget_dflt (jor st (JObj [])) ''podIPs'' (JList [])) select_pod_ip)))"

definition get_service_fqdn :: "'w kube \<Rightarrow> handle \<Rightarrow> ('w, exn, string option) exec" where
  "get_service_fqdn api h =
     bindX (get_sandbox_object api (s_sandbox_id h) (s_namespace h)) (\<lambda>obj. liftX (
       bindE (jget (or_empty_obj obj) ''status'') (\<lambda>st.
       bindE (jget (jor st (JObj [])) ''serviceFQDN'') (\<lambda>fqdn.
         Inr (case fqdn of JStr s \<Rightarrow> if s \<noteq> [] then Some s else None | _ \<Rightarrow> None)))))"

fun status_of_conditions :: "json list \<Rightarrow> (string \<times> json) res" where
  "status_of_conditions [] = Inr (''SandboxNotReady'', JStr ''Unknown message'')"
| "status_of_conditions (cond # conds) =
     bindE (jget cond ''type'') (\<lambda>ty.
       if ty = JStr ''Ready'' then
         bindE (jget_dflt cond ''message'' (JStr [])) (\<lambda>message.
         bindE (jget cond ''status'') (\<lambda>st.
           Inr (if st = JStr ''True'' then ''SandboxReady'' else ''SandboxNotReady'', message)))
       else status_of_conditions conds)"

definition sandbox_status :: "'w kube \<Rightarrow> handle \<Rightarrow> ('w, exn, string \<times> json) exec" where
  "sandbox_status api h =
     bindX (get_sandbox_object api (s_sandbox_id h) (s_namespace h)) (\<lambda>obj.
       case obj of
         None \<Rightarrow> retX (''SandboxNotFound'', JStr ''Sandbox object not found in Kubernetes.'')
       | Some j \<Rightarrow>
           (if \<not> truthy j then retX (''SandboxNotFound'', JStr ''Sandbox object not found in Kubernetes.'')
            else liftX (
              bindE (jget j ''status'') (\<lambda>st.
              bindE (jget (jor st (JObj [])) ''conditions'') (\<lambda>cs.
              bindE (jiter (jor cs (JList []))) status_of_conditions)))))"

definition close_connection :: "'w env \<Rightarrow> handle \<Rightarrow> 'w \<Rightarrow> handle \<times> 'w" where
  "close_connection env h w =
     (if s_is_closed h then (h, w)
      else case connector_close env (s_connector h) w of (c, w1) \<Rightarrow>
        (h\<lparr>s_pod_name := None, s_connector := c, s_engines := False, s_is_closed := True\<rparr>, w1))"

section \<open>The client\<close>

type_synonym claim_key = "string \<times> string"

record client =
  cl_config :: connection_config
  cl_store :: "(nat, handle) dict"
  cl_next :: nat
  cl_registry :: "(claim_key, nat) dict"
  cl_explicit :: "claim_key list"

definition new_client :: "connection_config \<Rightarrow> client" where
  "new_client cfg = \<lparr>cl_config = cfg, cl_store = [], cl_next = 0, cl_registry = [], cl_explicit = []\<rparr>"

definition handle_at :: "client \<Rightarrow> nat \<Rightarrow> handle option" where
  "handle_at cl a = dict_get (cl_store cl) a"

definition set_handle :: "nat \<Rightarrow> handle \<Rightarrow> client \<Rightarrow> client" where
  "set_handle a h cl = cl\<lparr>cl_store := dict_set a h (cl_store cl)\<rparr>"

text \<open>Constructing a handle puts it at a new address.\<close>

definition alloc_handle :: "string \<Rightarrow> string \<Rightarrow> string \<Rightarrow> client \<Rightarrow> nat \<times> client" where
  "alloc_handle claim_name sandbox_id ns cl =
     (cl_next cl,
      set_handle (cl_next cl) (new_handle claim_name sandbox_id ns (cl_config cl)) cl
        \<lparr>cl_next := Suc (cl_next cl)\<rparr>)"

text \<open>Tracking a handle: the hook is set and the registry entry written.\<close>

definition track :: "claim_key \<Rightarrow> nat \<Rightarrow> client \<Rightarrow> client" where
  "track key a cl =
     (case handle_at cl a of
        None \<Rightarrow> cl
      | Some h \<Rightarrow> (set_handle a (h\<lparr>s_hook := True\<rparr>) cl)\<lparr>cl_registry := dict_set key a (cl_registry cl)\<rparr>)"

definition close_at :: "'w env \<Rightarrow> nat \<Rightarrow> client \<Rightarrow> 'w \<Rightarrow> client \<times> 'w" where
  "close_at env a cl w =
     (case handle_at cl a of
        None \<Rightarrow> (cl, w)
      | Some h \<Rightarrow> (case close_connection env h w of (h', w') \<Rightarrow> (set_handle a h' cl, w')))"

definition untrack :: "nat \<Rightarrow> handle \<Rightarrow> client \<Rightarrow> client" where
  "untrack a h cl =
     (case s_claim_name h of
        None \<Rightarrow> cl
      | Some n \<Rightarrow>
          (if dict_get (cl_registry cl) (s_namespace h, n) = Some a
           then cl\<lparr>cl_registry := dict_pop (s_namespace h, n) (cl_registry cl)\<rparr> else cl))"

definition terminate :: "'w env \<Rightarrow> nat \<Rightarrow> client \<Rightarrow> 'w \<Rightarrow> unit res \<times> client \<times> 'w" where
  "terminate env a cl w =
     (case handle_at cl a of
        None \<Rightarrow> (Inr (), cl, w)
      | Some h0 \<Rightarrow>
          (case close_connection env h0 w of (h, w1) \<Rightarrow>
             (let cl1 = set_handle a h cl in
              if \<not> str_true (s_claim_name h) then (Inr (), cl1, w1)
              else case delete_sandbox_claim (e_kube env) (the (s_claim_name h)) (s_namespace h) None w1 of
                (Inl e, w2) \<Rightarrow> (Inl e, cl1, w2)
              | (Inr _, w2) \<Rightarrow>
                  (let cl2 = (if s_hook h then untrack a h cl1 else cl1) in
                   (Inr (), set_handle a (h\<lparr>s_hook := False, s_claim_name := None\<rparr>) cl2, w2)))))"

text \<open>The platform: the environment of the connectors, \<^verbatim>\<open>uuid.uuid4().hex[:8]\<close>, and the trace context that
  tracing, if it is on, adds to a claim.\<close>

record 'w platform =
  pf_env :: "'w env"
  pf_uuid :: "'w \<Rightarrow> string \<times> 'w"
  pf_trace :: "'w \<Rightarrow> string option \<times> 'w"

abbreviation pf_kube :: "'w platform \<Rightarrow> 'w kube" where
  "pf_kube pf \<equiv> e_kube (pf_env pf)"

record create_args =
  cr_warmpool :: string
  cr_namespace :: string
  cr_timeout :: rat
  cr_labels :: "(string, string) dict option"
  cr_claim_name :: "string option"
  cr_adopt_existing :: bool
  cr_shutdown :: "json option"
  cr_templates :: "json list option"
  cr_pod_labels :: "(string, string) dict option"
  cr_pod_annotations :: "(string, string) dict option"
  cr_env :: "(string, string) dict option"

definition create_claim ::
  "'w platform \<Rightarrow> create_args \<Rightarrow> string \<Rightarrow> json option \<Rightarrow> additional_pod_metadata option \<Rightarrow> ('w, exn, json) exec"
where
  "create_claim pf args claim_name lifecycle pod_metadata w =
     (case pf_trace pf w of (ctx, w1) \<Rightarrow>
        create_sandbox_claim (pf_kube pf) claim_name (cr_warmpool args) (cr_namespace args)
          \<lparr>ca_annotations = Some (if str_true ctx then [(''opentelemetry.io/trace-context'', the ctx)] else []),
           ca_labels = cr_labels args, ca_lifecycle = lifecycle,
           ca_volume_claim_templates = cr_templates args, ca_pod_metadata = pod_metadata,
           ca_env = cr_env args\<rparr> w1)"

text \<open>The lifecycle reads the clock only for a positive integer.\<close>

definition lifecycle_of :: "'w kube \<Rightarrow> json option \<Rightarrow> ('w, exn, json option) exec" where
  "lifecycle_of api shutdown w =
     (case shutdown of
        None \<Rightarrow> (Inr None, w)
      | Some j \<Rightarrow>
          (case j of
             JInt n \<Rightarrow>
               (if n \<le> 0 then (Inl ValueError, w)
                else case k_utcnow api w of (now, w1) \<Rightarrow>
                  (bindE (construct_sandbox_claim_lifecycle_spec now j) (\<lambda>l. Inr (Some l)), w1))
           | _ \<Rightarrow> (Inl ValueError, w)))"

text \<open>The checks before anything is sent: pod metadata, lifecycle and the claim's name.\<close>

definition create_checks ::
  "'w platform \<Rightarrow> create_args \<Rightarrow> client \<Rightarrow> 'w
   \<Rightarrow> (additional_pod_metadata option \<times> json option \<times> string) res \<times> client \<times> 'w"
where
  "create_checks pf args cl w =
     (case bindE (guardE (cr_warmpool args \<noteq> []) ValueError) (\<lambda>_.
           bindE (if dict_true (cr_labels args) then validate_labels (the (cr_labels args)) else Inr ()) (\<lambda>_.
           build_pod_metadata (cr_pod_labels args) (cr_pod_annotations args))) of
        Inl e \<Rightarrow> (Inl e, cl, w)
      | Inr pod_metadata \<Rightarrow>
          (case lifecycle_of (pf_kube pf) (cr_shutdown args) w of
             (Inl e, w1) \<Rightarrow> (Inl e, cl, w1)
           | (Inr lifecycle, w1) \<Rightarrow>
               (if cr_adopt_existing args \<and> cr_claim_name args = None then (Inl ValueError, cl, w1)
                else case cr_claim_name args of
                  None \<Rightarrow>
                    (case pf_uuid pf w1 of (u, w2) \<Rightarrow>
                       (Inr (pod_metadata, lifecycle, ''sandbox-claim-'' @ u), cl, w2))
                | Some n \<Rightarrow>
                    (case validate_claim_name (JStr n) of
                       Inl e \<Rightarrow> (Inl e, cl, w1)
                     | Inr _ \<Rightarrow>
                         (Inr (pod_metadata, lifecycle, n),
                          cl\<lparr>cl_explicit := List.insert (cr_namespace args, n) (cl_explicit cl)\<rparr>, w1)))))"

text \<open>The \<^verbatim>\<open>create\<close> call with its 409 handler: whether a roll-back is due if a later step fails, and the claim.\<close>

definition create_or_adopt ::
  "'w platform \<Rightarrow> create_args \<Rightarrow> string \<Rightarrow> json option \<Rightarrow> additional_pod_metadata option \<Rightarrow> 'w
   \<Rightarrow> json res \<times> bool \<times> 'w"
where
  "create_or_adopt pf args claim_name lifecycle pod_metadata w =
     (let generated = (cr_claim_name args = None) in
      case create_claim pf args claim_name lifecycle pod_metadata w of
        (Inr claim, w1) \<Rightarrow> (Inr claim, generated, w1)
      | (Inl e, w1) \<Rightarrow>
          (if e = ApiException 409 then
             (if cr_adopt_existing args then
                (case get_sandbox_claim (pf_kube pf) claim_name (cr_namespace args) w1 of
                   (Inl e', w2) \<Rightarrow> (Inl e', False, w2)
                 | (Inr c, w2) \<Rightarrow> (Inr (case c of None \<Rightarrow> JNull | Some j \<Rightarrow> j), False, w2))
              else (Inl e, False, w1))
           else (Inl e, generated, w1)))"

text \<open>resourceVersion and UID of the claim; a claim that is no object has neither.\<close>

definition claim_identity :: "json \<Rightarrow> (json \<times> json) res" where
  "claim_identity claim =
     (case claim of
        JObj kvs \<Rightarrow>
          bindE (jget claim ''metadata'') (\<lambda>md.
          bindE (jget (jor md (JObj [])) ''resourceVersion'') (\<lambda>rv.
          bindE (jget (jor md (JObj [])) ''uid'') (\<lambda>uid. Inr (rv, uid))))
      | _ \<Rightarrow> Inr (JNull, JNull))"

definition uid_opt :: "json \<Rightarrow> string option" where
  "uid_opt uid = (case uid of JStr u \<Rightarrow> Some u | _ \<Rightarrow> None)"

text \<open>From the claim to its sandbox: the result, the UID known by then, and the world.\<close>

definition await_claim ::
  "nat \<Rightarrow> 'w platform \<Rightarrow> create_args \<Rightarrow> string \<Rightarrow> json \<Rightarrow> 'w \<Rightarrow> (json res \<times> json \<times> 'w) option"
where
  "await_claim fuel pf args claim_name claim w =
     (let generated = (cr_claim_name args = None) in
      case bindE (if generated then Inr () else validate_claim_for_adoption claim (cr_warmpool args))
             (\<lambda>_. claim_identity claim) of
        Inl e \<Rightarrow> Some (Inl e, JNull, w)
      | Inr (rv, uid) \<Rightarrow>
          map_option (\<lambda>(r, w'). (r, uid, w'))
            (wait_for_claim_ready fuel (pf_kube pf) claim_name (cr_namespace args) (cr_timeout args) rv
               (if generated then None else uid_opt uid) (if generated then None else Some claim) False w))"

definition roll_back :: "'w platform \<Rightarrow> bool \<Rightarrow> string \<Rightarrow> string \<Rightarrow> json \<Rightarrow> 'w \<Rightarrow> 'w" where
  "roll_back pf due claim_name ns uid w =
     (if due then snd (delete_sandbox_claim (pf_kube pf) claim_name ns (if truthy uid then uid_opt uid else None) w)
      else w)"

definition reusable :: "client \<Rightarrow> claim_key \<Rightarrow> string \<Rightarrow> nat option" where
  "reusable cl key sandbox_id =
     (case dict_get (cl_registry cl) key of
        None \<Rightarrow> None
      | Some a \<Rightarrow>
          (case handle_at cl a of
             None \<Rightarrow> None
           | Some h \<Rightarrow> if is_active h \<and> s_sandbox_id h = sandbox_id then Some a else None))"

definition register_new :: "'w env \<Rightarrow> claim_key \<Rightarrow> string \<Rightarrow> client \<Rightarrow> 'w \<Rightarrow> nat \<times> client \<times> 'w" where
  "register_new env key sandbox_id cl w =
     (case alloc_handle (snd key) sandbox_id (fst key) cl of (a, cl1) \<Rightarrow>
        let previous = dict_get (cl_registry cl1) key; cl2 = track key a cl1 in
        case previous of
          None \<Rightarrow> (a, cl2, w)
        | Some p \<Rightarrow> (case close_at env p cl2 w of (cl3, w1) \<Rightarrow> (a, cl3, w1)))"

definition create_sandbox ::
  "nat \<Rightarrow> 'w platform \<Rightarrow> create_args \<Rightarrow> client \<Rightarrow> 'w \<Rightarrow> (nat res \<times> client \<times> 'w) option"
where
  "create_sandbox fuel pf args cl w =
     (case create_checks pf args cl w of
        (Inl e, cl1, w1) \<Rightarrow> Some (Inl e, cl1, w1)
      | (Inr (pod_metadata, lifecycle, claim_name), cl1, w1) \<Rightarrow>
          (let ns = cr_namespace args in
           case create_or_adopt pf args claim_name lifecycle pod_metadata w1 of
             (Inl e, due, w2) \<Rightarrow> Some (Inl e, cl1, roll_back pf due claim_name ns JNull w2)
           | (Inr claim, due, w2) \<Rightarrow>
               (case await_claim fuel pf args claim_name claim w2 of
                  None \<Rightarrow> None
                | Some (Inl e, uid, w3) \<Rightarrow> Some (Inl e, cl1, roll_back pf due claim_name ns uid w3)
                | Some (Inr name, uid, w3) \<Rightarrow>
                    (case reusable cl1 (ns, claim_name) (as_str name) of
                       Some a \<Rightarrow> Some (Inr a, cl1, w3)
                     | None \<Rightarrow>
                         (case register_new (pf_env pf) (ns, claim_name) (as_str name) cl1 w3 of
                            (a, cl2, w4) \<Rightarrow> Some (Inr a, cl2, w4))))))"

section \<open>Finding, listing and deleting\<close>

text \<open>The lookup of \<^verbatim>\<open>get_sandbox\<close>: any failure closes the known handle and becomes \<open>SandboxNotFoundError\<close>.\<close>

definition lookup_sandbox ::
  "nat \<Rightarrow> 'w kube \<Rightarrow> string \<Rightarrow> string \<Rightarrow> rat \<Rightarrow> 'w \<Rightarrow> (string res \<times> 'w) option"
where
  "lookup_sandbox fuel api claim_name ns timeout w =
     (case resolve_sandbox_name fuel api claim_name ns timeout JNull w of
        None \<Rightarrow> None
      | Some (Inl e, w1) \<Rightarrow> Some (Inl e, w1)
      | Some (Inr name, w1) \<Rightarrow>
          (case get_sandbox_object api (as_str name) ns w1 of
             (Inl e, w2) \<Rightarrow> Some (Inl e, w2)
           | (Inr obj, w2) \<Rightarrow>
               (if (case obj of None \<Rightarrow> False | Some j \<Rightarrow> truthy j) then Some (Inr (as_str name), w2)
                else Some (Inl SandboxNotFoundError, w2))))"

definition get_sandbox ::
  "nat \<Rightarrow> 'w platform \<Rightarrow> string \<Rightarrow> string \<Rightarrow> rat \<Rightarrow> client \<Rightarrow> 'w \<Rightarrow> (nat res \<times> client \<times> 'w) option"
where
  "get_sandbox fuel pf claim_name ns timeout cl w =
     (let key = (ns, claim_name); existing = dict_get (cl_registry cl) key in
      case lookup_sandbox fuel (pf_kube pf) claim_name ns timeout w of
        None \<Rightarrow> None
      | Some (Inl e, w1) \<Rightarrow>
          (case existing of
             None \<Rightarrow> Some (Inl SandboxNotFoundError, cl, w1)
           | Some a \<Rightarrow>
               (case close_at (pf_env pf) a cl w1 of (cl', w2) \<Rightarrow> Some (Inl SandboxNotFoundError, cl', w2)))
      | Some (Inr sandbox_id, w1) \<Rightarrow>
          (case existing of
             Some a \<Rightarrow>
               (if (case handle_at cl a of None \<Rightarrow> False | Some h \<Rightarrow> is_active h) then Some (Inr a, cl, w1)
                else case alloc_handle claim_name sandbox_id ns (cl\<lparr>cl_registry := dict_pop key (cl_registry cl)\<rparr>) of
                  (a', cl') \<Rightarrow> Some (Inr a', track key a' cl', w1))
           | None \<Rightarrow>
               (case alloc_handle claim_name sandbox_id ns cl of (a', cl') \<Rightarrow> Some (Inr a', track key a' cl', w1))))"

definition list_active_sandboxes :: "client \<Rightarrow> claim_key list \<times> client" where
  "list_active_sandboxes cl =
     (let reg = filter (\<lambda>(k, a). case handle_at cl a of None \<Rightarrow> False | Some h \<Rightarrow> is_active h) (cl_registry cl) in
      (map fst reg, cl\<lparr>cl_registry := reg\<rparr>))"

definition delete_sandbox :: "'w platform \<Rightarrow> string \<Rightarrow> string \<Rightarrow> client \<Rightarrow> 'w \<Rightarrow> client \<times> 'w" where
  "delete_sandbox pf claim_name ns cl w =
     (case dict_get (cl_registry cl) (ns, claim_name) of
        None \<Rightarrow> (cl, snd (delete_sandbox_claim (pf_kube pf) claim_name ns None w))
      | Some a \<Rightarrow>
          (case terminate (pf_env pf) a cl w of
             (Inl e, cl1, w1) \<Rightarrow> (cl1, w1)
           | (Inr _, cl1, w1) \<Rightarrow> (cl1\<lparr>cl_registry := dict_pop (ns, claim_name) (cl_registry cl1)\<rparr>, w1)))"

fun delete_each :: "'w platform \<Rightarrow> claim_key list \<Rightarrow> client \<Rightarrow> 'w \<Rightarrow> client \<times> 'w" where
  "delete_each pf [] cl w = (cl, w)"
| "delete_each pf ((ns, n) # keys) cl w =
     (case delete_sandbox pf n ns cl w of (cl1, w1) \<Rightarrow> delete_each pf keys cl1 w1)"

definition delete_all :: "'w platform \<Rightarrow> client \<Rightarrow> 'w \<Rightarrow> client \<times> 'w" where
  "delete_all pf cl w = delete_each pf (map fst (cl_registry cl)) cl w"

fun cleanup_each :: "'w platform \<Rightarrow> (claim_key \<times> nat) list \<Rightarrow> client \<Rightarrow> 'w \<Rightarrow> client \<times> 'w" where
  "cleanup_each pf [] cl w = (cl, w)"
| "cleanup_each pf (((ns, n), a) # entries) cl w =
     (case (if (ns, n) \<in> set (cl_explicit cl) then close_at (pf_env pf) a cl w else delete_sandbox pf n ns cl w) of
        (cl1, w1) \<Rightarrow> cleanup_each pf entries cl1 w1)"

definition delete_automatic_sandboxes :: "'w platform \<Rightarrow> client \<Rightarrow> 'w \<Rightarrow> client \<times> 'w" where
  "delete_automatic_sandboxes pf cl w = cleanup_each pf (cl_registry cl) cl w"

definition get_sandbox_claim_warmpool_name :: "'w kube \<Rightarrow> string \<Rightarrow> string \<Rightarrow> ('w, exn, string) exec" where
  "get_sandbox_claim_warmpool_name api claim_name ns =
     bindX (get_sandbox_claim api claim_name ns) (\<lambda>c.
       if (case c of None \<Rightarrow> True | Some j \<Rightarrow> \<not> truthy j) then raiseX SandboxNotFoundError
       else liftX (
         bindE (jget_dflt (the c) ''spec'' (JObj [])) (\<lambda>spec.
         bindE (jget_dflt spec ''warmPoolRef'' (JObj [])) (\<lambda>ref.
         bindE (jget ref ''name'') (\<lambda>n.
           case n of JStr s \<Rightarrow> (if s = [] then Inl SandboxMetadataError else Inr s)
           | _ \<Rightarrow> Inl SandboxMetadataError)))))"

section \<open>The registry is consistent\<close>

text \<open>Every entry refers to a stored handle for exactly that claim which will report its termination, and
  addresses are handed out once.\<close>

definition tracked :: "client \<Rightarrow> claim_key \<Rightarrow> nat \<Rightarrow> bool" where
  "tracked cl key a =
     (case handle_at cl a of None \<Rightarrow> False
      | Some h \<Rightarrow> s_claim_name h = Some (snd key) \<and> s_namespace h = fst key \<and> s_hook h)"

definition client_ok :: "client \<Rightarrow> bool" where
  "client_ok cl =
     (dict_ok (cl_registry cl)
      \<and> (\<forall>(key, a) \<in> set (cl_registry cl). tracked cl key a)
      \<and> (\<forall>a \<in> set (map fst (cl_store cl)). a < cl_next cl))"

lemma handle_at_set [simp]: "handle_at (set_handle a h cl) b = (if b = a then Some h else handle_at cl b)"
  by (simp add: handle_at_def set_handle_def update_conv)

lemma handle_at_fields [simp]:
  "handle_at (cl\<lparr>cl_registry := r\<rparr>) = handle_at cl" "handle_at (cl\<lparr>cl_explicit := x\<rparr>) = handle_at cl"
  "handle_at (cl\<lparr>cl_next := n\<rparr>) = handle_at cl"
  by (rule ext, simp add: handle_at_def)+

lemma set_handle_fields [simp]:
  "cl_registry (set_handle a h cl) = cl_registry cl" "cl_next (set_handle a h cl) = cl_next cl"
  "cl_config (set_handle a h cl) = cl_config cl" "cl_explicit (set_handle a h cl) = cl_explicit cl"
  by (simp_all add: set_handle_def)

lemma store_keys_set: "set (map fst (cl_store (set_handle a h cl))) = insert a (set (map fst (cl_store cl)))"
  using dict_keys_set [of a h "cl_store cl"] by (simp add: set_handle_def)

lemma client_okD:
  assumes "client_ok cl"
  shows "dict_get (cl_registry cl) key = Some a \<Longrightarrow> tracked cl key a"
    and "handle_at cl a = Some h \<Longrightarrow> a < cl_next cl"
  using assms unfolding client_ok_def handle_at_def
  by (auto dest!: map_of_SomeD)

lemma tracked_registry [simp]: "tracked (cl\<lparr>cl_registry := r\<rparr>) = tracked cl"
  by (intro ext) (simp add: tracked_def)

lemma client_ok_registry:
  "client_ok cl \<Longrightarrow> dict_ok r \<Longrightarrow> set r \<subseteq> set (cl_registry cl) \<Longrightarrow> client_ok (cl\<lparr>cl_registry := r\<rparr>)"
  unfolding client_ok_def by auto

lemma set_dict_pop: "set (dict_pop k d) \<subseteq> set d"
  by (auto simp: AList.delete_eq)

lemma client_ok_pop: "client_ok cl \<Longrightarrow> client_ok (cl\<lparr>cl_registry := dict_pop key (cl_registry cl)\<rparr>)"
  by (rule client_ok_registry) (auto simp: client_ok_def distinct_delete dest: set_mp [OF set_dict_pop])

lemma client_ok_explicit [simp]: "client_ok (cl\<lparr>cl_explicit := x\<rparr>) = client_ok cl"
  by (simp add: client_ok_def tracked_def)

text \<open>Changing a handle but not its claim keeps the registry right.\<close>

lemma client_ok_set:
  assumes "client_ok cl" and "handle_at cl a = Some h"
    and "s_claim_name h' = s_claim_name h" "s_namespace h' = s_namespace h" "s_hook h' = s_hook h"
  shows "client_ok (set_handle a h' cl)"
  using assms client_okD(2) [OF assms(1,2)] unfolding client_ok_def store_keys_set tracked_def
  by (auto split: prod.split)

lemma close_connection_fields:
  "close_connection env h w = (h', w') \<Longrightarrow>
   s_claim_name h' = s_claim_name h \<and> s_namespace h' = s_namespace h \<and> s_hook h' = s_hook h
   \<and> s_sandbox_id h' = s_sandbox_id h \<and> s_is_closed h'"
  by (auto simp: close_connection_def split: if_splits prod.splits)

lemma close_at_ok: "client_ok cl \<Longrightarrow> client_ok (fst (close_at env a cl w))"
proof (cases "handle_at cl a")
  case (Some h)
  assume ok: "client_ok cl"
  obtain h' w' where c: "close_connection env h w = (h', w')" by (cases "close_connection env h w")
  with close_connection_fields [OF c] client_ok_set [OF ok Some, of h'] Some show ?thesis
    by (simp add: close_at_def)
qed (simp add: close_at_def)

lemma untrack_registry: "cl_registry (untrack a h cl) = cl_registry cl \<or>
    (\<exists>n. s_claim_name h = Some n \<and> dict_get (cl_registry cl) (s_namespace h, n) = Some a
       \<and> cl_registry (untrack a h cl) = dict_pop (s_namespace h, n) (cl_registry cl))"
  by (auto simp: untrack_def split: option.split)

lemma untrack_ok: "client_ok cl \<Longrightarrow> client_ok (untrack a h cl)"
  by (auto simp: untrack_def client_ok_pop split: option.split)

lemma untrack_gone:
  assumes "client_ok cl" and "handle_at cl a = Some h" and "s_hook h"
  shows "a \<notin> snd ` set (cl_registry (untrack a h cl))"
proof
  assume "a \<in> snd ` set (cl_registry (untrack a h cl))"
  then obtain key where k: "(key, a) \<in> set (cl_registry (untrack a h cl))" by auto
  have sub: "set (cl_registry (untrack a h cl)) \<subseteq> set (cl_registry cl)"
    by (auto simp: untrack_def split: option.splits if_splits dest: set_mp [OF set_dict_pop])
  with k assms(1) have reg: "(key, a) \<in> set (cl_registry cl)" and "tracked cl key a"
    by (auto simp: client_ok_def)
  then have "key = (s_namespace h, the (s_claim_name h))" "s_claim_name h \<noteq> None"
    using assms(2) by (auto simp: tracked_def)
  moreover have "dict_get (cl_registry cl) key = Some a"
    using reg assms(1) by (simp add: client_ok_def)
  ultimately have "cl_registry (untrack a h cl) = dict_pop key (cl_registry cl)"
    by (auto simp: untrack_def)
  with k show False by (auto simp: AList.delete_eq)
qed

lemma terminate_cases:
  assumes "terminate env a cl w = (r, cl', w')" and "handle_at cl a = Some h"
  obtains h1 w1 where "close_connection env h w = (h1, w1)" "\<not> str_true (s_claim_name h)"
      "r = Inr ()" "cl' = set_handle a h1 cl" "w' = w1"
  | h1 w1 e where "close_connection env h w = (h1, w1)" "str_true (s_claim_name h)"
      "delete_sandbox_claim (e_kube env) (the (s_claim_name h)) (s_namespace h) None w1 = (Inl e, w')"
      "r = Inl e" "cl' = set_handle a h1 cl"
  | h1 w1 where "close_connection env h w = (h1, w1)" "str_true (s_claim_name h)"
      "delete_sandbox_claim (e_kube env) (the (s_claim_name h)) (s_namespace h) None w1 = (Inr (), w')"
      "r = Inr ()"
      "cl' = set_handle a (h1\<lparr>s_hook := False, s_claim_name := None\<rparr>)
               (if s_hook h then untrack a h1 (set_handle a h1 cl) else set_handle a h1 cl)"
proof -
  obtain h1 w1 where c: "close_connection env h w = (h1, w1)" by (cases "close_connection env h w")
  note f = close_connection_fields [OF c]
  obtain q w2 where d: "delete_sandbox_claim (e_kube env) (the (s_claim_name h)) (s_namespace h) None w1 = (q, w2)"
    by (cases "delete_sandbox_claim (e_kube env) (the (s_claim_name h)) (s_namespace h) None w1")
  show thesis
  proof (cases "str_true (s_claim_name h)")
    case False
    then have "terminate env a cl w = (Inr (), set_handle a h1 cl, w1)"
      using f by (simp add: terminate_def assms(2) c)
    with assms(1) show thesis by (intro that(1) [OF c False]) simp_all
  next
    case True
    show thesis
    proof (cases q)
      case (Inl e)
      then have "terminate env a cl w = (Inl e, set_handle a h1 cl, w2)"
        using f d True by (simp add: terminate_def assms(2) c)
      with assms(1) d Inl show thesis by (intro that(2) [OF c True, of e]) simp_all
    next
      case (Inr u)
      then have "terminate env a cl w = (Inr (), set_handle a (h1\<lparr>s_hook := False, s_claim_name := None\<rparr>)
               (if s_hook h then untrack a h1 (set_handle a h1 cl) else set_handle a h1 cl), w2)"
        using f d True by (simp add: terminate_def assms(2) c)
      with assms(1) d Inr show thesis by (intro that(3) [OF c True]) simp_all
    qed
  qed
qed

lemma client_ok_not_tracked:
  assumes "client_ok cl" and "a \<notin> snd ` set (cl_registry cl)" and "a < cl_next cl"
  shows "client_ok (set_handle a h cl)"
proof -
  have "tracked (set_handle a h cl) key b" if "(key, b) \<in> set (cl_registry cl)" for key b
  proof -
    have "b \<noteq> a" using that assms(2) by force
    moreover have "tracked cl key b" using that assms(1) by (auto simp: client_ok_def)
    ultimately show ?thesis by (simp add: tracked_def)
  qed
  with assms show ?thesis unfolding client_ok_def store_keys_set by auto
qed

lemma untrack_next [simp]: "cl_next (untrack a h cl) = cl_next cl"
  by (simp add: untrack_def split: option.split)

lemma terminate_ok:
  assumes ok: "client_ok cl" and t: "terminate env a cl w = (r, cl', w')"
  shows "client_ok cl'"
proof (cases "handle_at cl a")
  case None
  with t ok show ?thesis by (simp add: terminate_def)
next
  case (Some h)
  from t Some show ?thesis
  proof (cases rule: terminate_cases)
    case (3 h1 w1)
    let ?cl1 = "set_handle a h1 cl"
    note f = close_connection_fields [OF 3(1)]
    have ok1: "client_ok ?cl1" using f by (intro client_ok_set [OF ok Some]) auto
    show ?thesis
    proof (cases "s_hook h")
      case True
      then have "a \<notin> snd ` set (cl_registry (untrack a h1 ?cl1))"
        using f by (intro untrack_gone [OF ok1]) auto
      then show ?thesis
        using 3(5) True client_okD(2) [OF ok Some] untrack_ok [OF ok1]
        by (auto intro!: client_ok_not_tracked)
    next
      case False
      then have "a \<notin> snd ` set (cl_registry ?cl1)"
        using ok Some by (fastforce simp: client_ok_def tracked_def)
      then show ?thesis
        using 3(5) False client_okD(2) [OF ok Some] ok1 by (auto intro!: client_ok_not_tracked)
    qed
  next
    case (1 h1 w1)
    then show ?thesis using close_connection_fields [OF 1(1)] client_ok_set [OF ok Some, of h1] by simp
  next
    case (2 h1 w1 e)
    then show ?thesis using close_connection_fields [OF 2(1)] client_ok_set [OF ok Some, of h1] by simp
  qed
qed

lemma terminate_result_ok: "client_ok cl \<Longrightarrow> client_ok (fst (snd (terminate env a cl w)))"
  by (cases "terminate env a cl w") (auto dest: terminate_ok)

lemma alloc_track_ok:
  assumes ok: "client_ok cl" and a: "alloc_handle n sid ns cl = (a, cl1)"
  shows "client_ok (track (ns, n) a cl1)"
    and "dict_get (cl_registry (track (ns, n) a cl1)) (ns, n) = Some a"
    and "handle_at (track (ns, n) a cl1) a = Some ((new_handle n sid ns (cl_config cl))\<lparr>s_hook := True\<rparr>)"
proof -
  have tr: "track (ns, n) a cl1 =
      (set_handle a ((new_handle n sid ns (cl_config cl))\<lparr>s_hook := True\<rparr>)
        (set_handle a (new_handle n sid ns (cl_config cl)) cl\<lparr>cl_next := Suc a\<rparr>))
        \<lparr>cl_registry := dict_set (ns, n) a (cl_registry cl)\<rparr>"
    using a by (auto simp: alloc_handle_def track_def)
  have a': "a = cl_next cl" using a by (simp add: alloc_handle_def)
  have old: "a \<notin> snd ` set (cl_registry cl)"
  proof
    assume "a \<in> snd ` set (cl_registry cl)"
    then obtain key where "(key, a) \<in> set (cl_registry cl)" by auto
    with ok have "tracked cl key a" by (auto simp: client_ok_def)
    then obtain h where "handle_at cl a = Some h" by (auto simp: tracked_def split: option.splits)
    from client_okD(2) [OF ok this] a' show False by simp
  qed
  have keys: "set (map fst (cl_store (track (ns, n) a cl1))) = insert a (set (map fst (cl_store cl)))"
    by (simp add: tr set_handle_def)
  have "tracked (track (ns, n) a cl1) key b" if "(key, b) \<in> set (dict_set (ns, n) a (cl_registry cl))" for key b
  proof (cases "b = a")
    case True
    with old that set_dict_set [of "(ns, n)" a "cl_registry cl"] have "key = (ns, n)" by force
    then show ?thesis using True by (simp add: tracked_def tr new_handle_def)
  next
    case False
    with that set_dict_set [of "(ns, n)" a "cl_registry cl"] have "(key, b) \<in> set (cl_registry cl)" by auto
    with ok have "tracked cl key b" by (auto simp: client_ok_def)
    with False show ?thesis by (simp add: tracked_def tr)
  qed
  moreover have regs: "cl_registry (track (ns, n) a cl1) = dict_set (ns, n) a (cl_registry cl)"
    and nxt: "cl_next (track (ns, n) a cl1) = Suc a"
    by (simp_all add: tr)
  moreover have "b < Suc a" if "b \<in> insert a (set (map fst (cl_store cl)))" for b
    using that ok a' unfolding client_ok_def by auto
  moreover have "dict_ok (dict_set (ns, n) a (cl_registry cl))"
    using ok by (simp add: client_ok_def distinct_update)
  ultimately show "client_ok (track (ns, n) a cl1)"
    unfolding client_ok_def keys regs nxt by blast
  show "dict_get (cl_registry (track (ns, n) a cl1)) (ns, n) = Some a"
    by (simp add: tr update_conv)
  show "handle_at (track (ns, n) a cl1) a = Some ((new_handle n sid ns (cl_config cl))\<lparr>s_hook := True\<rparr>)"
    by (simp add: tr)
qed

lemma create_checks_cases:
  assumes "create_checks pf args cl w = (r, cl1, w1)"
  shows "(\<exists>e. r = Inl e \<and> cl1 = cl)
    \<or> (\<exists>pm lc u. r = Inr (pm, lc, ''sandbox-claim-'' @ u) \<and> cr_claim_name args = None \<and> cl1 = cl)
    \<or> (\<exists>pm lc n. r = Inr (pm, lc, n) \<and> cr_claim_name args = Some n
         \<and> cl1 = cl\<lparr>cl_explicit := List.insert (cr_namespace args, n) (cl_explicit cl)\<rparr>)"
  using assms unfolding create_checks_def
  by (auto split: sum.splits prod.splits option.splits if_splits)

lemma create_checks_registry:
  assumes "create_checks pf args cl w = (r, cl1, w1)"
  shows "cl_registry cl1 = cl_registry cl" "handle_at cl1 = handle_at cl" "client_ok cl1 = client_ok cl"
    "cl_config cl1 = cl_config cl"
  using create_checks_cases [OF assms] by auto

lemma create_sandbox_cases:
  assumes "create_sandbox fuel pf args cl w = Some (r, cl', w')"
  obtains (checks) e where "create_checks pf args cl w = (Inl e, cl', w')" "r = Inl e"
  | (create) pm lc n w1 e due w2 where
      "create_checks pf args cl w = (Inr (pm, lc, n), cl', w1)"
      "create_or_adopt pf args n lc pm w1 = (Inl e, due, w2)" "r = Inl e"
      "w' = roll_back pf due n (cr_namespace args) JNull w2"
  | (await) pm lc n w1 claim due w2 e uid w3 where
      "create_checks pf args cl w = (Inr (pm, lc, n), cl', w1)"
      "create_or_adopt pf args n lc pm w1 = (Inr claim, due, w2)"
      "await_claim fuel pf args n claim w2 = Some (Inl e, uid, w3)" "r = Inl e"
      "w' = roll_back pf due n (cr_namespace args) uid w3"
  | (reuse) pm lc n w1 claim due w2 name uid a where
      "create_checks pf args cl w = (Inr (pm, lc, n), cl', w1)"
      "create_or_adopt pf args n lc pm w1 = (Inr claim, due, w2)"
      "await_claim fuel pf args n claim w2 = Some (Inr name, uid, w')"
      "reusable cl' (cr_namespace args, n) (as_str name) = Some a" "r = Inr a"
  | (fresh) pm lc n cl1 w1 claim due w2 name uid w3 a where
      "create_checks pf args cl w = (Inr (pm, lc, n), cl1, w1)"
      "create_or_adopt pf args n lc pm w1 = (Inr claim, due, w2)"
      "await_claim fuel pf args n claim w2 = Some (Inr name, uid, w3)"
      "reusable cl1 (cr_namespace args, n) (as_str name) = None"
      "register_new (pf_env pf) (cr_namespace args, n) (as_str name) cl1 w3 = (a, cl', w')" "r = Inr a"
  using assms unfolding create_sandbox_def Let_def
  by (force split: prod.splits sum.splits option.splits)

lemma register_new_ok:
  assumes ok: "client_ok cl" and reg: "register_new env (ns, n) sid cl w = (a, cl', w')"
  shows "client_ok cl'" and "cl_registry cl' = dict_set (ns, n) a (cl_registry cl)"
    and "handle_at cl' a = Some ((new_handle n sid ns (cl_config cl))\<lparr>s_hook := True\<rparr>)"
    and "\<forall>p. dict_get (cl_registry cl) (ns, n) = Some p \<longrightarrow> p \<noteq> a \<and> (\<exists>h. handle_at cl' p = Some h \<and> \<not> is_active h)"
proof -
  obtain cl1 where al: "alloc_handle n sid ns cl = (a, cl1)"
    using reg by (auto simp: register_new_def Let_def split: prod.splits option.splits)
  let ?cl2 = "track (ns, n) a cl1"
  note ok2 = alloc_track_ok [OF ok al]
  have r1: "cl_registry cl1 = cl_registry cl" "a = cl_next cl"
    and r2: "cl_registry ?cl2 = dict_set (ns, n) a (cl_registry cl)"
    using al by (auto simp: alloc_handle_def track_def)
  have old: "p \<noteq> a \<and> handle_at ?cl2 p \<noteq> None" if g: "dict_get (cl_registry cl) (ns, n) = Some p" for p
  proof -
    obtain h where h: "handle_at cl p = Some h"
      using client_okD(1) [OF ok g] by (auto simp: tracked_def split: option.splits)
    with client_okD(2) [OF ok h] r1 al show ?thesis by (auto simp: alloc_handle_def track_def)
  qed
  have "client_ok cl' \<and> cl_registry cl' = dict_set (ns, n) a (cl_registry cl)
    \<and> handle_at cl' a = Some ((new_handle n sid ns (cl_config cl))\<lparr>s_hook := True\<rparr>)
    \<and> (\<forall>p. dict_get (cl_registry cl) (ns, n) = Some p \<longrightarrow> p \<noteq> a \<and> (\<exists>h. handle_at cl' p = Some h \<and> \<not> is_active h))"
  proof (cases "dict_get (cl_registry cl) (ns, n)")
    case None
    then have "cl' = ?cl2" using reg al r1 by (simp add: register_new_def)
    with ok2 r2 None show ?thesis by simp
  next
    case (Some p)
    obtain h where h: "p \<noteq> a" "handle_at ?cl2 p = Some h" using old [OF Some] by auto
    obtain h' w1 where c: "close_connection env h w = (h', w1)" by (cases "close_connection env h w")
    have cl': "cl' = set_handle p h' ?cl2"
      using reg al r1 Some h c by (simp add: register_new_def close_at_def)
    have "client_ok cl'"
      using close_at_ok [OF ok2(1), of env p w] h c cl' by (simp add: close_at_def)
    with cl' h ok2 r2 Some close_connection_fields [OF c] show ?thesis by (simp add: is_active_def)
  qed
  then show "client_ok cl'" "cl_registry cl' = dict_set (ns, n) a (cl_registry cl)"
    "handle_at cl' a = Some ((new_handle n sid ns (cl_config cl))\<lparr>s_hook := True\<rparr>)"
    "\<forall>p. dict_get (cl_registry cl) (ns, n) = Some p \<longrightarrow> p \<noteq> a \<and> (\<exists>h. handle_at cl' p = Some h \<and> \<not> is_active h)"
    by blast+
qed

lemma create_sandbox_ok:
  assumes "client_ok cl" and "create_sandbox fuel pf args cl w = Some (r, cl', w')"
  shows "client_ok cl'"
  using assms(2)
proof (cases rule: create_sandbox_cases)
  case (fresh pm lc n cl1 w1 claim due w2 name uid w3 a)
  with create_checks_registry [OF fresh(1)] assms(1) show ?thesis by (metis register_new_ok(1))
qed (use assms(1) in \<open>simp_all add: create_checks_registry\<close>)

lemma get_sandbox_ok:
  assumes ok: "client_ok cl" and get: "get_sandbox fuel pf n ns timeout cl w = Some (r, cl', w')"
  shows "client_ok cl'"
proof -
  consider "cl' = cl" | a w1 where "cl' = fst (close_at (pf_env pf) a cl w1)"
    | sid a cl1 cl0 where "cl0 = cl \<or> cl0 = cl\<lparr>cl_registry := dict_pop (ns, n) (cl_registry cl)\<rparr>"
        "alloc_handle n sid ns cl0 = (a, cl1)" "cl' = track (ns, n) a cl1"
    using get unfolding get_sandbox_def Let_def
    by (auto split: option.splits prod.splits sum.splits if_splits) (metis fst_conv)+
  then show ?thesis
  proof cases
    case (3 sid a cl1 cl0)
    then have "client_ok cl0" using ok client_ok_pop by auto
    with 3 alloc_track_ok(1) show ?thesis by blast
  qed (use ok close_at_ok in auto)
qed

lemma list_active_ok: "client_ok cl \<Longrightarrow> client_ok (snd (list_active_sandboxes cl))"
  unfolding list_active_sandboxes_def Let_def
  by (auto intro!: client_ok_registry simp: client_ok_def distinct_map_filter)

lemma delete_sandbox_ok: "client_ok cl \<Longrightarrow> client_ok (fst (delete_sandbox pf n ns cl w))"
  unfolding delete_sandbox_def
  by (auto split: option.split prod.split sum.split dest: terminate_ok intro: client_ok_pop)

lemma delete_each_ok: "client_ok cl \<Longrightarrow> client_ok (fst (delete_each pf keys cl w))"
proof (induction pf keys cl w rule: delete_each.induct)
  case (2 pf ns n keys cl w)
  obtain cl1 w1 where d: "delete_sandbox pf n ns cl w = (cl1, w1)" by (cases "delete_sandbox pf n ns cl w")
  with 2 delete_sandbox_ok [of cl pf n ns w] show ?case by simp
qed simp

lemma cleanup_each_ok: "client_ok cl \<Longrightarrow> client_ok (fst (cleanup_each pf entries cl w))"
proof (induction pf entries cl w rule: cleanup_each.induct)
  case (2 pf ns n a entries cl w)
  obtain cl1 w1 where d: "(if (ns, n) \<in> set (cl_explicit cl) then close_at (pf_env pf) a cl w
      else delete_sandbox pf n ns cl w) = (cl1, w1)" by (cases "(ns, n) \<in> set (cl_explicit cl)") force+
  then have "client_ok cl1"
    using 2(2) delete_sandbox_ok [of cl pf n ns w] close_at_ok [of cl "pf_env pf" a w] by (auto split: if_splits)
  with 2 d show ?case by simp
qed simp

text \<open>Everything a program can do with a client and the handles it was given, in any order.\<close>

inductive client_step :: "'w platform \<Rightarrow> client \<Rightarrow> client \<Rightarrow> bool" for pf where
  create: "create_sandbox fuel pf args cl w = Some (r, cl', w') \<Longrightarrow> client_step pf cl cl'"
| get: "get_sandbox fuel pf n ns timeout cl w = Some (r, cl', w') \<Longrightarrow> client_step pf cl cl'"
| listing: "client_step pf cl (snd (list_active_sandboxes cl))"
| delete: "client_step pf cl (fst (delete_sandbox pf n ns cl w))"
| delete_all: "client_step pf cl (fst (delete_all pf cl w))"
| cleanup: "client_step pf cl (fst (delete_automatic_sandboxes pf cl w))"
| terminate: "client_step pf cl (fst (snd (terminate (pf_env pf) a cl w)))"
| close: "client_step pf cl (fst (close_at (pf_env pf) a cl w))"

lemma client_step_ok: "client_step pf cl cl' \<Longrightarrow> client_ok cl \<Longrightarrow> client_ok cl'"
  by (induction rule: client_step.induct)
    (auto simp: delete_all_def delete_automatic_sandboxes_def
       intro: create_sandbox_ok get_sandbox_ok list_active_ok delete_sandbox_ok delete_each_ok
         cleanup_each_ok close_at_ok terminate_result_ok)

lemma new_client_ok: "client_ok (new_client cfg)"
  by (simp add: client_ok_def new_client_def)

section \<open>What a client guarantees\<close>

lemma client_steps_ok: "(client_step pf)\<^sup>*\<^sup>* cl cl' \<Longrightarrow> client_ok cl \<Longrightarrow> client_ok cl'"
  by (induction rule: rtranclp_induct) (auto intro: client_step_ok)

lemma reachable_client_ok: "(client_step pf)\<^sup>*\<^sup>* (new_client cfg) cl \<Longrightarrow> client_ok cl"
  using client_steps_ok new_client_ok by blast

definition sim_platform :: "json \<Rightarrow> nat platform" where
  "sim_platform obj = \<lparr>pf_env = (sim_env (sim_response 200))\<lparr>e_kube := sim_kube obj\<rparr>,
     pf_uuid = \<lambda>w. (''0123abcd'', w + 1), pf_trace = \<lambda>w. (None, w)\<rparr>"

definition sim_create :: create_args where
  "sim_create = \<lparr>cr_warmpool = ''pool'', cr_namespace = ''ns'', cr_timeout = 5, cr_labels = None,
     cr_claim_name = None, cr_adopt_existing = False, cr_shutdown = None, cr_templates = None,
     cr_pod_labels = None, cr_pod_annotations = None, cr_env = None\<rparr>"

lemma sim_wait: "wait_for_claim_ready (Suc n) (sim_kube sim_claim) c ns 5 rv None None False w
    = Some (Inr (JStr ''sb''), w)"
  by (simp add: wait_for_claim_ready_def watch_claim_def sim_kube_def sim_claim_def claim_event_def
      claim_snapshot_def claim_condition_def jor_def ready_status_def is_terminal_reason_def)

lemma sim_create_checks:
  "create_checks (sim_platform obj) sim_create cl 0 = (Inr (None, None, ''sandbox-claim-0123abcd''), cl, 1)"
  by (simp add: create_checks_def sim_create_def dict_true_def build_pod_metadata_def lifecycle_of_def
      sim_platform_def)

lemma sim_create_claim:
  "\<exists>claim. create_or_adopt (sim_platform obj) sim_create n None None w = (Inr claim, True, w + 1)
     \<and> claim_identity claim = Inr (JNull, JNull)"
  by (simp add: create_or_adopt_def create_claim_def sim_platform_def sim_create_def create_sandbox_claim_def
      claim_manifest_def sim_kube_def str_true_def construct_sandbox_claim_env_spec_def or_empty_def jstrs_def
      claim_identity_def jor_def)

lemma sim_create_runs:
  "\<exists>cl' w'. create_sandbox (Suc 0) (sim_platform sim_claim) sim_create (new_client sim_direct) 0 = Some (Inr 0, cl', w')"
proof -
  let ?pf = "sim_platform sim_claim" and ?n = "''sandbox-claim-0123abcd''"
  obtain claim where c: "create_or_adopt ?pf sim_create ?n None None 1 = (Inr claim, True, 2)"
      "claim_identity claim = Inr (JNull, JNull)"
    using sim_create_claim [of sim_claim ?n 1] by auto
  have "await_claim (Suc 0) ?pf sim_create ?n claim 2 = Some (Inr (JStr ''sb''), JNull, 2)"
    using c sim_wait [of 0 ?n "''ns''" JNull 2]
    by (simp add: await_claim_def sim_create_def uid_opt_def sim_platform_def)
  with c show ?thesis
    by (simp add: create_sandbox_def sim_create_checks reusable_def new_client_def register_new_def
        alloc_handle_def Let_def)
qed

text \<open>(C1) In every state a program can bring a client to, by creating, finding, listing, deleting, cleaning up
  and by closing and terminating any handle it ever got, in any order and with any outcome of the
  cluster, a registry entry refers to a live handle of exactly that claim that will report its
  termination, and no handle is registered twice.\<close>

theorem client_registry_ok:
  assumes "(client_step pf)\<^sup>*\<^sup>* (new_client cfg) cl" and "dict_get (cl_registry cl) (ns, n) = Some a"
  shows "(\<exists>h. handle_at cl a = Some h \<and> s_claim_name h = Some n \<and> s_namespace h = ns \<and> s_hook h)
    \<and> (\<forall>key. dict_get (cl_registry cl) key = Some a \<longrightarrow> key = (ns, n))"
proof -
  have ok: "client_ok cl" by (rule reachable_client_ok [OF assms(1)])
  note tr = client_okD(1) [OF ok]
  have "key = (ns, n)" if "dict_get (cl_registry cl) key = Some a" for key
    using tr [OF assms(2)] tr [OF that] by (auto simp: tracked_def split: option.splits intro: prod_eqI)
  with tr [OF assms(2)] show ?thesis by (auto simp: tracked_def split: option.splits)
qed

lemma create_success:
  assumes ok: "client_ok cl" and c: "create_sandbox fuel pf args cl w = Some (Inr a, cl', w')"
  obtains n h where "\<forall>m. cr_claim_name args = Some m \<longrightarrow> m = n" "handle_at cl' a = Some h" "is_active h"
    "s_claim_name h = Some n" "s_namespace h = cr_namespace args"
    "dict_get (cl_registry cl') = (dict_get (cl_registry cl))((cr_namespace args, n) \<mapsto> a)"
    "\<forall>p. dict_get (cl_registry cl) (cr_namespace args, n) = Some p \<longrightarrow> p \<noteq> a
       \<longrightarrow> (\<exists>h. handle_at cl' p = Some h \<and> \<not> is_active h)"
  using c
proof (cases rule: create_sandbox_cases)
  case (reuse pm lc n w1 claim due w2 name uid b)
  note ch = create_checks_cases [OF reuse(1)] and rg = create_checks_registry [OF reuse(1)]
  obtain h where h: "dict_get (cl_registry cl') (cr_namespace args, n) = Some a" "handle_at cl' a = Some h" "is_active h"
    using reuse(4,5) by (auto simp: reusable_def split: option.splits if_splits)
  have "tracked cl' (cr_namespace args, n) a" using client_okD(1) ok rg(3) h(1) by blast
  with h(2) have t: "s_claim_name h = Some n" "s_namespace h = cr_namespace args" by (simp_all add: tracked_def)
  show thesis
    by (rule that [OF _ h(2,3) t]) (use ch rg h(1) in \<open>auto simp: fun_upd_idem\<close>)
next
  case (fresh pm lc n cl1 w1 claim due w2 name uid w3 b)
  note ch = create_checks_cases [OF fresh(1)] and rg = create_checks_registry [OF fresh(1)]
  note rn = register_new_ok [OF _ fresh(5), unfolded rg(3), OF ok]
  have b: "b = a" using fresh(6) by simp
  show thesis
    by (rule that [OF _ rn(3) [unfolded b]])
      (use ch rg rn(2,4) b in \<open>auto simp: is_active_def new_handle_def\<close>)
qed simp_all

text \<open>(C17) A successful \<^verbatim>\<open>create_sandbox\<close> returns an active handle for the claim name asked for (or the generated
  one), registers it and leaves every other entry alone; a handle that it replaces has been closed.\<close>

theorem create_sandbox_registers:
  assumes "(client_step pf)\<^sup>*\<^sup>* (new_client cfg) cl" and "create_sandbox fuel pf args cl w = Some (Inr a, cl', w')"
  shows "\<exists>n h. (\<forall>m. cr_claim_name args = Some m \<longrightarrow> m = n) \<and> handle_at cl' a = Some h \<and> is_active h
     \<and> s_claim_name h = Some n \<and> s_namespace h = cr_namespace args
     \<and> dict_get (cl_registry cl') = (dict_get (cl_registry cl))((cr_namespace args, n) \<mapsto> a)
     \<and> (\<forall>p. dict_get (cl_registry cl) (cr_namespace args, n) = Some p \<longrightarrow> p \<noteq> a
          \<longrightarrow> (\<exists>h. handle_at cl' p = Some h \<and> \<not> is_active h))"
  by (rule create_success [OF reachable_client_ok [OF assms(1)] assms(2)]) blast

theorem create_sandbox_registers_witness:
  "\<exists>cl' w' h. create_sandbox (Suc 0) (sim_platform sim_claim) sim_create (new_client sim_direct) 0 = Some (Inr 0, cl', w')
     \<and> handle_at cl' 0 = Some h \<and> is_active h"
proof -
  obtain cl' w' where c: "create_sandbox (Suc 0) (sim_platform sim_claim) sim_create (new_client sim_direct) 0
      = Some (Inr 0, cl', w')" using sim_create_runs by blast
  with create_sandbox_registers [OF rtranclp.rtrancl_refl c] show ?thesis by blast
qed

theorem client_registry_ok_witness:
  "\<exists>cl n h. dict_get (cl_registry cl) (''ns'', n) = Some 0 \<and> handle_at cl 0 = Some h \<and> s_claim_name h = Some n"
proof -
  obtain cl' w' where c: "create_sandbox (Suc 0) (sim_platform sim_claim) sim_create (new_client sim_direct) 0
      = Some (Inr 0, cl', w')" using sim_create_runs by blast
  obtain n where "dict_get (cl_registry cl') = (dict_get (cl_registry (new_client sim_direct)))((''ns'', n) \<mapsto> 0)"
    by (rule create_success [OF new_client_ok c]) (simp add: sim_create_def)
  then have g: "dict_get (cl_registry cl') (''ns'', n) = Some 0" by simp
  have "(client_step (sim_platform sim_claim))\<^sup>*\<^sup>* (new_client sim_direct) cl'"
    by (rule r_into_rtranclp) (rule client_step.create [OF c])
  from client_registry_ok [OF this g] g show ?thesis by blast
qed

section \<open>What is deleted, and what is not\<close>

text \<open>The platform with another answer to deletions: a run that is the same for every answer never asks.\<close>

definition with_delete ::
  "'w platform \<Rightarrow> (gvr \<Rightarrow> string \<Rightarrow> string \<Rightarrow> string option \<Rightarrow> ('w, exn, unit) exec) \<Rightarrow> 'w platform"
where
  "with_delete pf d = pf\<lparr>pf_env := (pf_env pf)\<lparr>e_kube := (pf_kube pf)\<lparr>k_delete := d\<rparr>\<rparr>\<rparr>"

lemma with_delete_fields [simp]:
  "pf_uuid (with_delete pf d) = pf_uuid pf" "pf_trace (with_delete pf d) = pf_trace pf"
  "pf_kube (with_delete pf d) = (pf_kube pf)\<lparr>k_delete := d\<rparr>"
  by (simp_all add: with_delete_def)

lemma watch_loop_delete [simp]:
  "watch_loop fuel (api\<lparr>k_delete := d\<rparr>) opn h err deadline init st w = watch_loop fuel api opn h err deadline init st w"
  by (induction fuel arbitrary: init st w) (simp_all add: Let_def split: prod.split sum.split option.split on_error.split)

lemma wait_for_claim_ready_delete [simp]:
  "wait_for_claim_ready fuel (api\<lparr>k_delete := d\<rparr>) = wait_for_claim_ready fuel api"
  by (intro ext) (simp add: wait_for_claim_ready_def watch_claim_def)

lemma with_delete_env:
  "e_host (pf_env (with_delete pf d)) = e_host (pf_env pf)"
  "e_close_channel (pf_env (with_delete pf d)) = e_close_channel (pf_env pf)"
  by (simp_all add: with_delete_def)

lemma close_connection_delete [simp]: "close_connection (pf_env (with_delete pf d)) = close_connection (pf_env pf)"
  unfolding close_connection_def [abs_def] connector_close_def [abs_def] strategy_close_def [abs_def]
    close_opt_channel_def [abs_def] with_delete_env ..

lemma close_at_delete [simp]: "close_at (pf_env (with_delete pf d)) = close_at (pf_env pf)"
  unfolding close_at_def [abs_def] close_connection_delete ..

lemma kube_delete_fields:
  "k_utcnow (api\<lparr>k_delete := d\<rparr>) = k_utcnow api" "k_isonow (api\<lparr>k_delete := d\<rparr>) = k_isonow api"
  "k_create (api\<lparr>k_delete := d\<rparr>) = k_create api" "k_get (api\<lparr>k_delete := d\<rparr>) = k_get api"
  by simp_all

lemma create_checks_delete [simp]: "create_checks (with_delete pf d) = create_checks pf"
  unfolding create_checks_def [abs_def] lifecycle_of_def [abs_def] with_delete_fields kube_delete_fields ..

lemma create_or_adopt_delete [simp]: "create_or_adopt (with_delete pf d) = create_or_adopt pf"
  unfolding create_or_adopt_def [abs_def] create_claim_def [abs_def] create_sandbox_claim_def [abs_def]
    get_sandbox_claim_def get_or_none_def with_delete_fields kube_delete_fields ..

lemma await_claim_delete [simp]: "await_claim fuel (with_delete pf d) = await_claim fuel pf"
  unfolding await_claim_def [abs_def] with_delete_fields wait_for_claim_ready_delete ..

lemma register_new_delete [simp]: "register_new (pf_env (with_delete pf d)) = register_new (pf_env pf)"
  unfolding register_new_def [abs_def] close_at_delete ..

lemma create_or_adopt_due:
  "create_or_adopt pf args n lc pm w = (r, due, w') \<Longrightarrow> due \<Longrightarrow> cr_claim_name args = None"
  by (auto simp: create_or_adopt_def Let_def split: sum.splits prod.splits if_splits)

lemma roll_back_not_due [simp]: "roll_back pf False n ns uid w = w"
  by (simp add: roll_back_def)

lemma create_explicit_delete:
  assumes "cr_claim_name args = Some n"
  shows "create_sandbox fuel (with_delete pf d) args cl w = create_sandbox fuel pf args cl w"
proof -
  have "roll_back (with_delete pf d) due m ns uid w0 = roll_back pf due m ns uid w0"
    if "create_or_adopt pf args m lc pm w1 = (r, due, w2)" for due m ns uid w0 lc pm w1 r w2
    using create_or_adopt_due [OF that] assms by (cases due) auto
  then show ?thesis
    by (auto simp: create_sandbox_def Let_def split: prod.split sum.split option.split)
qed

lemma terminate_delete:
  assumes "\<And>w. d (api_resource Claims) ns n None w = k_delete (pf_kube pf) (api_resource Claims) ns n None w"
    and "tracked cl (ns, n) a"
  shows "terminate (pf_env (with_delete pf d)) a cl w = terminate (pf_env pf) a cl w"
proof -
  have del: "delete_sandbox_claim ((pf_kube pf)\<lparr>k_delete := d\<rparr>) n ns None = delete_sandbox_claim (pf_kube pf) n ns None"
    by (intro ext) (simp add: delete_sandbox_claim_def tryX_def assms(1) del: api_resource.simps)
  obtain h where h: "handle_at cl a = Some h" "s_claim_name h = Some n" "s_namespace h = ns"
    using assms(2) by (auto simp: tracked_def split: option.splits)
  obtain h1 w1 where c: "close_connection (pf_env pf) h w = (h1, w1)" by (cases "close_connection (pf_env pf) h w")
  with h close_connection_fields [OF c] show ?thesis
    by (cases "str_true (Some n)") (simp_all add: terminate_def Let_def del)
qed

lemma delete_sandbox_delete:
  assumes "client_ok cl"
    and "\<And>u w. d (api_resource Claims) ns n u w = k_delete (pf_kube pf) (api_resource Claims) ns n u w"
  shows "delete_sandbox (with_delete pf d) n ns cl w = delete_sandbox pf n ns cl w"
proof (cases "dict_get (cl_registry cl) (ns, n)")
  case None
  then show ?thesis 
    by (simp add: delete_sandbox_def delete_sandbox_claim_def tryX_def assms(2) del: api_resource.simps)
next
  case (Some a)
  then have "tracked cl (ns, n) a" using client_okD(1) [OF assms(1)] by blast
  then have "terminate (pf_env (with_delete pf d)) a cl w = terminate (pf_env pf) a cl w"
    by (rule terminate_delete [rotated]) (rule assms(2))
  with Some show ?thesis by (simp add: delete_sandbox_def)
qed

lemma untrack_explicit [simp]: "cl_explicit (untrack a h cl) = cl_explicit cl"
  by (simp add: untrack_def split: option.split)

lemma delete_sandbox_explicit: "cl_explicit (fst (delete_sandbox pf n ns cl w)) = cl_explicit cl"
  unfolding delete_sandbox_def terminate_def Let_def
  by (auto split: option.split prod.split sum.split)

lemma close_at_explicit: "cl_explicit (fst (close_at env a cl w)) = cl_explicit cl"
  by (auto simp: close_at_def split: option.split prod.split)

lemma close_at_explicit_eq: "close_at env a cl w = (cl', w') \<Longrightarrow> cl_explicit cl' = cl_explicit cl"
  using close_at_explicit [of env a cl w] by simp

lemma register_new_explicit: "register_new env key sid cl w = (a, cl', w') \<Longrightarrow> cl_explicit cl' = cl_explicit cl"
  by (auto simp: register_new_def alloc_handle_def track_def Let_def split: option.splits prod.splits
      dest!: close_at_explicit_eq)

lemma cleanup_each_delete:
  assumes "client_ok cl"
    and "\<And>ns n u w. (ns, n) \<notin> set (cl_explicit cl) \<Longrightarrow>
           d (api_resource Claims) ns n u w = k_delete (pf_kube pf) (api_resource Claims) ns n u w"
  shows "cleanup_each (with_delete pf d) entries cl w = cleanup_each pf entries cl w"
  using assms
proof (induction pf entries cl w rule: cleanup_each.induct)
  case (2 pf ns n a entries cl w)
  let ?step = "\<lambda>pf. if (ns, n) \<in> set (cl_explicit cl) then close_at (pf_env pf) a cl w else delete_sandbox pf n ns cl w"
  obtain cl1 w1 where s: "?step pf = (cl1, w1)" by (cases "?step pf")
  have "?step (with_delete pf d) = ?step pf"
    using 2(2,3) by (simp add: delete_sandbox_delete)
  moreover have "client_ok cl1" "cl_explicit cl1 = cl_explicit cl"
    using s 2(2) close_at_ok [of cl "pf_env pf" a w] delete_sandbox_ok [of cl pf n ns w]
      close_at_explicit [of "pf_env pf" a cl w] delete_sandbox_explicit [of pf n ns cl w]
    by (auto split: if_splits)
  ultimately show ?case using 2(1) [OF s [symmetric]] 2(3) s by simp
qed simp



text \<open>What a failed creation under a generated name has sent last: the create call, and the deletion that undoes
  it unless the API reported a conflict.\<close>

definition undone ::
  "'w platform \<Rightarrow> create_args \<Rightarrow> string \<Rightarrow> json option \<Rightarrow> additional_pod_metadata option \<Rightarrow> 'w \<Rightarrow> exn \<Rightarrow> 'w \<Rightarrow> bool"
where
  "undone pf args n lc pm w1 e w' =
     (case create_claim pf args n lc pm w1 of
        (Inl e', w2) \<Rightarrow> e = e' \<and> w' = (if e' = ApiException 409 then w2
           else snd (delete_sandbox_claim (pf_kube pf) n (cr_namespace args) None w2))
      | (Inr claim, w2) \<Rightarrow> \<exists>uid w3.
          w' = snd (delete_sandbox_claim (pf_kube pf) n (cr_namespace args) uid w3)
          \<and> (case claim_identity claim of Inl _ \<Rightarrow> uid = None
             | Inr (_, u) \<Rightarrow> uid = (if truthy u then uid_opt u else None)))"

lemma await_failure_undone:
  assumes "cr_claim_name args = None" and "create_claim pf args n lc pm w1 = (Inr claim, w2)"
    and "await_claim fuel pf args n claim w2 = Some (Inl e, uid, w3)"
  shows "undone pf args n lc pm w1 e (roll_back pf True n (cr_namespace args) uid w3)"
proof -
  have "(case claim_identity claim of Inl _ \<Rightarrow> uid = JNull | Inr (_, u) \<Rightarrow> uid = u)"
    using assms(1,3) by (auto simp: await_claim_def split: sum.splits prod.splits)
  then have u: "case claim_identity claim of Inl _ \<Rightarrow> (if truthy uid then uid_opt uid else None) = None
      | Inr (_, u) \<Rightarrow> (if truthy uid then uid_opt uid else None) = (if truthy u then uid_opt u else None)"
    by (simp split: sum.splits prod.splits)
  have "roll_back pf True n (cr_namespace args) uid w3
      = snd (delete_sandbox_claim (pf_kube pf) n (cr_namespace args) (if truthy uid then uid_opt uid else None) w3)"
    by (simp add: roll_back_def)
  from conjI [OF this u] show ?thesis
    unfolding undone_def assms(2) prod.case sum.case by (intro exI)
qed

lemma generated_failure:
  assumes none: "cr_claim_name args = None" and run: "create_sandbox fuel pf args cl w = Some (Inl e, cl', w')"
  shows "create_checks pf args cl w = (Inl e, cl', w')
    \<or> (\<exists>pm lc n w1. create_checks pf args cl w = (Inr (pm, lc, n), cl, w1) \<and> undone pf args n lc pm w1 e w')"
proof -
  have adopt: "\<not> cr_adopt_existing args" if "create_checks pf args cl w = (Inr x, cl1, w1)" for x cl1 w1
    using that none by (auto simp: create_checks_def split: prod.splits sum.splits if_splits)
  have same: "cl1 = cl" if "create_checks pf args cl w = (Inr x, cl1, w1)" for x cl1 w1
    using create_checks_cases [OF that] none by auto
  from run show ?thesis
  proof (cases rule: create_sandbox_cases)
    case (create pm lc n w1 e' due w2)
    have "undone pf args n lc pm w1 e w'"
      using create(2-4) adopt [OF create(1)] none
      by (auto simp: undone_def create_or_adopt_def roll_back_def split: prod.splits sum.splits if_splits)
    with create(1) same [OF create(1)] show ?thesis by blast
  next
    case (await pm lc n w1 claim due w2 e' uid w3)
    have cr: "create_claim pf args n lc pm w1 = (Inr claim, w2)" "due = True"
      using await(2) adopt [OF await(1)] none
      by (auto simp: create_or_adopt_def split: prod.splits sum.splits if_splits)
    have "undone pf args n lc pm w1 e w'"
      using await_failure_undone [OF none cr(1) await(3)] await(4,5) cr(2) by simp
    with await(1) same [OF await(1)] show ?thesis by blast
  qed simp_all
qed

text \<open>(C11) A \<^verbatim>\<open>create_sandbox\<close> that fails registers nothing. If the name was generated and the create call was not
  answered with a conflict, the last thing it does is delete that claim, under its UID if the
  response gave one; after a conflict, or if the arguments were refused, nothing is deleted.\<close>

theorem create_sandbox_rolls_back:
  assumes "create_sandbox fuel pf args cl w = Some (Inl e, cl', w')"
  shows "cl_registry cl' = cl_registry cl \<and> handle_at cl' = handle_at cl
    \<and> (if cr_claim_name args = None
       then create_checks pf args cl w = (Inl e, cl', w')
         \<or> (\<exists>pm lc n w1. create_checks pf args cl w = (Inr (pm, lc, n), cl, w1) \<and> undone pf args n lc pm w1 e w')
       else \<forall>d. create_sandbox fuel (with_delete pf d) args cl w = Some (Inl e, cl', w'))"
proof -
  from assms have "cl_registry cl' = cl_registry cl \<and> handle_at cl' = handle_at cl"
    by (cases rule: create_sandbox_cases) (simp_all add: create_checks_registry)
  with assms generated_failure [OF _ assms] show ?thesis
    by (auto simp: create_explicit_delete)
qed

definition sim_refusing :: "nat platform" where
  "sim_refusing = (sim_platform JNull)\<lparr>pf_env := (pf_env (sim_platform JNull))
     \<lparr>e_kube := (sim_kube JNull)\<lparr>k_create := \<lambda>r ns b w. (Inl (ApiException 500), w + 1)\<rparr>\<rparr>\<rparr>"

theorem create_sandbox_rolls_back_witness:
  "\<exists>cl' w'. create_sandbox 0 sim_refusing sim_create (new_client sim_direct) 0 = Some (Inl (ApiException 500), cl', w')
     \<and> cl_registry cl' = []"
proof -
  have ch: "create_checks sim_refusing sim_create (new_client sim_direct) 0
      = (Inr (None, None, ''sandbox-claim-0123abcd''), new_client sim_direct, 1)"
    by (simp add: create_checks_def sim_create_def dict_true_def build_pod_metadata_def lifecycle_of_def
      sim_platform_def sim_refusing_def)
  have "create_or_adopt sim_refusing sim_create ''sandbox-claim-0123abcd'' None None 1 = (Inl (ApiException 500), True, 2)"
    by (simp add: create_or_adopt_def create_claim_def sim_platform_def sim_refusing_def sim_create_def
      create_sandbox_claim_def sim_kube_def str_true_def construct_sandbox_claim_env_spec_def or_empty_def)
  then obtain w' where c: "create_sandbox 0 sim_refusing sim_create (new_client sim_direct) 0
      = Some (Inl (ApiException 500), new_client sim_direct, w')"
    by (simp add: create_sandbox_def ch)
  from create_sandbox_rolls_back [OF c] have "cl_registry (new_client sim_direct) = []" by (simp add: new_client_def)
  with c show ?thesis by blast
qed

lemma set_handle_same: "handle_at cl a = Some h \<Longrightarrow> set_handle a h cl = cl"
  by (simp add: set_handle_def handle_at_def dict_set_same)

text \<open>(C19) \<^verbatim>\<open>terminate\<close> is idempotent and can be retried. After a success the handle is closed and unregistered and a
  second call changes nothing and calls nothing, whatever the environment. After a failed deletion the
  error is raised, the claim's name and the registry are as before, so that the call can be repeated.\<close>

theorem terminate_idempotent:
  fixes env' :: "'v env"
  assumes "(client_step pf)\<^sup>*\<^sup>* (new_client cfg) cl" and "handle_at cl a = Some h"
    and "terminate (pf_env pf) a cl w = (r, cl', w')"
  shows "(\<exists>h'. handle_at cl' a = Some h' \<and> \<not> is_active h' \<and> s_namespace h' = s_namespace h
       \<and> (case r of Inr _ \<Rightarrow> \<not> str_true (s_claim_name h')
          | Inl _ \<Rightarrow> s_claim_name h' = s_claim_name h \<and> cl_registry cl' = cl_registry cl))
    \<and> (r = Inr () \<longrightarrow> terminate env' a cl' w2 = (Inr (), cl', w2)
       \<and> (str_true (s_claim_name h) \<longrightarrow> a \<notin> snd ` set (cl_registry cl')))"
  using assms(3,2)
proof (cases rule: terminate_cases)
  case (1 h1 w1)
  note f = close_connection_fields [OF 1(1)]
  have "terminate env' a cl' w2 = (Inr (), cl', w2)"
    using 1 f by (simp add: terminate_def close_connection_def set_handle_same)
  with 1 f show ?thesis by (simp add: is_active_def)
next
  case (2 h1 w1 e)
  with close_connection_fields [OF 2(1)] show ?thesis by (simp add: is_active_def)
next
  case (3 h1 w1)
  note f = close_connection_fields [OF 3(1)] and ok = reachable_client_ok [OF assms(1)]
  have h': "handle_at cl' a = Some (h1\<lparr>s_hook := False, s_claim_name := None\<rparr>)" using 3(5) by simp
  have t: "terminate env' a cl' w2 = (Inr (), cl', w2)"
    using h' f by (simp add: terminate_def close_connection_def set_handle_same str_true_def)
  have ok1: "client_ok (set_handle a h1 cl)" using f by (intro client_ok_set [OF ok assms(2)]) auto
  have "a \<notin> snd ` set (cl_registry cl')"
  proof (cases "s_hook h")
    case True
    with f untrack_gone [OF ok1, of a h1] 3(5) show ?thesis by simp
  next
    case False
    with 3(5) ok assms(2) show ?thesis by (fastforce simp: client_ok_def tracked_def)
  qed
  with 3(4) h' t f show ?thesis by (simp add: is_active_def str_true_def)
qed

theorem terminate_idempotent_witness:
  "\<exists>cl1 w1 cl2 w2. create_sandbox (Suc 0) (sim_platform sim_claim) sim_create (new_client sim_direct) 0 = Some (Inr 0, cl1, w1)
     \<and> terminate (pf_env (sim_platform sim_claim)) 0 cl1 w1 = (Inr (), cl2, w2)
     \<and> terminate (pf_env sim_refusing) 0 cl2 w2 = (Inr (), cl2, w2)"
proof -
  let ?pf = "sim_platform sim_claim"
  obtain cl1 w1 where c: "create_sandbox (Suc 0) ?pf sim_create (new_client sim_direct) 0 = Some (Inr 0, cl1, w1)"
    using sim_create_runs by blast
  have st: "(client_step ?pf)\<^sup>*\<^sup>* (new_client sim_direct) cl1"
    by (rule r_into_rtranclp) (rule client_step.create [OF c])
  obtain h where h: "handle_at cl1 0 = Some h" by (rule create_success [OF new_client_ok c])
  obtain r cl2 w2 where t: "terminate (pf_env ?pf) 0 cl1 w1 = (r, cl2, w2)"
    by (cases "terminate (pf_env ?pf) 0 cl1 w1") auto
  have "r = Inr ()"
    using t h by (cases rule: terminate_cases)
      (simp_all add: sim_platform_def sim_kube_def delete_sandbox_claim_def tryX_def)
  with terminate_idempotent [OF st h t, of "pf_env sim_refusing" w2] c t show ?thesis by blast
qed

section \<open>Deleting everything\<close>

lemma delete_sandbox_pops:
  assumes ok: "client_ok cl" and del: "\<And>ns n u w. fst (delete_sandbox_claim (pf_kube pf) n ns u w) = Inr ()"
  shows "cl_registry (fst (delete_sandbox pf n ns cl w)) = dict_pop (ns, n) (cl_registry cl)"
proof (cases "dict_get (cl_registry cl) (ns, n)")
  case None
  then have "dict_pop (ns, n) (cl_registry cl) = cl_registry cl"
    by (intro AList.delete_id) (simp add: map_of_eq_None_iff)
  with None show ?thesis by (simp add: delete_sandbox_def)
next
  case (Some a)
  obtain h where h: "handle_at cl a = Some h" "s_claim_name h = Some n" "s_namespace h = ns"
    using client_okD(1) [OF ok Some] by (auto simp: tracked_def split: option.splits)
  obtain r cl1 w1 where t: "terminate (pf_env pf) a cl w = (r, cl1, w1)"
    by (cases "terminate (pf_env pf) a cl w") auto
  have "r = Inr () \<and> dict_pop (ns, n) (cl_registry cl1) = dict_pop (ns, n) (cl_registry cl)"
    using t h(1)
  proof (cases rule: terminate_cases)
    case (2 h1 w0 e)
    with del [of "the (s_claim_name h)" "s_namespace h" None w0] show ?thesis by simp
  next
    case (3 h1 w0)
    with close_connection_fields [OF 3(1)] h show ?thesis
      by (auto simp: untrack_def AList.delete_idem split: option.split)
  qed simp
  with Some t show ?thesis by (simp add: delete_sandbox_def)
qed

lemma delete_each_pops:
  assumes "client_ok cl" and "\<And>ns n u w. fst (delete_sandbox_claim (pf_kube pf) n ns u w) = Inr ()"
  shows "set (cl_registry (fst (delete_each pf keys cl w))) = {e \<in> set (cl_registry cl). fst e \<notin> set keys}"
  using assms
proof (induction pf keys cl w rule: delete_each.induct)
  case (2 pf ns n keys cl w)
  obtain cl1 w1 where d: "delete_sandbox pf n ns cl w = (cl1, w1)" by (cases "delete_sandbox pf n ns cl w")
  have "client_ok cl1" "cl_registry cl1 = dict_pop (ns, n) (cl_registry cl)"
    using delete_sandbox_ok [OF 2(2), of pf n ns w] delete_sandbox_pops [OF 2(2,3), of n ns w] d by simp_all
  with 2(1) [OF d [symmetric]] 2(3) d show ?case by (auto simp: AList.delete_eq)
qed simp

text \<open>(C21) If every deletion is answered (with success, or with 404 for a claim that is gone), \<^verbatim>\<open>delete_all\<close> on any
  reachable client works through every tracked claim and leaves the registry empty.\<close>

theorem delete_all_empties:
  assumes "(client_step pf)\<^sup>*\<^sup>* (new_client cfg) cl"
    and "\<forall>ns n u w. fst (k_delete (pf_kube pf) (api_resource Claims) ns n u w) \<in> {Inr (), Inl (ApiException 404)}"
  shows "cl_registry (fst (delete_all pf cl w)) = []"
proof -
  have "fst (delete_sandbox_claim (pf_kube pf) n ns u w) = Inr ()" for n ns u w
    using assms(2) [rule_format, of ns n u w]
    by (auto simp: delete_sandbox_claim_def tryX_def retX_def split: prod.split sum.split)
  from delete_each_pops [OF reachable_client_ok [OF assms(1)] this, of "map fst (cl_registry cl)" w]
  have "set (cl_registry (fst (delete_all pf cl w))) = {}" unfolding delete_all_def by auto
  then show ?thesis by simp
qed

theorem delete_all_empties_witness:
  "\<exists>cl w. cl_registry cl \<noteq> [] \<and> cl_registry (fst (delete_all (sim_platform sim_claim) cl w)) = []"
proof -
  let ?pf = "sim_platform sim_claim"
  obtain cl1 w1 where c: "create_sandbox (Suc 0) ?pf sim_create (new_client sim_direct) 0 = Some (Inr 0, cl1, w1)"
    using sim_create_runs by blast
  have st: "(client_step ?pf)\<^sup>*\<^sup>* (new_client sim_direct) cl1"
    by (rule r_into_rtranclp) (rule client_step.create [OF c])
  obtain n where "dict_get (cl_registry cl1) = (dict_get (cl_registry (new_client sim_direct)))((cr_namespace sim_create, n) \<mapsto> 0)"
    by (rule create_success [OF new_client_ok c])
  then have "cl_registry cl1 \<noteq> []" by (metis fun_upd_same map_of.simps(1) option.distinct(1))
  moreover have "cl_registry (fst (delete_all ?pf cl1 w1)) = []"
    by (rule delete_all_empties [OF st]) (simp add: sim_platform_def sim_kube_def)
  ultimately show ?thesis by blast
qed

text \<open>(C32) A lookup that fails closes the handle it knows but keeps it tracked, so that clean-up still reaches its
  claim. \<^verbatim>\<open>list_active_sandboxes\<close> undoes this: it drops the entry of every closed handle, and with it what
  \<^verbatim>\<open>delete_all\<close> and the automatic clean-up work from, although nothing was deleted.\<close>

theorem failed_lookup_keeps_tracking:
  assumes "(client_step pf)\<^sup>*\<^sup>* (new_client cfg) cl" and "get_sandbox fuel pf n ns timeout cl w = Some (Inl e, cl', w')"
  shows "e = SandboxNotFoundError \<and> cl_registry cl' = cl_registry cl
    \<and> (\<forall>a. dict_get (cl_registry cl) (ns, n) = Some a \<longrightarrow> (\<exists>h. handle_at cl' a = Some h \<and> \<not> is_active h))
    \<and> (ns, n) \<notin> set (fst (list_active_sandboxes cl'))
    \<and> (ns, n) \<notin> fst ` set (cl_registry (snd (list_active_sandboxes cl')))"
proof -
  have ok: "client_ok cl" by (rule reachable_client_ok [OF assms(1)])
  have closed: "e = SandboxNotFoundError \<and> cl_registry cl' = cl_registry cl
    \<and> (\<forall>a. dict_get (cl_registry cl) (ns, n) = Some a \<longrightarrow> (\<exists>h. handle_at cl' a = Some h \<and> \<not> is_active h))"
  proof (cases "dict_get (cl_registry cl) (ns, n)")
    case None
    with assms(2) show ?thesis
      by (auto simp: get_sandbox_def Let_def split: option.splits prod.splits sum.splits)
  next
    case (Some a)
    obtain h where h: "handle_at cl a = Some h"
      using client_okD(1) [OF ok Some] by (auto simp: tracked_def split: option.splits)
    from assms(2) Some obtain w1 where c: "close_at (pf_env pf) a cl w1 = (cl', w')" and e: "e = SandboxNotFoundError"
      by (auto simp: get_sandbox_def Let_def split: option.splits prod.splits sum.splits if_splits)
    obtain h1 w2 where cc: "close_connection (pf_env pf) h w1 = (h1, w2)" by (cases "close_connection (pf_env pf) h w1")
    then have "cl' = set_handle a h1 cl" using c h by (simp add: close_at_def)
    with e Some close_connection_fields [OF cc] show ?thesis by (simp add: is_active_def)
  qed
  moreover have "dict_ok (cl_registry cl')" using closed ok by (simp add: client_ok_def)
  ultimately show ?thesis
    by (auto simp: list_active_sandboxes_def Let_def split: option.splits)
qed

theorem failed_lookup_keeps_tracking_witness:
  "\<exists>n cl1 w1 cl2 w2. dict_get (cl_registry cl1) (''ns'', n) = Some 0
     \<and> get_sandbox (Suc 0) (sim_platform sim_claim) n ''ns'' 0 cl1 w1 = Some (Inl SandboxNotFoundError, cl2, w2)
     \<and> dict_get (cl_registry cl2) (''ns'', n) = Some 0 \<and> (''ns'', n) \<notin> set (fst (list_active_sandboxes cl2))"
proof -
  let ?pf = "sim_platform sim_claim"
  obtain cl1 w1 where c: "create_sandbox (Suc 0) ?pf sim_create (new_client sim_direct) 0 = Some (Inr 0, cl1, w1)"
    using sim_create_runs by blast
  have st: "(client_step ?pf)\<^sup>*\<^sup>* (new_client sim_direct) cl1"
    by (rule r_into_rtranclp) (rule client_step.create [OF c])
  obtain n where "dict_get (cl_registry cl1) = (dict_get (cl_registry (new_client sim_direct)))((''ns'', n) \<mapsto> 0)"
    by (rule create_success [OF new_client_ok c]) (simp add: sim_create_def)
  then have n: "dict_get (cl_registry cl1) (''ns'', n) = Some 0" by simp
  have "lookup_sandbox (Suc 0) (pf_kube ?pf) n ''ns'' 0 w1 = Some (Inl TimeoutError, w1)"
    by (simp add: lookup_sandbox_def resolve_sandbox_name_def watch_claim_def sim_platform_def sim_kube_def)
  then obtain e cl2 w2 where g: "get_sandbox (Suc 0) ?pf n ''ns'' 0 cl1 w1 = Some (Inl e, cl2, w2)"
    using n by (cases "close_at (pf_env ?pf) 0 cl1 w1") (simp add: get_sandbox_def)
  have "e = SandboxNotFoundError" "cl_registry cl2 = cl_registry cl1"
    "(''ns'', n) \<notin> set (fst (list_active_sandboxes cl2))"
    using failed_lookup_keeps_tracking [OF st g] by simp_all
  with n g show ?thesis by (intro exI conjI) auto
qed

end
