(* ===== verification/Py_Path.thy ===== *)
theory Py_Path
  imports Py_Prelude
begin

text \<open>
  The parts of the Python library that deal with paths and URLs as text: UTF-8, percent-encoding
  (\<^verbatim>\<open>urllib.parse.quote\<close>) with its inverse, \<^verbatim>\<open>posixpath.normpath\<close>, and how a file system walks a
  path. Bytes are \<open>char\<close>s as well.
\<close>

section \<open>UTF-8 and percent-encoding\<close>

definition utf8_char :: "char \<Rightarrow> string" where
  "utf8_char c = (if code c < 128 then [c] else [char_of (192 + code c div 64), char_of (128 + code c mod 64)])"

definition utf8_encode :: "string \<Rightarrow> string" where
  "utf8_encode s = concat (map utf8_char s)"

fun utf8_decode :: "string \<Rightarrow> string" where
  "utf8_decode [] = []"
| "utf8_decode [c] = [c]"
| "utf8_decode (c # d # s) =
     (if code c < 128 then c # utf8_decode (d # s) else char_of (64 * (code c - 192) + (code d - 128)) # utf8_decode s)"

definition always_safe :: "char \<Rightarrow> bool" where
  "always_safe c = (is_lower c \<or> is_upper c \<or> is_digit c \<or> c \<in> {CHR ''_'', CHR ''.'', CHR ''-'', CHR ''~''})"

definition hex_char :: "nat \<Rightarrow> char" where
  "hex_char n = (if n < 10 then char_of (48 + n) else char_of (55 + n))"

definition quote_byte :: "char \<Rightarrow> string" where
  "quote_byte c = (if always_safe c then [c] else [CHR ''%'', hex_char (code c div 16), hex_char (code c mod 16)])"

text \<open>\<^verbatim>\<open>urllib.parse.quote(s, safe='')\<close>.\<close>

definition quote :: "string \<Rightarrow> string" where
  "quote s = concat (map quote_byte (utf8_encode s))"

text \<open>Percent-decoding (RFC 3986), as a server does it.\<close>

definition is_pct_hex :: "char \<Rightarrow> bool" where
  "is_pct_hex c = (is_digit c \<or> (65 \<le> code c \<and> code c \<le> 70) \<or> (97 \<le> code c \<and> code c \<le> 102))"

definition pct_hex_val :: "char \<Rightarrow> nat" where
  "pct_hex_val c = (if is_digit c then code c - 48 else if code c \<le> 70 then code c - 55 else code c - 87)"

fun unquote :: "string \<Rightarrow> string" where
  "unquote [] = []"
| "unquote (c # s) =
     (if c = CHR ''%'' then
        (case s of a # b # t \<Rightarrow> if is_pct_hex a \<and> is_pct_hex b then char_of (16 * pct_hex_val a + pct_hex_val b) # unquote t
                                else c # unquote s
         | _ \<Rightarrow> c # unquote s)
      else c # unquote s)"

section \<open>Paths\<close>

abbreviation slash :: char where
  "slash \<equiv> CHR ''/''"

definition splitroot :: "string \<Rightarrow> string \<times> string" where
  "splitroot p =
     (if \<not> startswith p ''/'' then ([], p)
      else if \<not> startswith p ''//'' \<or> startswith p ''///'' then (''/'', drop 1 p)
      else (''//'', drop 2 p))"

definition norm_step :: "string \<Rightarrow> string list \<Rightarrow> string \<Rightarrow> string list" where
  "norm_step rt new_comps part =
     (if part = [] \<or> part = ''.'' then new_comps
      else if part \<noteq> ''..'' \<or> (rt = [] \<and> new_comps = []) \<or> (new_comps \<noteq> [] \<and> last new_comps = ''..'')
      then new_comps @ [part]
      else butlast new_comps)"

definition normpath :: "string \<Rightarrow> string" where
  "normpath path =
     (if path = [] then ''.''
      else case splitroot path of (rt, rest) \<Rightarrow>
        (let p = rt @ py_join ''/'' (foldl (norm_step rt) [] (py_split slash rest)) in
         if p = [] then ''.'' else p))"

text \<open>How a file system without symbolic links follows the components of a path from a directory.\<close>

definition walk_step :: "string list \<Rightarrow> string \<Rightarrow> string list" where
  "walk_step dir part = (if part = [] \<or> part = ''.'' then dir else if part = ''..'' then butlast dir else dir @ [part])"

definition walk :: "string list \<Rightarrow> string list \<Rightarrow> string list" where
  "walk dir comps = foldl walk_step dir comps"

text \<open>Whether a relative path climbs above the directory it starts from, \<open>d\<close> levels below it.\<close>

fun escapes :: "nat \<Rightarrow> string list \<Rightarrow> bool" where
  "escapes d [] = False"
| "escapes d (c # cs) =
     (if c = [] \<or> c = ''.'' then escapes d cs
      else if c = ''..'' then d = 0 \<or> escapes (d - 1) cs
      else escapes (Suc d) cs)"

section \<open>Lemmas: encoding\<close>

lemma code_less: "code c < 256"
  using range_nat_of_char by (metis atLeastLessThan_iff rangeI)

lemma code_div:
  "code c div 16 < 16" "code c div 64 < 4"
  using code_less [of c] by (auto intro: less_mult_imp_div_less)

lemma utf8_decode_char: "utf8_decode (utf8_char c @ s) = c # utf8_decode s"
proof (cases "code c < 128")
  case True
  then show ?thesis by (cases s) (auto simp: utf8_char_def)
next
  case False
  have "192 + code c div 64 < 256" "128 + code c mod 64 < 256"
    using code_div(2) [of c] mod_less_divisor [of 64 "code c"] by linarith+
  then have hi: "(192 + code c div 64) mod 256 = 192 + code c div 64" "(128 + code c mod 64) mod 256 = 128 + code c mod 64"
    by (simp_all only: mod_less)
  have "64 * (code c div 64) + code c mod 64 = code c" by simp
  with False hi show ?thesis by (simp add: utf8_char_def)
qed

lemma utf8_decode_encode [simp]: "utf8_decode (utf8_encode s) = s"
  by (induction s) (auto simp: utf8_encode_def utf8_decode_char)

lemma utf8_encode_append [simp]: "utf8_encode (s @ t) = utf8_encode s @ utf8_encode t"
  by (simp add: utf8_encode_def)

lemma hex_char_facts:
  assumes "n < 16"
  shows "is_pct_hex (hex_char n)" "pct_hex_val (hex_char n) = n"
proof -
  have "n \<in> set [0..<16]" using assms by simp
  then have "is_pct_hex (hex_char n) \<and> pct_hex_val (hex_char n) = n"
    by (simp add: upt_rec is_pct_hex_def pct_hex_val_def hex_char_def is_digit_def) auto
  then show "is_pct_hex (hex_char n)" "pct_hex_val (hex_char n) = n" by auto
qed

lemma unquote_hex: "unquote (CHR ''%'' # hex_char (code c div 16) # hex_char (code c mod 16) # s) = c # unquote s"
proof -
  have "code c div 16 < 16" "code c mod 16 < 16" using code_div(1) [of c] by simp_all
  then show ?thesis by (simp add: hex_char_facts)
qed

lemma unquote_quote_byte [simp]: "unquote (quote_byte c @ s) = c # unquote s"
proof (cases "always_safe c")
  case True
  then have "c \<noteq> CHR ''%''" by (auto simp: always_safe_def is_lower_def is_upper_def is_digit_def)
  with True show ?thesis by (simp add: quote_byte_def)
next
  case False
  then show ?thesis by (simp only: quote_byte_def if_False append.simps unquote_hex)
qed

lemma unquote_quote_bytes: "unquote (concat (map quote_byte bs) @ s) = bs @ unquote s"
  by (induction bs) auto

lemma unquote_quote: "unquote (quote s @ t) = utf8_encode s @ unquote t"
  by (simp add: quote_def unquote_quote_bytes)

definition url_safe :: "char \<Rightarrow> bool" where
  "url_safe c = (always_safe c \<or> c = CHR ''%'')"

lemma quote_url_safe: "list_all url_safe (quote s)"
proof -
  have "list_all url_safe (quote_byte c)" for c
  proof -
    have n: "code c div 16 < 16" "code c mod 16 < 16" using code_div(1) [of c] by simp_all
    have h: "always_safe (hex_char n)" if "n < 16" for n
    proof -
      have "n \<in> set [0..<16]" using that by simp
      then show ?thesis by (simp add: upt_rec always_safe_def hex_char_def is_digit_def is_upper_def) auto
    qed
    show ?thesis using h [OF n(1)] h [OF n(2)] by (auto simp: quote_byte_def url_safe_def)
  qed
  then show ?thesis by (auto simp: quote_def list_all_iff)
qed

section \<open>Lemmas: normal paths\<close>

lemma last_not_up: "x \<notin> set xs \<Longrightarrow> xs \<noteq> [] \<Longrightarrow> last xs \<noteq> x"
  by (metis last_in_set)

lemma not_in_butlast: "x \<notin> set xs \<Longrightarrow> x \<notin> set (butlast xs)"
  by (metis in_set_butlastD)

lemma walk_norm:
  assumes "''..'' \<notin> set new" and "\<not> escapes (length new) cs"
  shows "walk (dir @ new) cs = dir @ foldl (norm_step rt) new cs \<and> ''..'' \<notin> set (foldl (norm_step rt) new cs)"
  using assms
proof (induction cs arbitrary: new)
  case (Cons c cs)
  note up = last_not_up [OF Cons.prems(1)]
  consider "c = [] \<or> c = ''.''" | "c = ''..''" | "c \<noteq> []" "c \<noteq> ''.''" "c \<noteq> ''..''" by blast
  then have "walk_step (dir @ new) c = dir @ norm_step rt new c \<and> ''..'' \<notin> set (norm_step rt new c)
    \<and> \<not> escapes (length (norm_step rt new c)) cs"
  proof cases
    case 2
    then have "new \<noteq> []" using Cons.prems(2) by auto
    with 2 Cons.prems up show ?thesis
      by (simp add: walk_step_def norm_step_def butlast_append not_in_butlast)
  qed (use Cons.prems in \<open>auto simp: walk_step_def norm_step_def\<close>)
  with Cons.IH show ?case by (simp add: walk_def)
qed (simp add: walk_def)

lemma norm_absolute: "rt \<noteq> [] \<Longrightarrow> ''..'' \<notin> set new \<Longrightarrow> ''..'' \<notin> set (foldl (norm_step rt) new cs)"
proof (induction cs arbitrary: new)
  case (Cons c cs)
  then have "''..'' \<notin> set (norm_step rt new c)"
    using last_not_up [OF Cons.prems(2)] by (auto simp: norm_step_def not_in_butlast)
  with Cons show ?case by simp
qed simp

lemma norm_keeps_up: "new \<noteq> [] \<Longrightarrow> hd new = ''..'' \<Longrightarrow>
    foldl (norm_step []) new cs \<noteq> [] \<and> hd (foldl (norm_step []) new cs) = ''..''"
proof (induction cs arbitrary: new)
  case (Cons c cs)
  have "norm_step [] new c \<noteq> [] \<and> hd (norm_step [] new c) = ''..''"
    using Cons.prems by (cases new; cases "tl new") (auto simp: norm_step_def)
  with Cons.IH show ?case by simp
qed simp

lemma norm_escapes: "''..'' \<notin> set new \<Longrightarrow> escapes (length new) cs \<Longrightarrow> ''..'' \<in> set (foldl (norm_step []) new cs)"
proof (induction cs arbitrary: new)
  case (Cons c cs)
  show ?case
  proof (cases "c = ''..'' \<and> new = []")
    case True
    then have "foldl (norm_step []) [''..''] cs \<noteq> [] \<and> hd (foldl (norm_step []) [''..''] cs) = ''..''"
      by (intro norm_keeps_up) auto
    moreover have "norm_step [] new c = [''..'']" using True by (simp add: norm_step_def)
    ultimately show ?thesis using hd_in_set by fastforce
  next
    case False
    have "''..'' \<notin> set (norm_step [] new c)" "escapes (length (norm_step [] new c)) cs"
      using Cons.prems False last_not_up [OF Cons.prems(1)]
      by (auto simp: norm_step_def not_in_butlast split: if_splits)
    with Cons.IH show ?thesis by simp
  qed
qed simp

lemma norm_components:
  assumes "\<forall>c \<in> set cs. slash \<notin> set c" and "\<forall>c \<in> set new. c \<noteq> [] \<and> c \<noteq> ''.'' \<and> slash \<notin> set c"
  shows "\<forall>c \<in> set (foldl (norm_step rt) new cs). c \<noteq> [] \<and> c \<noteq> ''.'' \<and> slash \<notin> set c"
  using assms
proof (induction cs arbitrary: new)
  case (Cons c cs)
  have "\<forall>d \<in> set (norm_step rt new c). d \<noteq> [] \<and> d \<noteq> ''.'' \<and> slash \<notin> set d"
    using Cons.prems in_set_butlastD [of _ new] by (auto simp: norm_step_def)
  with Cons.IH [of "norm_step rt new c"] Cons.prems(1) show ?case by simp
qed simp

end
