(* ===== verification/Filesystem.thy ===== *)
theory Filesystem
  imports Connector Py_Path
begin

text \<open>
  \<^verbatim>\<open>files/filesystem.py\<close>: uploads, downloads, listing and deletion over either runtime's HTTP API. The
  destination of a download is a \<^verbatim>\<open>BinaryWriter\<close> with a state of its own; what the code relies on of a
  writer is the locale \<open>binary_writer\<close>, interpreted on the \<^verbatim>\<open>BytesIO\<close> that \<^verbatim>\<open>read\<close> writes to. Tracing
  attributes and the release of a response's connection are not modelled.
\<close>

section \<open>Limits\<close>

definition STREAM_CHUNK_SIZE :: int where
  "STREAM_CHUNK_SIZE = 64 * 1024"

text \<open>\<^verbatim>\<open>max_bytes\<close> as passed: \<open>JNull\<close> is \<^verbatim>\<open>None\<close>; a bool is not an \<^verbatim>\<open>int\<close> here.\<close>

definition download_limit :: "sandbox_file_config \<Rightarrow> json \<Rightarrow> int option res" where
  "download_limit config max_bytes =
     (case max_bytes of
        JNull \<Rightarrow> Inr (max_download_size config)
      | JInt n \<Rightarrow>
          (if n < 0 then Inl ValueError
           else Inr (Some (case max_download_size config of None \<Rightarrow> n | Some m \<Rightarrow> min m n)))
      | _ \<Rightarrow> Inl ValueError)"

definition check_download_headers :: "headers \<Rightarrow> int option \<Rightarrow> unit res" where
  "check_download_headers hs max_bytes =
     (case max_bytes of
        None \<Rightarrow> Inr ()
      | Some m \<Rightarrow>
          (if py_lower (py_strip (case ci_get hs ''Content-Encoding'' of None \<Rightarrow> ''identity'' | Some v \<Rightarrow> v)) \<noteq> ''identity''
           then Inr ()
           else case Option.bind (ci_get hs ''Content-Length'') parse_int of
             None \<Rightarrow> Inr ()
           | Some declared \<Rightarrow> if declared > m then Inl SandboxResponseTooLargeError else Inr ()))"

section \<open>Writing to a destination\<close>

text \<open>\<^verbatim>\<open>write(content)\<close> of a destination: the count it reports, or \<^verbatim>\<open>None\<close>.\<close>

type_synonym 'd writer = "string \<Rightarrow> ('d, exn, int option) exec"

function write_loop :: "'d writer \<Rightarrow> string \<Rightarrow> nat \<Rightarrow> ('d, exn, int) exec" where
  "write_loop wr content written d =
     (if \<not> written < length content then (Inr (int written), d)
      else case wr (drop written content) d of
        (Inl e, d') \<Rightarrow> (Inl e, d')
      | (Inr None, d') \<Rightarrow> (Inl OSError, d')
      | (Inr (Some count), d') \<Rightarrow>
          (if count \<le> 0 then (Inl OSError, d')
           else if count > int (length content) - int written then (Inl OSError, d')
           else write_loop wr content (written + nat count) d'))"
  by pat_completeness auto
termination
  by (relation "measure (\<lambda>(wr, content, written, d). length content - written)") auto

declare write_loop.simps [simp del]

definition write_all :: "'d writer \<Rightarrow> string \<Rightarrow> ('d, exn, int) exec" where
  "write_all wr content = write_loop wr content 0"

text \<open>\<^verbatim>\<open>io.BytesIO\<close> as \<^verbatim>\<open>read\<close> uses it: written only at its end.\<close>

definition bytesio_write :: "string writer" where
  "bytesio_write content d = (Inr (Some (int (length content))), d @ content)"

section \<open>Reading the content of an upload\<close>

datatype read_result = ReadBytes string | ReadStr string | ReadOther

text \<open>The content passed to \<^verbatim>\<open>write\<close>: text, bytes, a text stream, an object without \<^verbatim>\<open>read\<close>, or a binary stream
  given by what its \<^verbatim>\<open>read\<close> calls return before it is at its end.\<close>

datatype upload = UText string | UBytes string | UTextStream | UNoRead | UStream "read_result list"

fun validate_binary_stream :: "upload \<Rightarrow> unit res" where
  "validate_binary_stream UTextStream = Inl TypeError"
| "validate_binary_stream UNoRead = Inl TypeError"
| "validate_binary_stream _ = Inr ()"

fun read_binary_chunk :: "read_result \<Rightarrow> string res" where
  "read_binary_chunk (ReadStr s) = Inl TypeError"
| "read_binary_chunk ReadOther = Inl TypeError"
| "read_binary_chunk (ReadBytes b) = Inr b"

fun iter_binary_chunks :: "read_result list \<Rightarrow> string list \<times> exn option" where
  "iter_binary_chunks [] = ([], None)"
| "iter_binary_chunks (r # rs) =
     (case read_binary_chunk r of
        Inl e \<Rightarrow> ([], Some e)
      | Inr chunk \<Rightarrow>
          (if chunk = [] then ([], None)
           else case iter_binary_chunks rs of (chunks, e) \<Rightarrow> (chunk # chunks, e)))"

text \<open>\<^verbatim>\<open>secrets.token_hex\<close>, and the headers \<^verbatim>\<open>urllib3\<close> renders for a form field with a file name.\<close>

record 'w form_lib =
  fl_token_hex :: "'w \<Rightarrow> string \<times> 'w"
  fl_render_headers :: "string \<Rightarrow> string"

abbreviation crlf :: string where
  "crlf \<equiv> [CHR 0x0D, CHR 0x0A]"

definition multipart_framing :: "'w form_lib \<Rightarrow> string \<Rightarrow> 'w \<Rightarrow> (string \<times> string \<times> string) \<times> 'w" where
  "multipart_framing lib path w =
     (case fl_token_hex lib w of (boundary, w') \<Rightarrow>
        ((''--'' @ boundary @ crlf @ fl_render_headers lib path,
          crlf @ ''--'' @ boundary @ ''--'' @ crlf,
          ''multipart/form-data; boundary='' @ boundary), w'))"

definition iter_multipart_body :: "string \<Rightarrow> read_result list \<Rightarrow> string \<Rightarrow> http_body" where
  "iter_multipart_body prefix content suffix =
     (case iter_binary_chunks content of
        (chunks, None) \<Rightarrow> ChunksBody (prefix # chunks @ [suffix]) None
      | (chunks, Some e) \<Rightarrow> ChunksBody (prefix # chunks) (Some e))"

section \<open>Paths and endpoints\<close>

definition encode_segment :: "string \<Rightarrow> string" where
  "encode_segment segment =
     (if segment = ''.'' then ''%2E'' else if segment = ''..'' then ''%2E%2E'' else quote segment)"

definition sandboxd_files_endpoint :: "string \<Rightarrow> string" where
  "sandboxd_files_endpoint path = ''v1/files/'' @ py_join ''%2F'' (map encode_segment (py_split slash path))"

definition control_char :: "char \<Rightarrow> bool" where
  "control_char c = (code c < 32 \<or> code c = 127)"

definition safe_upload_path :: "string \<Rightarrow> string res" where
  "safe_upload_path path =
     (if list_ex control_char path then Inl ValueError
      else if py_strip path = [] then Inl ValueError
      else
        (let normalized = lstrip_char slash (normpath path) in
         if normalized = [] \<or> normalized = ''.'' then Inl ValueError
         else if ''..'' \<in> set (py_split slash normalized) then Inl ValueError
         else Inr normalized))"

definition checked_path :: "bool \<Rightarrow> string \<Rightarrow> string res" where
  "checked_path allow_unsafe_paths path = (if allow_unsafe_paths then Inr path else safe_upload_path path)"

definition download_endpoint :: "connector \<Rightarrow> string \<Rightarrow> string" where
  "download_endpoint c path =
     (if is_sandboxd (c_config c) then sandboxd_files_endpoint path else ''download/'' @ quote path)"

definition plain_args :: "py_timeout \<Rightarrow> request_args" where
  "plain_args timeout = \<lparr>ra_headers = None, ra_timeout = timeout, ra_stream = False,
     ra_allowed_statuses = None, ra_disable_retries = False, ra_body = NoBody\<rparr>"

section \<open>Operations\<close>

text \<open>The content as bytes or as a stream.\<close>

definition upload_bytes :: "upload \<Rightarrow> (string + read_result list) res" where
  "upload_bytes content =
     (case content of
        UText s \<Rightarrow> Inr (Inl (utf8_encode s))
      | UBytes b \<Rightarrow> Inr (Inl b)
      | UStream rs \<Rightarrow> Inr (Inr rs)
      | _ \<Rightarrow> bindE (validate_binary_stream content) (\<lambda>_. Inr (Inr [])))"

text \<open>The request \<^verbatim>\<open>write\<close> sends: method, endpoint and arguments.\<close>

definition write_request ::
  "'w form_lib \<Rightarrow> connector \<Rightarrow> string \<Rightarrow> string + read_result list \<Rightarrow> py_timeout \<Rightarrow> 'w
   \<Rightarrow> (string \<times> string \<times> request_args) \<times> 'w"
where
  "write_request lib c path content timeout w =
     (if is_sandboxd (c_config c) then
        (let args = (plain_args timeout)\<lparr>ra_headers := Some [(''Content-Type'', ''application/octet-stream'')]\<rparr> in
         ((''PUT'', sandboxd_files_endpoint path,
           case content of
             Inl b \<Rightarrow> args\<lparr>ra_body := BytesBody b\<rparr>
           | Inr rs \<Rightarrow> args\<lparr>ra_body := (case iter_binary_chunks rs of (cs, e) \<Rightarrow> ChunksBody cs e),
                            ra_disable_retries := True\<rparr>), w))
      else case content of
        Inr rs \<Rightarrow>
          (case multipart_framing lib path w of ((prefix, suffix, content_type), w') \<Rightarrow>
             ((''POST'', ''upload'',
               (plain_args timeout)\<lparr>ra_headers := Some [(''Content-Type'', content_type)],
                  ra_body := iter_multipart_body prefix rs suffix, ra_disable_retries := True\<rparr>), w'))
      | Inl b \<Rightarrow> ((''POST'', ''upload'', (plain_args timeout)\<lparr>ra_body := FileForm path b\<rparr>), w))"

definition fs_write ::
  "nat \<Rightarrow> 'w env \<Rightarrow> 'w form_lib \<Rightarrow> string \<Rightarrow> upload \<Rightarrow> py_timeout \<Rightarrow> bool \<Rightarrow> connector \<Rightarrow> 'w
   \<Rightarrow> (unit res \<times> connector \<times> 'w) option"
where
  "fs_write fuel env lib path content timeout allow_unsafe_paths c w =
     (case bindE (upload_bytes content) (\<lambda>b. bindE (checked_path allow_unsafe_paths path) (\<lambda>p. Inr (b, p))) of
        Inl e \<Rightarrow> Some (Inl e, c, w)
      | Inr (b, p) \<Rightarrow>
          (case write_request lib c p b timeout w of ((http_method, endpoint, args), w1) \<Rightarrow>
             map_option (\<lambda>(r, c', w'). (bindE r (\<lambda>_. Inr ()), c', w'))
               (send_request fuel env http_method endpoint args c w1)))"

text \<open>The loop of \<^verbatim>\<open>_read_to\<close> over the chunks of the response; \<open>err\<close> is the exception that ends the stream.\<close>

fun read_loop ::
  "'d writer \<Rightarrow> int option \<Rightarrow> int \<Rightarrow> string list \<Rightarrow> exn option \<Rightarrow> ('d, exn, int) exec"
where
  "read_loop wr max_bytes sofar [] err d = (case err of None \<Rightarrow> (Inr sofar, d) | Some e \<Rightarrow> (Inl e, d))"
| "read_loop wr max_bytes sofar (chunk # chunks) err d =
     (if chunk = [] then read_loop wr max_bytes sofar chunks err d
      else if (case max_bytes of None \<Rightarrow> False | Some m \<Rightarrow> int (length chunk) > m - sofar) then
        (let remaining = the max_bytes - sofar in
         if remaining > 0 then
           (case write_all wr (take (nat remaining) chunk) d of
              (Inl e, d') \<Rightarrow> (Inl e, d')
            | (Inr n, d') \<Rightarrow> (Inl SandboxResponseTooLargeError, d'))
         else (Inl SandboxResponseTooLargeError, d))
      else case write_all wr chunk d of
        (Inl e, d') \<Rightarrow> (Inl e, d')
      | (Inr n, d') \<Rightarrow> read_loop wr max_bytes (sofar + n) chunks err d')"

definition receive :: "'d writer \<Rightarrow> int option \<Rightarrow> http_response \<Rightarrow> ('d, exn, int) exec" where
  "receive wr max_bytes response d =
     (if \<not> (200 \<le> rs_status response \<and> rs_status response < 300)
      then (Inl (SandboxRequestError (Some (rs_status response))), d)
      else case check_download_headers (rs_headers response) max_bytes of
        Inl e \<Rightarrow> (Inl e, d)
      | Inr _ \<Rightarrow> read_loop wr max_bytes 0 (rs_chunks response) (rs_stream_error response) d)"

definition read_to ::
  "nat \<Rightarrow> 'w env \<Rightarrow> sandbox_file_config \<Rightarrow> string \<Rightarrow> 'd writer option \<Rightarrow> py_timeout \<Rightarrow> bool \<Rightarrow> json
   \<Rightarrow> connector \<Rightarrow> 'd \<Rightarrow> 'w \<Rightarrow> (int res \<times> connector \<times> 'd \<times> 'w) option"
where
  "read_to fuel env config path destination timeout allow_unsafe_paths max_bytes c d w =
     (case destination of
        None \<Rightarrow> Some (Inl TypeError, c, d, w)
      | Some wr \<Rightarrow>
          (case bindE (download_limit config max_bytes) (\<lambda>m.
                bindE (checked_path allow_unsafe_paths path) (\<lambda>p. Inr (m, p))) of
             Inl e \<Rightarrow> Some (Inl e, c, d, w)
           | Inr (m, p) \<Rightarrow>
               (case send_request fuel env ''GET'' (download_endpoint c p)
                       ((plain_args timeout)\<lparr>ra_stream := True\<rparr>) c w of
                  None \<Rightarrow> None
                | Some (Inl e, c1, w1) \<Rightarrow> Some (Inl e, c1, d, w1)
                | Some (Inr (response, token), c1, w1) \<Rightarrow>
                    (case receive wr m response d of (r, d1) \<Rightarrow>
                       (case (r, token) of
                          (Inl (RequestException s), Some t) \<Rightarrow>
                            (case invalidate_sandboxd_transport env None (Some t) c1 w1 of (c2, w2) \<Rightarrow>
                               Some (r, c2, d1, w2))
                        | _ \<Rightarrow> Some (r, c1, d1, w1))))))"

definition fs_read ::
  "nat \<Rightarrow> 'w env \<Rightarrow> sandbox_file_config \<Rightarrow> string \<Rightarrow> py_timeout \<Rightarrow> bool \<Rightarrow> connector \<Rightarrow> 'w
   \<Rightarrow> (string res \<times> connector \<times> 'w) option"
where
  "fs_read fuel env config path timeout allow_unsafe_paths c w =
     (if max_download_size config \<noteq> None then
        map_option (\<lambda>(r, c', d, w'). (bindE r (\<lambda>_. Inr d), c', w'))
          (read_to fuel env config path (Some bytesio_write) timeout allow_unsafe_paths JNull c [] w)
      else case checked_path allow_unsafe_paths path of
        Inl e \<Rightarrow> Some (Inl e, c, w)
      | Inr p \<Rightarrow>
          map_option (\<lambda>(r, c', w'). (bindE r (\<lambda>(response, t). Inr (rs_body response)), c', w'))
            (send_request fuel env ''GET'' (download_endpoint c p) (plain_args timeout) c w))"

section \<open>Listing, existence, deletion\<close>

text \<open>\<^verbatim>\<open>FileEntry\<close> of \<^verbatim>\<open>models.py\<close>: building one is pydantic's, decoding its time is \<^verbatim>\<open>datetime\<close>'s. The model is
  parametric in both.\<close>

record ('t, 'entry) entry_lib =
  el_fromtimestamp :: "json \<Rightarrow> 't res"
  el_fromisoformat :: "string \<Rightarrow> 't res"
  el_construct :: "json \<Rightarrow> json \<Rightarrow> json \<Rightarrow> 't \<Rightarrow> json \<Rightarrow> 'entry res"

definition from_legacy :: "('t, 'entry) entry_lib \<Rightarrow> json \<Rightarrow> 'entry res" where
  "from_legacy lib entry =
     bindE (jindex entry ''name'') (\<lambda>name. bindE (jindex entry ''size'') (\<lambda>sz. bindE (jindex entry ''type'') (\<lambda>ty.
     bindE (jget_dflt entry ''mod_time'' (JInt 0)) (\<lambda>t. bindE (el_fromtimestamp lib t) (\<lambda>modified.
       el_construct lib name sz ty modified JNull)))))"

definition replace_Z :: "string \<Rightarrow> string" where
  "replace_Z s = concat (map (\<lambda>c. if c = CHR ''Z'' then ''+00:00'' else [c]) s)"

definition from_sandboxd :: "('t, 'entry) entry_lib \<Rightarrow> json \<Rightarrow> 'entry res" where
  "from_sandboxd lib entry =
     bindE (jindex entry ''name'') (\<lambda>name. bindE (jindex entry ''size'') (\<lambda>sz. bindE (jindex entry ''type'') (\<lambda>ty.
     bindE (jindex entry ''modified_at'') (\<lambda>t.
     bindE (case t of JStr s \<Rightarrow> Inr s | _ \<Rightarrow> Inl AttributeError) (\<lambda>s.
     bindE (el_fromisoformat lib (replace_Z s)) (\<lambda>modified. bindE (jget entry ''mode'') (\<lambda>mode.
       el_construct lib name sz ty modified mode)))))))"

fun sandboxd_entries :: "('t, 'entry) entry_lib \<Rightarrow> json list \<Rightarrow> 'entry list res" where
  "sandboxd_entries lib [] = Inr []"
| "sandboxd_entries lib (entry # entries) =
     bindE (jget entry ''type'') (\<lambda>ty.
       if ty \<noteq> JStr ''file'' \<and> ty \<noteq> JStr ''directory'' then sandboxd_entries lib entries
       else case from_sandboxd lib entry of
         Inl e \<Rightarrow> Inl RuntimeError
       | Inr x \<Rightarrow> bindE (sandboxd_entries lib entries) (\<lambda>xs. Inr (x # xs)))"

definition decode_listing :: "('t, 'entry) entry_lib \<Rightarrow> bool \<Rightarrow> http_response \<Rightarrow> 'entry list res" where
  "decode_listing lib sandboxd response =
     (case rs_json response of
        None \<Rightarrow> Inl RuntimeError
      | Some listing \<Rightarrow>
          (if sandboxd then
             (case listing of
                JObj kvs \<Rightarrow>
                  (case map_of kvs ''entries'' of
                     None \<Rightarrow> Inl RuntimeError
                   | Some entries \<Rightarrow> bindE (jiter (jor entries (JList []))) (sandboxd_entries lib))
              | _ \<Rightarrow> Inl RuntimeError)
           else if \<not> truthy listing then Inr []
           else case bindE (jiter listing) (mapE (from_legacy lib)) of
             Inl e \<Rightarrow> Inl RuntimeError
           | Inr xs \<Rightarrow> Inr xs))"

definition fs_list ::
  "nat \<Rightarrow> 'w env \<Rightarrow> ('t, 'entry) entry_lib \<Rightarrow> string \<Rightarrow> py_timeout \<Rightarrow> connector \<Rightarrow> 'w
   \<Rightarrow> ('entry list res \<times> connector \<times> 'w) option"
where
  "fs_list fuel env lib path timeout c w =
     map_option (\<lambda>(r, c', w'). (bindE r (\<lambda>(response, t). decode_listing lib (is_sandboxd (c_config c)) response), c', w'))
       (send_request fuel env ''GET''
          (if is_sandboxd (c_config c) then sandboxd_files_endpoint path else ''list/'' @ quote path)
          (plain_args timeout) c w)"

definition fs_exists ::
  "nat \<Rightarrow> 'w env \<Rightarrow> string \<Rightarrow> py_timeout \<Rightarrow> connector \<Rightarrow> 'w \<Rightarrow> (bool res \<times> connector \<times> 'w) option"
where
  "fs_exists fuel env path timeout c w =
     (if is_sandboxd (c_config c) then
        map_option (\<lambda>(r, c', w'). (bindE r (\<lambda>(response, t). Inr (rs_status response \<noteq> 404)), c', w'))
          (send_request fuel env ''HEAD'' (sandboxd_files_endpoint path)
             ((plain_args timeout)\<lparr>ra_allowed_statuses := Some [404]\<rparr>) c w)
      else
        map_option (\<lambda>(r, c', w').
            (bindE r (\<lambda>(response, t). case rs_json response of
               None \<Rightarrow> Inl RuntimeError
             | Some j \<Rightarrow> bindE (jget_dflt j ''exists'' (JBool False)) (\<lambda>x. Inr (truthy x))), c', w'))
          (send_request fuel env ''GET'' (''exists/'' @ quote path) (plain_args timeout) c w))"

definition fs_delete ::
  "nat \<Rightarrow> 'w env \<Rightarrow> string \<Rightarrow> bool \<Rightarrow> py_timeout \<Rightarrow> connector \<Rightarrow> 'w \<Rightarrow> (unit res \<times> connector \<times> 'w) option"
where
  "fs_delete fuel env path recursive timeout c w =
     (if \<not> is_sandboxd (c_config c) then Some (Inl NotImplementedError, c, w)
      else if path = [] then Some (Inl ValueError, c, w)
      else map_option (\<lambda>(r, c', w'). (bindE r (\<lambda>_. Inr ()), c', w'))
             (send_request fuel env ''DELETE''
                (sandboxd_files_endpoint path @ (if recursive then ''?recursive=true'' else []))
                (plain_args timeout) c w))"

section \<open>Endpoints address the file that was asked for\<close>

lemma unquote_append_quoted: "unquote (encode_segment s @ t) = utf8_encode s @ unquote t"
proof -
  have "unquote (''%2E'' @ t) = ''.'' @ unquote t" "unquote (''%2E%2E'' @ t) = ''..'' @ unquote t"
    by (simp_all add: is_pct_hex_def is_digit_def pct_hex_val_def char_of_def bit_Suc_0_iff)
  moreover have "utf8_encode ''.'' = ''.''" "utf8_encode ''..'' = ''..''"
    by (simp_all add: utf8_encode_def utf8_char_def)
  ultimately show ?thesis by (simp add: encode_segment_def unquote_quote)
qed

lemma unquote_joined: "unquote (py_join ''%2F'' (map encode_segment ss)) = utf8_encode (py_join ''/'' ss)"
proof (induction ss)
  case (Cons w ss)
  have sep: "unquote (''%2F'' @ t) = ''/'' @ unquote t" for t
    by (simp add: is_pct_hex_def is_digit_def pct_hex_val_def char_of_def bit_Suc_0_iff)
  have enc: "utf8_encode ''/'' = ''/''" by (simp add: utf8_encode_def utf8_char_def)
  show ?case
  proof (cases ss)
    case Nil
    then show ?thesis using unquote_append_quoted [of w "[]"] by simp
  next
    case (Cons v vs)
    then show ?thesis
      using Cons.IH unfolding Cons list.map py_join.simps utf8_encode_append unquote_append_quoted sep enc
      by (simp only: list.map)
  qed
qed (simp add: utf8_encode_def)

lemma list_all_join: "list_all P sep \<Longrightarrow> \<forall>w \<in> set ws. list_all P w \<Longrightarrow> list_all P (py_join sep ws)"
  by (induction sep ws rule: py_join.induct) auto

lemma joined_url_safe: "list_all url_safe (py_join ''%2F'' (map encode_segment ss))"
proof (rule list_all_join)
  have "list_all url_safe (encode_segment s)" for s
    by (simp add: encode_segment_def quote_url_safe url_safe_def always_safe_def is_digit_def is_upper_def)
  then show "\<forall>w \<in> set (map encode_segment ss). list_all url_safe w" by simp
  show "list_all url_safe ''%2F''" by (simp add: url_safe_def always_safe_def is_digit_def is_upper_def)
qed

lemma encode_segment_not_dots: "d = ''.'' \<or> d = ''..'' \<Longrightarrow> encode_segment s \<noteq> d"
proof
  assume d: "d = ''.'' \<or> d = ''..''" and e: "encode_segment s = d"
  have "utf8_decode (unquote (encode_segment s)) = s"
    using unquote_append_quoted [of s "[]"] by (simp only: append_Nil2 unquote.simps utf8_decode_encode)
  with d e have "s = d" by auto
  with d e show False by (auto simp: encode_segment_def)
qed

text \<open>(C34) The sandboxd endpoint of a path is \<^verbatim>\<open>v1/files/\<close> and one path segment: it has only unreserved characters and
  percent signs, so nothing in it reads as a separator, a query or a fragment, and it is no dot
  segment that a client or a proxy could resolve. Percent-decoding it gives back the UTF-8 bytes of the
  path, so different paths have different endpoints.\<close>

theorem files_endpoint_roundtrip:
  "\<exists>e. sandboxd_files_endpoint path = ''v1/files/'' @ e
     \<and> unquote e = utf8_encode path \<and> utf8_decode (unquote e) = path
     \<and> list_all url_safe e \<and> e \<noteq> ''.'' \<and> e \<noteq> ''..''"
proof -
  let ?e = "py_join ''%2F'' (map encode_segment (py_split slash path))"
  have u: "unquote ?e = utf8_encode path" by (simp only: unquote_joined join_split)
  have "?e \<noteq> d" if d: "d = ''.'' \<or> d = ''..''" for d
  proof
    assume e: "?e = d"
    from d have "utf8_decode (unquote d) = d" "slash \<notin> set d" by auto
    with u e have "path = d" by simp
    with d have "py_split slash path = [path]" by auto
    then have "encode_segment path = d" using e by simp
    with encode_segment_not_dots [OF d] show False by blast
  qed
  then show ?thesis using u joined_url_safe by (intro exI [of _ ?e]) (auto simp: sandboxd_files_endpoint_def)
qed

section \<open>Upload paths stay in the sandbox\<close>

definition plain_component :: "string \<Rightarrow> bool" where
  "plain_component c = (c \<noteq> [] \<and> c \<noteq> ''.'' \<and> c \<noteq> ''..'' \<and> slash \<notin> set c)"

lemma splitroot_relative: "splitroot p = (rt, rest) \<Longrightarrow> rt = [] \<longleftrightarrow> \<not> startswith p ''/''"
  by (auto simp: splitroot_def split: if_splits)

lemma splitroot_slashes: "splitroot p = (rt, rest) \<Longrightarrow> list_all (\<lambda>c. c = slash) rt \<and> (rt = [] \<longrightarrow> rest = p)"
  by (auto simp: splitroot_def split: if_splits)

lemma split_no_sep: "\<forall>w \<in> set (py_split sep s). sep \<notin> set w"
  using split_by_no_sep [of _ "\<lambda>c. c = sep" s] by blast

lemma lstrip_slashes: "list_all (\<lambda>c. c = slash) rt \<Longrightarrow> lstrip_char slash (rt @ s) = lstrip_char slash s"
  by (induction rt) (auto simp: lstrip_char_def)

lemma lstrip_no_slash: "s = [] \<or> hd s \<noteq> slash \<Longrightarrow> lstrip_char slash s = s"
  by (cases s) (auto simp: lstrip_char_def)

lemma join_starts: "\<exists>x. py_join sep (c # cs) = c @ x"
  by (cases cs) auto

text \<open>The components that are left of a path, and the path they make.\<close>

definition norm_parts :: "string \<Rightarrow> string list" where
  "norm_parts path = (case splitroot path of (rt, rest) \<Rightarrow> foldl (norm_step rt) [] (py_split slash rest))"

lemma norm_parts_ok: "\<forall>c \<in> set (norm_parts path). c \<noteq> [] \<and> c \<noteq> ''.'' \<and> slash \<notin> set c"
proof -
  obtain rt rest where "splitroot path = (rt, rest)" by (cases "splitroot path")
  with norm_components [OF split_no_sep [of slash rest], of "[]" rt] show ?thesis by (simp add: norm_parts_def)
qed

lemma normalized_eq:
  assumes "path \<noteq> []"
  shows "lstrip_char slash (normpath path) =
     (if norm_parts path = [] then (if startswith path ''/'' then [] else ''.'') else py_join ''/'' (norm_parts path))"
proof -
  obtain rt rest where sp: "splitroot path = (rt, rest)" by (cases "splitroot path")
  let ?cs = "foldl (norm_step rt) [] (py_split slash rest)"
  have cs: "norm_parts path = ?cs" using sp by (simp add: norm_parts_def)
  have rt: "list_all (\<lambda>c. c = slash) rt" "rt = [] \<longleftrightarrow> \<not> startswith path ''/''"
    using splitroot_slashes [OF sp] splitroot_relative [OF sp] by auto
  show ?thesis
  proof (cases "?cs = []")
    case True
    have "lstrip_char slash rt = []" using lstrip_slashes [OF rt(1), of "[]"] by (simp add: lstrip_char_def)
    with True rt(2) assms sp cs show ?thesis by (cases "rt = []") (simp_all add: normpath_def lstrip_no_slash)
  next
    case False
    then obtain c cs where c: "?cs = c # cs" by (meson list.exhaust)
    with norm_parts_ok [of path] cs have "c \<noteq> []" "slash \<notin> set c" by auto
    then obtain a x where "py_join ''/'' ?cs = a # x" "a \<noteq> slash"
      using join_starts [of "''/''" c cs] unfolding c by (cases c) auto
    moreover from this have "normpath path = rt @ py_join ''/'' ?cs" using assms sp by (simp add: normpath_def)
    ultimately have "lstrip_char slash (normpath path) = py_join ''/'' ?cs"
      by (simp add: lstrip_slashes [OF rt(1)] lstrip_no_slash)
    with False cs show ?thesis by simp
  qed
qed

lemma join_norm_parts:
  assumes "norm_parts path \<noteq> []"
  shows "py_split slash (py_join ''/'' (norm_parts path)) = norm_parts path"
    and "py_join ''/'' (norm_parts path) \<noteq> []" and "py_join ''/'' (norm_parts path) \<noteq> ''.''"
proof -
  show s: "py_split slash (py_join ''/'' (norm_parts path)) = norm_parts path"
    using assms norm_parts_ok [of path] by (intro split_join) blast+
  show "py_join ''/'' (norm_parts path) \<noteq> []"
  proof
    assume "py_join ''/'' (norm_parts path) = []"
    with s have "norm_parts path = [[]]" by simp
    with norm_parts_ok [of path] show False by simp
  qed
  show "py_join ''/'' (norm_parts path) \<noteq> ''.''"
  proof
    assume "py_join ''/'' (norm_parts path) = ''.''"
    with s have "norm_parts path = [''.'']" by simp
    with norm_parts_ok [of path] show False by simp
  qed
qed

lemma safe_upload_path_eq:
  "safe_upload_path path =
     (if list_ex control_char path \<or> py_strip path = [] \<or> norm_parts path = [] \<or> ''..'' \<in> set (norm_parts path)
      then Inl ValueError else Inr (py_join ''/'' (norm_parts path)))"
proof -
  consider "list_ex control_char path" | "\<not> list_ex control_char path" "py_strip path = []"
    | "\<not> list_ex control_char path" "py_strip path \<noteq> []" by blast
  then show ?thesis
  proof cases
    case 3
    then have "path \<noteq> []" by (cases path) (simp_all add: py_strip_def)
    note n = normalized_eq [OF this]
    show ?thesis
    proof (cases "norm_parts path = []")
      case True
      with 3 n show ?thesis by (simp add: safe_upload_path_def)
    next
      case False
      then have e: "lstrip_char slash (normpath path) = py_join ''/'' (norm_parts path)" using n by (simp only: if_False)
      show ?thesis unfolding safe_upload_path_def Let_def e join_norm_parts(1) [OF False]
        using 3 False join_norm_parts(2,3) [OF False] by simp
    qed
  qed (simp_all add: safe_upload_path_def)
qed

lemma norm_parts_up:
  "''..'' \<in> set (norm_parts path) \<longleftrightarrow> \<not> startswith path ''/'' \<and> escapes 0 (py_split slash path)"
proof -
  obtain rt rest where sp: "splitroot path = (rt, rest)" by (cases "splitroot path")
  note r = splitroot_relative [OF sp] splitroot_slashes [OF sp]
  show ?thesis
  proof (cases "rt = []")
    case True
    with r sp walk_norm [of "[]" "py_split slash path" "[]" "[]"] norm_escapes [of "[]" "py_split slash path"]
    show ?thesis by (auto simp: norm_parts_def)
  next
    case False
    with r sp norm_absolute [OF False, of "[]"] show ?thesis by (simp add: norm_parts_def)
  qed
qed

lemma norm_parts_walk:
  assumes "\<not> startswith path ''/''" and "''..'' \<notin> set (norm_parts path)"
  shows "walk dir (py_split slash path) = dir @ norm_parts path"
proof -
  obtain rt rest where sp: "splitroot path = (rt, rest)" by (cases "splitroot path")
  with splitroot_relative [OF sp] splitroot_slashes [OF sp] assms(1)
  have "norm_parts path = foldl (norm_step []) [] (py_split slash path)" by (simp add: norm_parts_def)
  with walk_norm [of "[]" "py_split slash path" dir "[]"] norm_parts_up [of path] assms show ?thesis by simp
qed

lemma walk_plain: "list_all plain_component cs \<Longrightarrow> walk dir cs = dir @ cs"
  by (induction cs arbitrary: dir) (auto simp: walk_def walk_step_def plain_component_def)

lemma norm_step_set: "set (norm_step rt new c) \<subseteq> insert c (set new)"
  using in_set_butlastD [of _ new] by (auto simp: norm_step_def)

lemma norm_set: "set (foldl (norm_step rt) new cs) \<subseteq> set new \<union> set cs"
proof (induction cs arbitrary: new)
  case (Cons c cs)
  from Cons [of "norm_step rt new c"] norm_step_set [of rt new c] show ?case by (simp, blast)
qed simp

lemma split_chars: "w \<in> set (split_by p s) \<Longrightarrow> set w \<subseteq> set s"
proof (induction s arbitrary: w)
  case (Cons a s)
  then show ?case by (cases "split_by p s") (fastforce split: if_splits)+
qed simp

lemma join_chars: "set (py_join sep ws) \<subseteq> set sep \<union> (\<Union>w \<in> set ws. set w)"
  by (induction sep ws rule: py_join.induct) auto

lemma norm_parts_chars: "set (py_join ''/'' (norm_parts path)) \<subseteq> insert slash (set path)"
proof -
  obtain rt rest where sp: "splitroot path = (rt, rest)" by (cases "splitroot path")
  have rest: "set rest \<subseteq> set path" using sp by (auto simp: splitroot_def split: if_splits dest: in_set_dropD)
  have "set w \<subseteq> set path" if "w \<in> set (norm_parts path)" for w
  proof -
    have "w \<in> set (py_split slash rest)" using that norm_set [of rt "[]" "py_split slash rest"] sp
      by (auto simp: norm_parts_def)
    with split_chars rest show ?thesis by blast
  qed
  with join_chars [of "''/''" "norm_parts path"] show ?thesis by fastforce
qed


section \<open>Downloads\<close>

text \<open>What the code relies on of a destination: a reported count is the number of bytes of the argument that
  were appended, and a write that reports none, or raises, has appended some part of its argument.\<close>

locale binary_writer =
  fixes wr :: "'d writer" and stored :: "'d \<Rightarrow> string"
  assumes accepts: "wr content d = (Inr (Some count), d') \<Longrightarrow> 0 < count \<Longrightarrow> count \<le> int (length content) \<Longrightarrow>
      stored d' = stored d @ take (nat count) content"
    and appends: "wr content d = (r, d') \<Longrightarrow> \<exists>k. stored d' = stored d @ take k content"
begin

lemma write_loop_stored:
  assumes "write_loop wr content written d = (r, d')" and "written \<le> length content"
  shows "case r of Inr n \<Rightarrow> n = int (length content) \<and> stored d' = stored d @ drop written content
     | Inl e \<Rightarrow> \<exists>k. stored d' = stored d @ take k (drop written content)"
  using assms
proof (induction "length content - written" arbitrary: written d rule: less_induct)
  case less
  obtain q d1 where q: "wr (drop written content) d = (q, d1)" by (cases "wr (drop written content) d")
  note some = appends [OF q]
  show ?case
  proof (cases "written < length content \<and> (\<exists>count. q = Inr (Some count) \<and> 0 < count \<and> count \<le> int (length content) - int written)")
    case True
    then obtain count where c: "written < length content" "q = Inr (Some count)" "0 < count"
      "count \<le> int (length content) - int written" by blast
    let ?v = "written + nat count"
    from c less.prems(1) q have rec: "write_loop wr content ?v d1 = (r, d')"
      by (simp add: write_loop.simps [of wr content written])
    have st: "stored d1 = stored d @ take (nat count) (drop written content)"
      by (rule accepts [of "drop written content" d count]) (use q c in simp_all)
    have "case r of Inr n \<Rightarrow> n = int (length content) \<and> stored d' = stored d1 @ drop ?v content
      | Inl e \<Rightarrow> \<exists>k. stored d' = stored d1 @ take k (drop ?v content)"
      by (rule less.hyps [OF _ rec]) (use c in linarith)+
    moreover have v: "drop ?v content = drop (nat count) (drop written content)" by (simp add: add.commute)
    moreover have "take (nat count) (drop written content) @ drop ?v content = drop written content"
      by (simp only: v append_take_drop_id)
    moreover have "take (nat count) (drop written content) @ take k (drop ?v content) = take (nat count + k) (drop written content)" for k
      by (simp only: v take_add)
    ultimately show ?thesis unfolding st append_assoc by (auto split: sum.splits)
  next
    case False
    then have "r = Inr (int written) \<and> d' = d \<and> written = length content \<or> (\<exists>e. r = Inl e) \<and> d' = d1"
      using less.prems q by (auto simp: write_loop.simps [of wr content written] split: sum.splits option.splits if_splits)
    with some show ?thesis by auto
  qed
qed

lemma write_all_stored:
  assumes "write_all wr content d = (r, d')"
  shows "case r of Inr n \<Rightarrow> n = int (length content) \<and> stored d' = stored d @ content
     | Inl e \<Rightarrow> \<exists>k. stored d' = stored d @ take k content"
  using write_loop_stored [of content 0 d r d'] assms by (simp add: write_all_def split: sum.splits)

lemma read_loop_stored:
  assumes "read_loop wr mb sofar chunks err d = (r, d')" and "\<forall>m. mb = Some m \<longrightarrow> sofar \<le> m"
  shows "\<exists>k. stored d' = stored d @ take k (concat chunks)
     \<and> (\<forall>m. mb = Some m \<longrightarrow> sofar + int (length (take k (concat chunks))) \<le> m)
     \<and> (\<forall>n. r = Inr n \<longrightarrow> err = None \<and> take k (concat chunks) = concat chunks \<and> n = sofar + int (length (concat chunks)))"
  using assms
proof (induction chunks arbitrary: sofar d)
  case Nil
  then show ?case by (auto split: option.splits)
next
  case (Cons chunk chunks)
  let ?rem = "the mb - sofar"
  consider (empty) "chunk = []" | (over) "chunk \<noteq> []" "\<exists>m. mb = Some m \<and> int (length chunk) > m - sofar"
    | (fits) "chunk \<noteq> []" "\<forall>m. mb = Some m \<longrightarrow> int (length chunk) \<le> m - sofar"
    by force
  then show ?case
  proof cases
    case empty
    with Cons show ?thesis by simp
  next
    case over
    then obtain m where m: "mb = Some m" "int (length chunk) > m - sofar" by blast
    have "\<exists>e k. r = Inl e \<and> stored d' = stored d @ take k chunk \<and> k \<le> nat (m - sofar)"
    proof (cases "m - sofar > 0")
      case True
      obtain q d1 where q: "write_all wr (take (nat (m - sofar)) chunk) d = (q, d1)"
        by (cases "write_all wr (take (nat (m - sofar)) chunk) d")
      then have "\<exists>e. r = Inl e" "d' = d1" using Cons.prems(1) over m True by (auto split: sum.splits)
      with write_all_stored [OF q] show ?thesis
        by (auto split: sum.splits simp: min_def intro: exI [of _ "nat (m - sofar)"] exI [of _ "min _ (nat (m - sofar))"])
    next
      case False
      with Cons.prems(1) over m show ?thesis by (auto intro: exI [of _ 0])
    qed
    then obtain e k where k: "r = Inl e" "stored d' = stored d @ take k chunk" "k \<le> nat (m - sofar)" by blast
    have "k \<le> length chunk" using k(3) m(2) by linarith
    then have "take k (concat (chunk # chunks)) = take k chunk" by simp
    with k m Cons.prems(2) show ?thesis by (intro exI [of _ k]) auto
  next
    case fits
    obtain q d1 where q: "write_all wr chunk d = (q, d1)" by (cases "write_all wr chunk d")
    show ?thesis
    proof (cases q)
      case (Inl e)
      then have r: "r = Inl e" "d' = d1" using Cons.prems(1) fits q by (auto split: option.splits)
      obtain k where "stored d1 = stored d @ take k chunk" using write_all_stored [OF q] Inl by auto
      then have "stored d1 = stored d @ take (min k (length chunk)) (concat (chunk # chunks))" by (simp add: min_def)
      with r fits show ?thesis by (intro exI [of _ "min k (length chunk)"]) auto
    next
      case (Inr n)
      then have n: "n = int (length chunk)" "stored d1 = stored d @ chunk" using write_all_stored [OF q] by auto
      then have "read_loop wr mb (sofar + int (length chunk)) chunks err d1 = (r, d')"
        using Cons.prems(1) fits q Inr by (auto split: option.splits)
      from Cons.IH [OF this] fits obtain k where
        "stored d' = stored d1 @ take k (concat chunks)"
        "\<forall>m. mb = Some m \<longrightarrow> sofar + int (length chunk) + int (length (take k (concat chunks))) \<le> m"
        "\<forall>n. r = Inr n \<longrightarrow> err = None \<and> take k (concat chunks) = concat chunks
           \<and> n = sofar + int (length chunk) + int (length (concat chunks))"
        by force
      with n show ?thesis by (intro exI [of _ "length chunk + k"]) (auto simp: algebra_simps)
    qed
  qed
qed

end

lemma take_whole: "\<exists>k. xs = take k xs"
  by (rule exI [of _ "length xs"]) simp

interpretation bytesio: binary_writer bytesio_write "\<lambda>d. d"
  by unfold_locales (auto simp: bytesio_write_def take_whole)

lemma receive_stored:
  assumes "binary_writer wr stored" and "receive wr mb response d = (r, d')" and "\<forall>m. mb = Some m \<longrightarrow> 0 \<le> m"
  shows "\<exists>k. stored d' = stored d @ take k (concat (rs_chunks response))
     \<and> (\<forall>m. mb = Some m \<longrightarrow> int (length (take k (concat (rs_chunks response)))) \<le> m)
     \<and> (\<forall>n. r = Inr n \<longrightarrow> rs_stream_error response = None
          \<and> take k (concat (rs_chunks response)) = concat (rs_chunks response)
          \<and> n = int (length (concat (rs_chunks response))))"
proof (cases "(200 \<le> rs_status response \<and> rs_status response < 300)
    \<and> check_download_headers (rs_headers response) mb = Inr ()")
  case True
  then have "read_loop wr mb 0 (rs_chunks response) (rs_stream_error response) d = (r, d')"
    using assms(2) by (simp add: receive_def)
  from binary_writer.read_loop_stored [OF assms(1) this] assms(3) show ?thesis by simp
next
  case False
  then have "d' = d \<and> (\<exists>e. r = Inl e)"
    using assms(2) by (auto simp: receive_def split: if_splits sum.splits)
  with assms(3) show ?thesis by (intro exI [of _ 0]) auto
qed

lemma download_limit_le:
  assumes "download_limit config max_bytes = Inr mb" and "mk_file_config size_limit = Inr config"
  shows "\<forall>m. mb = Some m \<longrightarrow> 0 \<le> m"
    and "size_limit = Some l \<Longrightarrow> \<exists>m. mb = Some m \<and> m \<le> l" and "max_bytes = JInt n \<Longrightarrow> \<exists>m. mb = Some m \<and> m \<le> n"
  using assms by (auto simp: download_limit_def mk_file_config_def split: json.splits option.splits if_splits)

text \<open>(C35) A download never stores more than a limit allows: whatever the destination, the response and the
  outcome, the bytes added are a prefix of the response's content no longer than the configured
  \<^verbatim>\<open>max_download_size\<close> and no longer than \<^verbatim>\<open>max_bytes\<close>. If it returns, they are the whole content, their
  number is the result, and the stream ended without an error.\<close>

theorem read_to_bounded:
  assumes "binary_writer wr stored" and "mk_file_config size_limit = Inr config"
    and "read_to fuel env config path (Some wr) timeout allow_unsafe_paths max_bytes c d w = Some (r, c', d', w')"
  shows "\<exists>got. stored d' = stored d @ got
    \<and> (\<forall>m. size_limit = Some m \<longrightarrow> int (length got) \<le> m)
    \<and> (\<forall>n. max_bytes = JInt n \<longrightarrow> got = [] \<or> int (length got) \<le> n)
    \<and> ((\<exists>e. r = Inl e \<and> got = [])
       \<or> (\<exists>p response token c1 w1 k. checked_path allow_unsafe_paths path = Inr p
            \<and> send_request fuel env ''GET'' (download_endpoint c p) ((plain_args timeout)\<lparr>ra_stream := True\<rparr>) c w
                = Some (Inr (response, token), c1, w1)
            \<and> got = take k (concat (rs_chunks response))
            \<and> (\<forall>n. r = Inr n \<longrightarrow> n = int (length got) \<and> got = concat (rs_chunks response)
                 \<and> rs_stream_error response = None)))"
proof -
  have lim0: "\<forall>m. size_limit = Some m \<longrightarrow> 0 \<le> m"
    using assms(2) by (auto simp: mk_file_config_def split: option.splits if_splits)
  show ?thesis
  proof (cases "d' = d \<and> (\<exists>e. r = Inl e)")
    case True
    with lim0 show ?thesis by (intro exI [of _ "[]"]) auto
  next
    case False
    obtain mb where mb: "download_limit config max_bytes = Inr mb"
      using False assms(3) by (cases "download_limit config max_bytes") (auto simp: read_to_def)
    obtain p where p: "checked_path allow_unsafe_paths path = Inr p"
      using False assms(3) mb by (cases "checked_path allow_unsafe_paths path") (auto simp: read_to_def)
    obtain response token c1 w1 where s: "send_request fuel env ''GET'' (download_endpoint c p)
        ((plain_args timeout)\<lparr>ra_stream := True\<rparr>) c w = Some (Inr (response, token), c1, w1)"
      using False assms(3) mb p by (auto simp: read_to_def split: option.splits sum.splits)
    obtain q d1 where q: "receive wr mb response d = (q, d1)" by (cases "receive wr mb response d")
    have rq: "r = q" "d' = d1"
      using assms(3) mb p s q by (auto simp: read_to_def split: option.splits sum.splits exn.splits prod.splits)
    note lims = download_limit_le [OF mb assms(2)]
    obtain k where k: "stored d' = stored d @ take k (concat (rs_chunks response))"
      "\<forall>m. mb = Some m \<longrightarrow> int (length (take k (concat (rs_chunks response)))) \<le> m"
      "\<forall>n. r = Inr n \<longrightarrow> rs_stream_error response = None
          \<and> take k (concat (rs_chunks response)) = concat (rs_chunks response)
          \<and> n = int (length (concat (rs_chunks response)))"
      using receive_stored [OF assms(1) q lims(1)] rq by blast
    let ?got = "take k (concat (rs_chunks response))"
    have "int (length ?got) \<le> m" if "size_limit = Some m" for m using lims(2) [OF that] k(2) by force
    moreover have "int (length ?got) \<le> n" if "max_bytes = JInt n" for n using lims(3) [OF that] k(2) by force
    moreover have "\<forall>n. r = Inr n \<longrightarrow> n = int (length ?got) \<and> ?got = concat (rs_chunks response)
        \<and> rs_stream_error response = None" using k(3) by simp
    ultimately show ?thesis using k(1) p s by (intro exI [of _ ?got]) blast
  qed
qed

definition sim_download :: http_response where
  "sim_download = (sim_response 200)\<lparr>rs_chunks := [''abc'', [], ''de'']\<rparr>"

abbreviation sim_conn :: connector where
  "sim_conn \<equiv> new_connector ''sb'' ''ns'' sim_direct"

lemma sim_send:
  assumes "check_response args r = Inr r" and "ra_timeout args = TInt 5"
  shows "send_request fuel (sim_env r) m endpoint args sim_conn w = Some (Inr (r, None), sim_conn, w + 1)"
proof -
  have con: "connector_connect fuel (sim_env r) sim_conn w = Some (Inr ''http://r/'', sim_conn, w)"
    by (simp add: connector_connect_def new_connector_def connection_strategy_of_def sim_direct_def strategy_connect_def)
  have st: "c_strategy sim_conn = SDirect (case sim_direct of DirectConfig d \<Rightarrow> d)"
    by (simp add: new_connector_def connection_strategy_of_def sim_direct_def)
  have ver: "strategy_verify (sim_env r) (c_strategy sim_conn) w = (Inr (), w)"
    by (simp add: st strategy_verify_def retX_def)
  obtain hs where hs: "request_headers (sim_env r) args sim_conn w = (Inr hs, sim_conn, w)"
    using assms(2) by (simp add: request_headers_def Let_def st router_timeout_header_value_def positive_str_def
        resolve_pod_ip_def sim_env_def)
  show ?thesis
    using assms(1) by (simp add: send_request_def con ver hs) (simp add: sim_env_def st)
qed

lemma sim_download_run:
  "read_to (Suc 0) (sim_env sim_download) \<lparr>max_download_size = Some 4\<rparr> ''f'' (Some bytesio_write) (TInt 5) True JNull
     sim_conn ''x'' 0 = Some (Inl SandboxResponseTooLargeError, sim_conn, ''xabcd'', 1)"
proof -
  have s: "send_request (Suc 0) (sim_env sim_download) m e ((plain_args (TInt 5))\<lparr>ra_stream := True\<rparr>) sim_conn 0
      = Some (Inr (sim_download, None), sim_conn, 1)" for m e
    using sim_send [of "(plain_args (TInt 5))\<lparr>ra_stream := True\<rparr>" sim_download "Suc 0" m e 0]
    by (simp add: check_response_def plain_args_def sim_download_def sim_response_def is_redirect_def is_error_status_def)
  have "receive bytesio_write (Some 4) sim_download ''x'' = (Inl SandboxResponseTooLargeError, ''xabcd'')"
    by (simp add: receive_def sim_download_def sim_response_def check_download_headers_def ci_get_def
        write_all_def write_loop.simps bytesio_write_def)
  then show ?thesis by (simp add: read_to_def download_limit_def checked_path_def s)
qed

theorem read_to_bounded_witness:
  "\<exists>r c' d' w' got. read_to (Suc 0) (sim_env sim_download) \<lparr>max_download_size = Some 4\<rparr> ''f'' (Some bytesio_write)
       (TInt 5) True JNull sim_conn ''x'' 0 = Some (r, c', d', w')
     \<and> d' = ''x'' @ got \<and> int (length got) \<le> 4"
proof -
  have cfg: "mk_file_config (Some 4) = Inr \<lparr>max_download_size = Some 4\<rparr>" by (simp add: mk_file_config_def)
  obtain got where "''xabcd'' = ''x'' @ got" "\<forall>m. Some (4 :: int) = Some m \<longrightarrow> int (length got) \<le> m"
    using read_to_bounded [OF bytesio.binary_writer_axioms cfg sim_download_run] by blast
  with sim_download_run show ?thesis by (intro exI conjI) auto
qed

end
