(* ===== verification/Process_Exec.thy ===== *)
theory Process_Exec
  imports Connector
begin

text \<open>
  \<^verbatim>\<open>commands/command_executor.py\<close>, \<^verbatim>\<open>commands/_process_handle.py\<close> and \<^verbatim>\<open>watcher/file_watcher.py\<close>: running a
  command over either runtime, the streaming process handle and the file watcher. The sandboxd
  services are a record \<open>'w rpc\<close> of functions; a stream is named by a number. The text of error
  messages is left out, except that of a timed-out command, which is part of the result.
\<close>

section \<open>Signals and the events of a process\<close>

text \<open>A signal as passed: a name, something \<^verbatim>\<open>int()\<close> converts, or neither.\<close>

datatype signal_arg = SigName string | SigInt int | SigBad

datatype proto_signal = SIGNAL_SIGINT | SIGNAL_SIGKILL | SIGNAL_SIGTERM

definition SIGNAL_NAMES :: "(string, int) dict" where
  "SIGNAL_NAMES = [(''SIGINT'', 2), (''SIGTERM'', 15), (''SIGKILL'', 9)]"

definition to_proto_signal :: "signal_arg \<Rightarrow> proto_signal res" where
  "to_proto_signal sig =
     bindE (case sig of
              SigName n \<Rightarrow> (case dict_get SIGNAL_NAMES n of None \<Rightarrow> Inl ValueError | Some v \<Rightarrow> Inr v)
            | SigInt i \<Rightarrow> Inr i
            | SigBad \<Rightarrow> Inl ValueError)
       (\<lambda>val. if val = 2 then Inr SIGNAL_SIGINT
              else if val = 9 then Inr SIGNAL_SIGKILL
              else if val = 15 then Inr SIGNAL_SIGTERM
              else Inl ValueError)"

text \<open>A StartResponse by its \<^verbatim>\<open>WhichOneof("event")\<close>.\<close>

datatype start_msg = MInit int | MStdout string | MStderr string | MExit int | MNone

fun read_init :: "start_msg \<Rightarrow> int res" where
  "read_init (MInit process_id) = (if process_id = 0 then Inl RuntimeError else Inr process_id)"
| "read_init _ = Inl RuntimeError"

definition to_event :: "start_msg \<Rightarrow> bool \<Rightarrow> (process_event \<times> bool) res" where
  "to_event response exit_seen =
     (if exit_seen then Inl RuntimeError
      else case response of
        MStdout d \<Rightarrow> Inr (StdoutEvent d, False)
      | MStderr d \<Rightarrow> Inr (StderrEvent d, False)
      | MExit n \<Rightarrow> Inr (ExitEvent n, True)
      | _ \<Rightarrow> Inl RuntimeError)"

text \<open>The process service and the watch service of sandboxd over a channel. \<open>r_first\<close> is the first
  \<^verbatim>\<open>next\<close> on a started stream, with whether the start timer of that many seconds has fired by then;
  \<open>r_rest\<close> are the later messages of the stream and the exception that ends them, if any.\<close>

record process_config =
  pc_command :: "string list"
  pc_env_vars :: "(string, string) dict option"
  pc_cwd :: "string option"

record 'w rpc =
  r_execute :: "nat \<Rightarrow> process_config \<Rightarrow> py_timeout \<Rightarrow> ('w, exn, string \<times> string \<times> int) exec"
  r_start :: "nat \<Rightarrow> process_config \<Rightarrow> pty_size option \<Rightarrow> 'w \<Rightarrow> nat \<times> 'w"
  r_first :: "nat \<Rightarrow> py_timeout \<Rightarrow> 'w \<Rightarrow> (start_msg option res \<times> bool) \<times> 'w"
  r_rest :: "nat \<Rightarrow> 'w \<Rightarrow> start_msg list \<times> exn option"
  r_cancel :: "nat \<Rightarrow> ('w, exn, unit) exec"
  r_send_signal :: "int \<Rightarrow> proto_signal \<Rightarrow> ('w, exn, unit) exec"
  r_watch :: "nat \<Rightarrow> string \<Rightarrow> bool \<Rightarrow> 'w \<Rightarrow> (int \<times> string \<times> string) list \<times> exn option"

text \<open>gRPC status codes.\<close>

abbreviation DEADLINE_EXCEEDED :: nat where "DEADLINE_EXCEEDED \<equiv> 4"
abbreviation NOT_FOUND :: nat where "NOT_FOUND \<equiv> 5"
abbreviation PERMISSION_DENIED :: nat where "PERMISSION_DENIED \<equiv> 7"
abbreviation UNAVAILABLE :: nat where "UNAVAILABLE \<equiv> 14"

definition cancel_quietly :: "'w rpc \<Rightarrow> nat \<Rightarrow> 'w \<Rightarrow> 'w" where
  "cancel_quietly rpc stream w = snd (r_cancel rpc stream w)"

definition signal_error :: "nat \<Rightarrow> exn" where
  "signal_error status =
     (if status = NOT_FOUND then LookupError
      else if status = PERMISSION_DENIED then PermissionError
      else RuntimeError)"

record process_handle =
  ph_stream :: nat
  ph_process_id :: int
  ph_finished :: bool

text \<open>\<^verbatim>\<open>from_stream\<close>, with whether the timer had fired.\<close>

definition from_stream :: "'w rpc \<Rightarrow> nat \<Rightarrow> py_timeout \<Rightarrow> 'w \<Rightarrow> (process_handle res \<times> bool) \<times> 'w" where
  "from_stream rpc stream timeout w =
     (case r_first rpc stream timeout w of ((first, fired), w1) \<Rightarrow>
        (case bindE first (\<lambda>m. case m of None \<Rightarrow> Inl RuntimeError | Some msg \<Rightarrow> read_init msg) of
           Inl e \<Rightarrow> ((Inl e, fired), cancel_quietly rpc stream w1)
         | Inr pid \<Rightarrow> ((Inr \<lparr>ph_stream = stream, ph_process_id = pid, ph_finished = False\<rparr>, fired), w1)))"

text \<open>\<^verbatim>\<open>events\<close> run to its end: the events yielded, the exception raised if any, and \<^verbatim>\<open>_finished\<close> afterwards.\<close>

fun events :: "start_msg list \<Rightarrow> exn option \<Rightarrow> bool \<Rightarrow> process_event list \<times> exn option \<times> bool" where
  "events [] err finished =
     ([], (case err of
             Some (RpcError status) \<Rightarrow> Some RuntimeError
           | Some e \<Rightarrow> Some e
           | None \<Rightarrow> if finished then None else Some RuntimeError), finished)"
| "events (response # responses) err finished =
     (case to_event response finished of
        Inl e \<Rightarrow> ([], Some e, finished)
      | Inr (event, finished') \<Rightarrow>
          (case events responses err finished' of (evs, e, f) \<Rightarrow> (event # evs, e, f)))"

definition signal :: "'w rpc \<Rightarrow> process_handle \<Rightarrow> signal_arg \<Rightarrow> ('w, exn, unit) exec" where
  "signal rpc h sig =
     bindX (liftX (to_proto_signal sig)) (\<lambda>s.
       tryX (r_send_signal rpc (ph_process_id h) s)
         (\<lambda>e. case e of RpcError status \<Rightarrow> raiseX (signal_error status) | _ \<Rightarrow> raiseX e))"

definition close_handle :: "'w rpc \<Rightarrow> process_handle \<Rightarrow> 'w \<Rightarrow> 'w" where
  "close_handle rpc h w = (if ph_finished h then w else cancel_quietly rpc (ph_stream h) w)"

section \<open>Running commands\<close>

definition COMMAND_TIMEOUT_MARGIN_SECONDS :: int where
  "COMMAND_TIMEOUT_MARGIN_SECONDS = 10"

fun first_executable :: "string list \<Rightarrow> string" where
  "first_executable [] = []"
| "first_executable (field # rest) =
     (if CHR ''='' \<in> set field then first_executable rest else last (py_split CHR ''/'' field))"

definition extract_executable :: "string \<Rightarrow> string" where
  "extract_executable command = (if command = [] then [] else first_executable (py_words command))"

definition check_process_options :: "(string, string) dict option \<Rightarrow> string option \<Rightarrow> bool \<Rightarrow> unit res" where
  "check_process_options env_vars cwd sandboxd =
     (if \<not> dict_true env_vars \<and> \<not> str_true cwd then Inr ()
      else if \<not> sandboxd then Inl NotImplementedError
      else eachE (\<lambda>(key, _). guardE (key \<noteq> [] \<and> CHR ''='' \<notin> set key) ValueError)
             (case env_vars of None \<Rightarrow> [] | Some d \<Rightarrow> d))"

definition process_config_of :: "string \<Rightarrow> (string, string) dict option \<Rightarrow> string option \<Rightarrow> process_config" where
  "process_config_of command env_vars cwd =
     \<lparr>pc_command = [''/bin/sh'', ''-c'', command], pc_env_vars = env_vars,
      pc_cwd = (if str_true cwd then cwd else None)\<rparr>"

text \<open>What the status uses of the number and text library: adding the margin to a float, a float as JSON, the
  text of \<^verbatim>\<open>{timeout:g}\<close>, decoding UTF-8 with replacement, and pydantic's construction of a result.\<close>

record text_lib =
  tl_add :: "py_float \<Rightarrow> int \<Rightarrow> py_float"
  tl_json :: "py_float \<Rightarrow> json"
  tl_g :: "py_timeout \<Rightarrow> string"
  tl_decode :: "string \<Rightarrow> string"
  tl_result :: "json \<Rightarrow> execution_result res"

text \<open>\<^verbatim>\<open>a > b\<close> on floats, and \<^verbatim>\<open>max(timeout, x)\<close> with an integer timeout, which keeps its first argument unless
  the second is greater.\<close>

fun float_gt_int :: "py_float \<Rightarrow> int \<Rightarrow> bool" where
  "float_gt_int (FFin q r) i = (q > of_int i)"
| "float_gt_int FInf i = True"
| "float_gt_int _ i = False"

definition execute_request ::
  "text_lib \<Rightarrow> string \<Rightarrow> int \<Rightarrow> py_float option \<Rightarrow> json \<times> py_timeout"
where
  "execute_request lib command timeout command_timeout =
     (case command_timeout of
        None \<Rightarrow> (JObj [(''command'', JStr command)], TInt timeout)
      | Some t \<Rightarrow>
          (let x = tl_add lib t COMMAND_TIMEOUT_MARGIN_SECONDS in
           (JObj [(''command'', JStr command), (''timeout_seconds'', tl_json lib t)],
            if float_gt_int x timeout then TFloat x else TInt timeout)))"

text \<open>Connecting and opening the channel, which the sandboxd calls share.\<close>

definition dial :: "nat \<Rightarrow> 'w env \<Rightarrow> connector \<Rightarrow> 'w \<Rightarrow> (nat res \<times> connector \<times> 'w) option" where
  "dial fuel env c w =
     (if \<not> e_has_grpc env then Some (Inl ImportError, c, w)
      else case connector_connect fuel env c w of
        None \<Rightarrow> None
      | Some (Inl e, c1, w1) \<Rightarrow> Some (Inl e, c1, w1)
      | Some (Inr _, c1, w1) \<Rightarrow> Some (grpc_channel env c1 w1))"

text \<open>What a gRPC error of a call does to the connector.\<close>

definition rpc_failed :: "'w env \<Rightarrow> nat \<Rightarrow> nat \<Rightarrow> connector \<Rightarrow> 'w \<Rightarrow> connector \<times> 'w" where
  "rpc_failed env status channel c w =
     (if status = UNAVAILABLE then invalidate_sandboxd_transport env (Some channel) None c w else (c, w))"

definition run_sandboxd ::
  "nat \<Rightarrow> 'w env \<Rightarrow> 'w rpc \<Rightarrow> text_lib \<Rightarrow> string \<Rightarrow> py_timeout \<Rightarrow> bool \<Rightarrow> (string, string) dict option
   \<Rightarrow> string option \<Rightarrow> connector \<Rightarrow> 'w \<Rightarrow> (execution_result res \<times> connector \<times> 'w) option"
where
  "run_sandboxd fuel env rpc lib command timeout report_timeout env_vars cwd c w =
     (case dial fuel env c w of
        None \<Rightarrow> None
      | Some (Inl e, c1, w1) \<Rightarrow> Some (Inl e, c1, w1)
      | Some (Inr channel, c1, w1) \<Rightarrow>
          (case r_execute rpc channel (process_config_of command env_vars cwd) timeout w1 of
             (Inr (out, err, exit_code), w2) \<Rightarrow>
               Some (Inr \<lparr>er_stdout = tl_decode lib out, er_stderr = tl_decode lib err,
                          er_exit_code = exit_code, er_timed_out = False\<rparr>, c1, w2)
           | (Inl (RpcError status), w2) \<Rightarrow>
               (if report_timeout \<and> status = DEADLINE_EXCEEDED then
                  Some (Inr \<lparr>er_stdout = [],
                             er_stderr = ''Command timed out after '' @ tl_g lib timeout @ '' seconds'',
                             er_exit_code = 124, er_timed_out = True\<rparr>, c1, w2)
                else case rpc_failed env status channel c1 w2 of (c3, w3) \<Rightarrow> Some (Inl RuntimeError, c3, w3))
           | (Inl e, w2) \<Rightarrow> Some (Inl e, c1, w2)))"

definition run ::
  "nat \<Rightarrow> 'w env \<Rightarrow> 'w rpc \<Rightarrow> text_lib \<Rightarrow> string \<Rightarrow> int \<Rightarrow> py_float option \<Rightarrow> (string, string) dict option
   \<Rightarrow> string option \<Rightarrow> connector \<Rightarrow> 'w \<Rightarrow> (execution_result res \<times> connector \<times> 'w) option"
where
  "run fuel env rpc lib command timeout command_timeout env_vars cwd c w =
     (let sandboxd = is_sandboxd (c_config c) in
      case check_process_options env_vars cwd sandboxd of
        Inl e \<Rightarrow> Some (Inl e, c, w)
      | Inr _ \<Rightarrow>
          (if sandboxd then
             (case command_timeout of
                None \<Rightarrow> run_sandboxd fuel env rpc lib command (TInt timeout) False env_vars cwd c w
              | Some t \<Rightarrow> run_sandboxd fuel env rpc lib command (TFloat t) True env_vars cwd c w)
           else
             (case execute_request lib command timeout command_timeout of (payload, read_timeout) \<Rightarrow>
                map_option (\<lambda>(r, c', w').
                    (bindE r (\<lambda>(response, t). case rs_json response of
                       None \<Rightarrow> Inl RuntimeError
                     | Some j \<Rightarrow> (case tl_result lib j of Inl e \<Rightarrow> Inl RuntimeError | Inr x \<Rightarrow> Inr x)), c', w'))
                  (send_request fuel env ''POST'' ''execute''
                     \<lparr>ra_headers = None, ra_timeout = read_timeout, ra_stream = False, ra_allowed_statuses = None,
                      ra_disable_retries = False, ra_body = JsonBody payload\<rparr> c w))))"

definition start ::
  "nat \<Rightarrow> 'w env \<Rightarrow> 'w rpc \<Rightarrow> string \<Rightarrow> py_timeout \<Rightarrow> (string, string) dict option \<Rightarrow> string option
   \<Rightarrow> pty_size option \<Rightarrow> connector \<Rightarrow> 'w \<Rightarrow> (process_handle res \<times> connector \<times> 'w) option"
where
  "start fuel env rpc command timeout env_vars cwd pty c w =
     (if \<not> is_sandboxd (c_config c) then Some (Inl NotImplementedError, c, w)
      else case check_process_options env_vars cwd True of
        Inl e \<Rightarrow> Some (Inl e, c, w)
      | Inr _ \<Rightarrow>
          (case dial fuel env c w of
             None \<Rightarrow> None
           | Some (Inl e, c1, w1) \<Rightarrow> Some (Inl e, c1, w1)
           | Some (Inr channel, c1, w1) \<Rightarrow>
               (case r_start rpc channel (process_config_of command env_vars cwd) pty w1 of (stream, w2) \<Rightarrow>
                  (case from_stream rpc stream timeout w2 of
                     ((Inr h, _), w3) \<Rightarrow> Some (Inr h, c1, w3)
                   | ((Inl (RpcError status), fired), w3) \<Rightarrow>
                       (if fired then Some (Inl TimeoutError, c1, w3)
                        else case rpc_failed env status channel c1 w3 of (c4, w4) \<Rightarrow> Some (Inl RuntimeError, c4, w4))
                   | ((Inl e, _), w3) \<Rightarrow> Some (Inl e, c1, w3)))))"

section \<open>Watching files\<close>

text \<open>The values of the proto enum are those of \<^verbatim>\<open>watcher.proto\<close>.\<close>

definition EVENT_TYPE_NAMES :: "(int, string) dict" where
  "EVENT_TYPE_NAMES = [(1, ''create''), (2, ''write''), (3, ''remove''), (4, ''rename''), (5, ''chmod''), (6, ''error'')]"

definition event_type_name :: "int \<Rightarrow> string" where
  "event_type_name v =
     (case dict_get EVENT_TYPE_NAMES v of Some n \<Rightarrow> n | None \<Rightarrow> ''unknown('' @ show_int v @ '')'')"

text \<open>\<^verbatim>\<open>watch\<close> run to its end: the events yielded and the exception raised, if any.\<close>

definition watch ::
  "nat \<Rightarrow> 'w env \<Rightarrow> 'w rpc \<Rightarrow> string \<Rightarrow> bool \<Rightarrow> connector \<Rightarrow> 'w
   \<Rightarrow> (file_event list \<times> exn option \<times> connector) option"
where
  "watch fuel env rpc path recursive c w =
     (if \<not> is_sandboxd (c_config c) then Some ([], Some RuntimeError, c)
      else case dial fuel env c w of
        None \<Rightarrow> None
      | Some (Inl e, c1, w1) \<Rightarrow> Some ([], Some e, c1)
      | Some (Inr channel, c1, w1) \<Rightarrow>
          (case r_watch rpc channel path recursive w1 of (evs, err) \<Rightarrow>
             Some (map (\<lambda>(ty, p, e). \<lparr>fe_type = event_type_name ty, fe_path = p, fe_error = e\<rparr>) evs,
                   (case err of Some (RpcError _) \<Rightarrow> Some RuntimeError | _ \<Rightarrow> err), c1)))"

section \<open>The event protocol\<close>

fun is_output :: "start_msg \<Rightarrow> bool" where
  "is_output (MStdout d) = True"
| "is_output (MStderr d) = True"
| "is_output _ = False"

fun event_of :: "start_msg \<Rightarrow> process_event" where
  "event_of (MStdout d) = StdoutEvent d"
| "event_of (MStderr d) = StderrEvent d"
| "event_of (MExit n) = ExitEvent n"
| "event_of _ = ExitEvent 0"

fun stream_error :: "exn \<Rightarrow> exn" where
  "stream_error (RpcError status) = RuntimeError"
| "stream_error e = e"

lemma to_event_output: "is_output m \<Longrightarrow> to_event m False = Inr (event_of m, False)"
  by (cases m) (simp_all add: to_event_def)

lemma events_finished:
  "events ms err True = ([], (case ms of [] \<Rightarrow> map_option stream_error err | _ \<Rightarrow> Some RuntimeError), True)"
  by (cases ms) (auto simp: to_event_def split: option.split exn.split)

text \<open>(C38) What \<^verbatim>\<open>events\<close> yields for any stream sandboxd may send, well-formed or not: the leading output
  messages in order and with their bytes, then at most one exit event, which ends the output and alone
  marks the handle finished. It ends without an exception exactly if that exit is the last message and
  the stream then closes cleanly; a missing exit, anything after it, a second init, an unknown message
  and a transport error all raise.\<close>

theorem events_protocol:
  "events ms err False =
     (let outs = map event_of (takeWhile is_output ms) in
      case dropWhile is_output ms of
        [] \<Rightarrow> (outs, Some (case err of None \<Rightarrow> RuntimeError | Some e \<Rightarrow> stream_error e), False)
      | MExit n # rest \<Rightarrow>
          (outs @ [ExitEvent n], (case rest of [] \<Rightarrow> map_option stream_error err | _ \<Rightarrow> Some RuntimeError), True)
      | _ \<Rightarrow> (outs, Some RuntimeError, False))"
proof (induction ms)
  case Nil
  then show ?case by (simp split: option.split exn.split)
next
  case (Cons m ms)
  show ?case
  proof (cases "is_output m")
    case True
    obtain rest where rest: "dropWhile is_output ms = rest" by simp
    with Cons True show ?thesis
      by (cases rest; cases "hd rest")
        (simp_all add: to_event_output Let_def del: dropWhile_eq_Nil_conv)
  next
    case False
    then show ?thesis
      by (cases m) (simp_all add: to_event_def events_finished)
  qed
qed

text \<open>\<^verbatim>\<open>start\<close> returns a handle only for a stream whose first message is an Init with a nonzero process id;
  in every other outcome after the call was made the stream has been cancelled, so that no started
  process stays behind without a handle, and the connector is left as it was unless the service was
  unavailable.\<close>

lemma start_outcome:
  assumes "dial fuel env c w = Some (Inr channel, c1, w1)" and "is_sandboxd (c_config c)"
    and "check_process_options env_vars cwd True = Inr ()"
    and "r_start rpc channel (process_config_of command env_vars cwd) pty w1 = (stream, w2)"
    and "r_first rpc stream timeout w2 = ((first, fired), w3)"
  shows "\<exists>r c' w'. start fuel env rpc command timeout env_vars cwd pty c w = Some (r, c', w')
    \<and> (case r of
         Inr h \<Rightarrow> ph_stream h = stream \<and> first = Inr (Some (MInit (ph_process_id h))) \<and> ph_process_id h \<noteq> 0
           \<and> ph_finished h = False \<and> c' = c1 \<and> w' = w3
       | Inl e \<Rightarrow> (\<forall>n. first = Inr (Some (MInit n)) \<longrightarrow> n = 0)
           \<and> (if first = Inl (RpcError UNAVAILABLE) \<and> \<not> fired
              then (c', w') = invalidate_sandboxd_transport env (Some channel) None c1 (cancel_quietly rpc stream w3)
              else (c', w') = (c1, cancel_quietly rpc stream w3))
           \<and> (\<forall>status. first = Inl (RpcError status) \<longrightarrow> e = (if fired then TimeoutError else RuntimeError)))"
proof -
  have s: "start fuel env rpc command timeout env_vars cwd pty c w =
    (case from_stream rpc stream timeout w2 of
       ((Inr h, _), w3) \<Rightarrow> Some (Inr h, c1, w3)
     | ((Inl (RpcError status), fired), w3) \<Rightarrow>
         (if fired then Some (Inl TimeoutError, c1, w3)
          else case rpc_failed env status channel c1 w3 of (c4, w4) \<Rightarrow> Some (Inl RuntimeError, c4, w4))
     | ((Inl e, _), w3) \<Rightarrow> Some (Inl e, c1, w3))"
    by (simp add: start_def assms)
  consider e where "first = Inl e" | "first = Inr None" | m where "first = Inr (Some m)"
    by (metis sum.exhaust option.exhaust)
  then show ?thesis
  proof cases
    case (1 e)
    obtain ci wi where "invalidate_sandboxd_transport env (Some channel) None c1 (cancel_quietly rpc stream w3) = (ci, wi)"
      by (cases "invalidate_sandboxd_transport env (Some channel) None c1 (cancel_quietly rpc stream w3)")
    with 1 show ?thesis
      by (cases e) (auto simp: s from_stream_def assms(5) rpc_failed_def)
  next
    case 2
    then show ?thesis by (simp add: s from_stream_def assms(5))
  next
    case (3 m)
    then show ?thesis by (cases m) (auto simp: s from_stream_def assms(5))
  qed
qed

definition sim_rpc :: "nat rpc" where
  "sim_rpc = \<lparr>r_execute = \<lambda>ch cfg t w. (Inr (''out'', [], 0), w + 1), r_start = \<lambda>ch cfg p w. (7, w + 1),
     r_first = \<lambda>s t w. ((Inr (Some (MInit 42)), False), w + 1), r_rest = \<lambda>s w. ([MStdout ''x'', MExit 0], None),
     r_cancel = \<lambda>s w. (Inr (), w + 1), r_send_signal = \<lambda>p s w. (Inr (), w + 1), r_watch = \<lambda>ch p r w. ([], None)\<rparr>"

definition sim_pod_env :: "nat env" where
  "sim_pod_env = (sim_env (sim_response 200))\<lparr>e_get_pod_ip := Some (\<lambda>w. (Inr (Some ''10.0.0.1''), w))\<rparr>"

lemma sim_dial: "\<exists>ch c1 w1. dial 0 sim_pod_env sim_cluster 0 = Some (Inr ch, c1, w1)"
proof -
  let ?cfg = "\<lparr>sc_auth_token = None, sc_mode = InClusterPodIP, sc_rest_port = 1, sc_grpc_port = 2\<rparr>"
  have s: "c_strategy sim_cluster = SCluster ?cfg \<lparr>cs_service_fqdn = None, cs_grpc_target = None\<rparr>"
    "c_config sim_cluster = SandboxdInClusterConfig ?cfg"
    by (simp_all add: sim_cluster_def new_connector_def connection_strategy_of_def)
  obtain b g where sc: "strategy_connect 0 sim_pod_env (c_id sim_cluster) (c_namespace sim_cluster) (c_strategy sim_cluster) 0
      = Some (Inr b, SCluster ?cfg \<lparr>cs_service_fqdn = None, cs_grpc_target = Some g\<rparr>, 0)" and gt: "g \<noteq> []"
    by (simp add: s strategy_connect_def cluster_connect_def call_opt_def sim_pod_env_def
        cluster_urls_def format_host_def str_true_def)
  define c1 where "c1 = (let c1 = sim_cluster\<lparr>c_strategy := SCluster ?cfg \<lparr>cs_service_fqdn = None, cs_grpc_target = Some g\<rparr>\<rparr> in
      if Some g \<noteq> c_incluster_target c1 then fresh_token (c1\<lparr>c_incluster_target := Some g\<rparr>) else c1)"
  have c: "connector_connect 0 sim_pod_env sim_cluster 0 = Some (Inr b, c1, 0)"
    by (simp add: connector_connect_def sc c1_def Let_def)
  have st: "str_true (strategy_grpc_target (c_strategy c1))" "c_config c1 = SandboxdInClusterConfig ?cfg"
    using gt s by (auto simp: c1_def Let_def fresh_token_def str_true_def dest: sym)
  obtain r c2 w2 where g: "grpc_channel sim_pod_env c1 0 = (r, c2, w2)" by (cases "grpc_channel sim_pod_env c1 0")
  have "\<exists>ch. r = Inr ch"
    using g st by (auto simp: grpc_channel_def is_sandboxd_def open_channel_def sim_pod_env_def sim_env_def sandboxd_auth_headers_def
        Let_def split: if_splits)
  with c g show ?thesis by (auto simp: dial_def) (simp add: sim_pod_env_def sim_env_def)
qed

end
