(* ===== verification/Sandbox_Router.thy ===== *)
theory Sandbox_Router
  imports Py_IPAddress Sdk_Utils Py_Regex "HOL-Library.Multiset"
begin

text \<open>
  \<^verbatim>\<open>sandbox-router/sandbox_router.py\<close>: the reverse proxy in front of the sandboxes. The configuration read
  at start-up is a record; the module refuses to start without authentication unless told so. A request
  passes authentication and target resolution and is forwarded with filtered headers; a WebSocket also
  holds a place in the connection tracker until it ends. HTTP and WebSocket back ends are functions.
  \<^verbatim>\<open>float(s)\<close> is a parameter. Printed warnings are not modelled.
\<close>

section \<open>Configuration\<close>

definition DEFAULT_SANDBOX_PORT :: int where "DEFAULT_SANDBOX_PORT = 8888"

definition DEFAULT_NAMESPACE :: string where "DEFAULT_NAMESPACE = ''default''"

definition ROUTER_HEADER_NAMES :: "string list" where
  "ROUTER_HEADER_NAMES =
     [''x-sandbox-id'', ''x-sandbox-namespace'', ''x-sandbox-port'', ''x-sandbox-pod-ip'', ''x-sandbox-timeout'']"

definition HOP_BY_HOP_HEADERS :: "string list" where
  "HOP_BY_HOP_HEADERS =
     [''connection'', ''keep-alive'', ''proxy-authenticate'', ''proxy-authorization'', ''te'', ''trailers'',
      ''transfer-encoding'', ''upgrade'']"

definition WEBSOCKET_HANDSHAKE_HEADERS :: "string list" where
  "WEBSOCKET_HANDSHAKE_HEADERS =
     [''sec-websocket-key'', ''sec-websocket-version'', ''sec-websocket-extensions'', ''sec-websocket-protocol'']"

type_synonym environ = "(string, string) dict"

definition get_positive_float_env ::
  "(string \<Rightarrow> float_value option) \<Rightarrow> environ \<Rightarrow> string \<Rightarrow> rat \<Rightarrow> bool \<Rightarrow> rat"
where
  "get_positive_float_env to_float environ name dflt allow_zero =
     (case dict_get environ name of
        None \<Rightarrow> dflt
      | Some raw \<Rightarrow>
          (case to_float raw of
             Some (Finite v) \<Rightarrow> if v < 0 \<or> (v = 0 \<and> \<not> allow_zero) then dflt else v
           | _ \<Rightarrow> dflt))"

definition get_non_negative_int_env :: "environ \<Rightarrow> string \<Rightarrow> int \<Rightarrow> bool \<Rightarrow> int" where
  "get_non_negative_int_env environ name dflt allow_zero =
     (case dict_get environ name of
        None \<Rightarrow> dflt
      | Some raw \<Rightarrow>
          (case parse_int raw of
             None \<Rightarrow> dflt
           | Some v \<Rightarrow> if v < 0 \<or> (v = 0 \<and> \<not> allow_zero) then dflt else v))"

definition get_proxy_timeout :: "(string \<Rightarrow> float_value option) \<Rightarrow> environ \<Rightarrow> rat" where
  "get_proxy_timeout to_float environ = get_positive_float_env to_float environ ''PROXY_TIMEOUT_SECONDS'' 180 False"

definition get_cluster_domain :: "environ \<Rightarrow> string" where
  "get_cluster_domain environ =
     (case dict_get environ ''CLUSTER_DOMAIN'' of
        None \<Rightarrow> ''cluster.local''
      | Some d \<Rightarrow> if d = [] then ''cluster.local'' else d)"

definition get_max_keepalive_connections :: "environ \<Rightarrow> int" where
  "get_max_keepalive_connections environ =
     (case dict_get environ ''MAX_KEEPALIVE_CONNECTIONS'' of
        None \<Rightarrow> 20
      | Some raw \<Rightarrow> (case parse_int raw of None \<Rightarrow> 20 | Some v \<Rightarrow> if v < 0 then 20 else v))"

definition parse_trusted_proxy_networks :: "string option \<Rightarrow> ip_net list" where
  "parse_trusted_proxy_networks raw =
     (if \<not> str_true raw then []
      else List.map_filter (\<lambda>item. let cidr = py_strip item in if cidr = [] then None else ip_network cidr)
             (py_split CHR '','' (the raw)))"

definition env_var_is_truthy :: "environ \<Rightarrow> string \<Rightarrow> bool" where
  "env_var_is_truthy environ name =
     (case dict_get environ name of
        None \<Rightarrow> False
      | Some raw \<Rightarrow> py_lower (py_strip raw) \<in> {''1'', ''true'', ''t'', ''yes'', ''y'', ''on''})"

record router_config =
  rc_proxy_timeout :: rat
  rc_cluster_domain :: string
  rc_max_keepalive :: int
  rc_idle_timeout :: rat
  rc_max_lifetime :: rat
  rc_max_connections :: int
  rc_max_message_bytes :: int
  rc_trusted :: "ip_net list"
  rc_auth_token :: "string option"

text \<open>The module body: the configuration, or the \<open>RuntimeError\<close> of an insecure start.\<close>

definition load_config :: "(string \<Rightarrow> float_value option) \<Rightarrow> environ \<Rightarrow> router_config res" where
  "load_config to_float environ =
     (let token = py_strip (case dict_get environ ''ROUTER_AUTH_TOKEN'' of None \<Rightarrow> [] | Some t \<Rightarrow> t);
          cfg = \<lparr>rc_proxy_timeout = get_proxy_timeout to_float environ,
                 rc_cluster_domain = get_cluster_domain environ,
                 rc_max_keepalive = get_max_keepalive_connections environ,
                 rc_idle_timeout = get_positive_float_env to_float environ ''WEBSOCKET_IDLE_TIMEOUT_SECONDS'' 3600 True,
                 rc_max_lifetime = get_positive_float_env to_float environ ''WEBSOCKET_MAX_LIFETIME_SECONDS'' 86400 True,
                 rc_max_connections = get_non_negative_int_env environ ''WEBSOCKET_MAX_CONNECTIONS_PER_CLIENT'' 64 True,
                 rc_max_message_bytes =
                   get_non_negative_int_env environ ''WEBSOCKET_MAX_MESSAGE_BYTES'' (16 * 1024 * 1024) False,
                 rc_trusted = parse_trusted_proxy_networks (dict_get environ ''TRUSTED_PROXY_CIDRS''),
                 rc_auth_token = (if token = [] then None else Some token)\<rparr> in
      if token = [] \<and> \<not> env_var_is_truthy environ ''ALLOW_UNAUTHENTICATED_ROUTER'' then Inl RuntimeError else Inr cfg)"

section \<open>The connection tracker\<close>

datatype router_error = RoutingError | ConnectionLimitExceeded | HTTPException int | Crash

record tracker =
  tr_max :: int
  tr_counts :: "(string, int) dict"

definition count_of :: "tracker \<Rightarrow> string \<Rightarrow> int" where
  "count_of t k = (case dict_get (tr_counts t) k of None \<Rightarrow> 0 | Some n \<Rightarrow> n)"

definition acquire :: "string \<Rightarrow> tracker \<Rightarrow> (router_error + unit) \<times> tracker" where
  "acquire k t =
     (if tr_max t \<le> 0 then (Inr (), t)
      else if count_of t k \<ge> tr_max t then (Inl ConnectionLimitExceeded, t)
      else (Inr (), t\<lparr>tr_counts := dict_set k (count_of t k + 1) (tr_counts t)\<rparr>))"

definition release :: "string \<Rightarrow> tracker \<Rightarrow> tracker" where
  "release k t =
     (if tr_max t \<le> 0 then t
      else if count_of t k \<le> 1 then t\<lparr>tr_counts := dict_pop k (tr_counts t)\<rparr>
      else t\<lparr>tr_counts := dict_set k (count_of t k - 1) (tr_counts t)\<rparr>)"

section \<open>Clients and proxies\<close>

definition is_trusted_address :: "string \<Rightarrow> ip_net list \<Rightarrow> bool" where
  "is_trusted_address host trusted =
     (if host = [] \<or> trusted = [] then False
      else case ip_address host of None \<Rightarrow> False | Some a \<Rightarrow> list_ex (ip_in_net a) trusted)"

definition is_trusted_proxy :: "string option \<Rightarrow> ip_net list \<Rightarrow> bool" where
  "is_trusted_proxy peer trusted =
     (case peer of None \<Rightarrow> False | Some p \<Rightarrow> if p = [] then False else is_trusted_address p trusted)"

definition client_ip_from_forwarded_for :: "string \<Rightarrow> ip_net list \<Rightarrow> string option" where
  "client_ip_from_forwarded_for forwarded_for trusted =
     (let hops = filter (\<lambda>h. h \<noteq> []) (map py_strip (py_split CHR '','' forwarded_for)) in
      case find (\<lambda>hop. \<not> is_trusted_address hop trusted) (rev hops) of
        Some hop \<Rightarrow> Some hop
      | None \<Rightarrow> (case hops of [] \<Rightarrow> None | h # _ \<Rightarrow> Some h))"

definition client_connection_key :: "string option \<Rightarrow> headers \<Rightarrow> ip_net list \<Rightarrow> string" where
  "client_connection_key peer hs trusted =
     (let direct = (case peer of None \<Rightarrow> ''unknown'' | Some p \<Rightarrow> if p = [] then ''unknown'' else p);
          forwarded_for = ci_get hs ''x-forwarded-for'' in
      if str_true forwarded_for \<and> is_trusted_proxy peer trusted then
        (case client_ip_from_forwarded_for (the forwarded_for) trusted of
           None \<Rightarrow> direct
         | Some ip \<Rightarrow> if ip = [] then direct else ip)
      else direct)"

definition get_request_timeout :: "(string \<Rightarrow> float_value option) \<Rightarrow> router_config \<Rightarrow> headers \<Rightarrow> rat" where
  "get_request_timeout to_float cfg hs =
     (case ci_get hs ''X-Sandbox-Timeout'' of
        None \<Rightarrow> rc_proxy_timeout cfg
      | Some raw \<Rightarrow>
          (case to_float raw of
             Some (Finite v) \<Rightarrow>
               (if v \<le> 0 then rc_proxy_timeout cfg
                else if v > rc_proxy_timeout cfg then rc_proxy_timeout cfg else v)
           | _ \<Rightarrow> rc_proxy_timeout cfg))"

section \<open>Resolving the target\<close>

definition DNS_LABEL_REGEX :: rexp where
  "DNS_LABEL_REGEX =
     edged_re (\<lambda>c. is_lower c \<or> is_digit c) (\<lambda>c. c = CHR ''-'' \<or> is_lower c \<or> is_digit c)"

definition is_valid_dns_label :: "string \<Rightarrow> bool" where
  "is_valid_dns_label label = (if label = [] \<or> length label > 63 then False else re_match DNS_LABEL_REGEX label)"

text \<open>A value of the ASGI scope, and the decoded URL that stands in for it.\<close>

datatype raw_value = RawBytes string | RawStr string | RawOther

record request_url_parts =
  url_path :: string
  url_query :: string
  scope_path :: raw_value
  scope_query :: raw_value

definition raw_or :: "raw_value \<Rightarrow> string \<Rightarrow> string" where
  "raw_or v decoded =
     (case v of
        RawBytes b \<Rightarrow> if list_all (\<lambda>c. code c < 128) b then b else decoded
      | RawStr s \<Rightarrow> s
      | RawOther \<Rightarrow> decoded)"

definition raw_path_with_query :: "request_url_parts \<Rightarrow> string" where
  "raw_path_with_query u =
     (let path0 = raw_or (scope_path u) (url_path u);
          path = (if startswith path0 ''/'' then path0 else CHR ''/'' # path0);
          query = raw_or (scope_query u) (url_query u) in
      if query \<noteq> [] then path @ ''?'' @ query else path)"

definition forbidden_target :: "ip \<Rightarrow> bool" where
  "forbidden_target a = (is_loopback a \<or> is_link_local a \<or> is_multicast a \<or> is_unspecified a)"

definition target_host :: "router_config \<Rightarrow> string \<Rightarrow> string \<Rightarrow> string option \<Rightarrow> router_error + string" where
  "target_host cfg sandbox_id namespace pod_ip =
     (if str_true pod_ip then
        (case ip_address (the pod_ip) of
           None \<Rightarrow> Inl RoutingError
         | Some a \<Rightarrow>
             (if forbidden_target a then Inl RoutingError
              else Inr (if ip_version a = 6 then ''['' @ show_ip a @ '']'' else show_ip a)))
      else Inr (sandbox_id @ ''.'' @ namespace @ ''.svc.'' @ rc_cluster_domain cfg))"

definition resolve_target ::
  "router_config \<Rightarrow> headers \<Rightarrow> request_url_parts \<Rightarrow> string \<Rightarrow> router_error + (string \<times> string)"
where
  "resolve_target cfg hs u scheme =
     (let sandbox_id = ci_get hs ''X-Sandbox-ID'';
          namespace = (case ci_get hs ''X-Sandbox-Namespace'' of None \<Rightarrow> DEFAULT_NAMESPACE | Some n \<Rightarrow> n);
          port = (case ci_get hs ''X-Sandbox-Port'' of None \<Rightarrow> Some DEFAULT_SANDBOX_PORT | Some p \<Rightarrow> parse_int p) in
      if \<not> str_true sandbox_id then Inl RoutingError
      else if \<not> is_valid_dns_label (the sandbox_id) then Inl RoutingError
      else if \<not> is_valid_dns_label namespace then Inl RoutingError
      else case port of
        None \<Rightarrow> Inl RoutingError
      | Some n \<Rightarrow>
          (if n < 1 \<or> n > 65535 then Inl RoutingError
           else bindE (target_host cfg (the sandbox_id) namespace (ci_get hs ''X-Sandbox-Pod-IP'')) (\<lambda>host.
             Inr (scheme @ ''://'' @ host @ '':'' @ show_int n @ raw_path_with_query u, the sandbox_id))))"

section \<open>Headers and authentication\<close>

definition hop_by_hop_header_names :: "headers \<Rightarrow> string list" where
  "hop_by_hop_header_names hs =
     HOP_BY_HOP_HEADERS @
     (case ci_get hs ''connection'' of
        None \<Rightarrow> []
      | Some c \<Rightarrow> filter (\<lambda>n. n \<noteq> []) (map (\<lambda>t. py_lower (py_strip t)) (py_split CHR '','' c)))"

definition proxy_headers :: "headers \<Rightarrow> bool \<Rightarrow> headers" where
  "proxy_headers hs websocket =
     (let excluded = ROUTER_HEADER_NAMES @ hop_by_hop_header_names hs @ [''host'', ''authorization'']
                     @ (if websocket then WEBSOCKET_HANDSHAKE_HEADERS else []) in
      dict_of_pairs (filter (\<lambda>(k, v). py_lower k \<notin> set excluded) hs))"

definition response_headers :: "headers \<Rightarrow> headers" where
  "response_headers hs = dict_of_pairs (filter (\<lambda>(k, v). py_lower k \<notin> set (hop_by_hop_header_names hs)) hs)"

definition url_for_log :: "string \<Rightarrow> string" where
  "url_for_log target_url = takeWhile (\<lambda>c. c \<noteq> CHR ''?'') target_url"

text \<open>\<^verbatim>\<open>secrets.compare_digest\<close> raises on text that is not ASCII.\<close>

definition compare_digest :: "string \<Rightarrow> string \<Rightarrow> router_error + bool" where
  "compare_digest a b = (if list_all (\<lambda>c. code c < 128) (a @ b) then Inr (a = b) else Inl Crash)"

definition check_router_auth :: "router_config \<Rightarrow> headers \<Rightarrow> router_error + unit" where
  "check_router_auth cfg hs =
     (case rc_auth_token cfg of
        None \<Rightarrow> Inr ()
      | Some token \<Rightarrow>
          (if \<not> str_true (ci_get hs ''Authorization'') then Inl (HTTPException 401)
           else case py_words (the (ci_get hs ''Authorization'')) of
             [scheme, given] \<Rightarrow>
               (if py_lower scheme \<noteq> ''bearer'' then Inl (HTTPException 401)
                else bindE (compare_digest given token) (\<lambda>same. guardE same (HTTPException 401)))
           | _ \<Rightarrow> Inl (HTTPException 401)))"

section \<open>Relaying a WebSocket\<close>

text \<open>A message from the client side, and a frame sent on.\<close>

datatype client_message = CText string | CBytes string | CEmpty | CDisconnect "int option" "string option"

datatype frame = FText string | FBytes string

fun client_to_backend :: "client_message list \<Rightarrow> frame list \<times> (int \<times> string) option" where
  "client_to_backend [] = ([], None)"
| "client_to_backend (CDisconnect c reason # ms) =
     ([], Some (case c of None \<Rightarrow> 1000 | Some n \<Rightarrow> n, case reason of None \<Rightarrow> [] | Some r \<Rightarrow> r))"
| "client_to_backend (CText s # ms) = (case client_to_backend ms of (fs, c) \<Rightarrow> (FText s # fs, c))"
| "client_to_backend (CBytes b # ms) = (case client_to_backend ms of (fs, c) \<Rightarrow> (FBytes b # fs, c))"
| "client_to_backend (CEmpty # ms) = client_to_backend ms"

text \<open>The watchdog looks at the clock every second: the samples are the time and the last activity then.\<close>

fun watchdog :: "rat \<Rightarrow> rat \<Rightarrow> rat \<Rightarrow> (rat \<times> rat) list \<Rightarrow> string option" where
  "watchdog idle_timeout max_lifetime started_at [] = None"
| "watchdog idle_timeout max_lifetime started_at ((now, last_activity) # samples) =
     (if idle_timeout \<noteq> 0 \<and> now - last_activity \<ge> idle_timeout then Some ''idle timeout exceeded''
      else if max_lifetime \<noteq> 0 \<and> now - started_at \<ge> max_lifetime then Some ''max lifetime exceeded''
      else watchdog idle_timeout max_lifetime started_at samples)"

text \<open>What is known when the first task is done: the watchdog's reason, which directions ended, how the client
  closed, whether a message was too big, the back end's close code and reason, and an exception of a
  finished task other than a closed connection.\<close>

record relay_end =
  re_watchdog :: "string option"
  re_backend_done :: bool
  re_client_done :: bool
  re_client_close :: "(int \<times> string) option"
  re_too_big :: bool
  re_backend_close :: "int \<times> string"
  re_failed :: bool

text \<open>The close frames to the client and to the back end; \<open>None\<close> is an exception.\<close>

definition relay_close :: "relay_end \<Rightarrow> ((int \<times> string) option \<times> (int \<times> string) option) option" where
  "relay_close e =
     (if re_failed e then None
      else case re_watchdog e of
        Some reason \<Rightarrow> Some (Some (1001, reason), Some (1001, reason))
      | None \<Rightarrow>
          (if re_too_big e then Some (Some (1009, ''message too big''), Some (1009, ''message too big''))
           else if re_backend_done e then
             (case re_backend_close e of (c, reason) \<Rightarrow> Some (Some (if c = 0 then 1000 else c, reason), None))
           else if re_client_done e then
             (case re_client_close e of
                None \<Rightarrow> Some (None, None)
              | Some (c, reason) \<Rightarrow> Some (None, Some (if c = 0 then 1000 else c, reason)))
           else Some (None, None)))"

section \<open>The handlers\<close>

text \<open>\<^verbatim>\<open>proxy_websocket\<close> up to the connection to the back end: refused with a close code, crashed, or open with its
  client key, URL, headers and subprotocols.\<close>

datatype ws_admission = WsClose int | WsCrash | WsOpen string string headers "string list option"

definition ws_subprotocols :: "headers \<Rightarrow> string list option" where
  "ws_subprotocols hs =
     (let h = ci_get hs ''sec-websocket-protocol'' in
      if str_true h then Some (filter (\<lambda>s. s \<noteq> []) (map py_strip (py_split CHR '','' (the h)))) else None)"

definition ws_admit ::
  "router_config \<Rightarrow> string option \<Rightarrow> headers \<Rightarrow> request_url_parts \<Rightarrow> tracker \<Rightarrow> ws_admission \<times> tracker"
where
  "ws_admit cfg peer hs u t =
     (case check_router_auth cfg hs of
        Inl (HTTPException _) \<Rightarrow> (WsClose 1008, t)
      | Inl _ \<Rightarrow> (WsCrash, t)
      | Inr _ \<Rightarrow>
          (case resolve_target cfg hs u ''ws'' of
             Inl _ \<Rightarrow> (WsClose 1008, t)
           | Inr (target_url, sandbox_id) \<Rightarrow>
               (let k = client_connection_key peer hs (rc_trusted cfg) in
                case acquire k t of
                  (Inl _, t1) \<Rightarrow> (WsClose 1008, t1)
                | (Inr _, t1) \<Rightarrow> (WsOpen k target_url (proxy_headers hs True) (ws_subprotocols hs), t1))))"

datatype ws_outcome = WsRelayed relay_end | WsInvalidStatus | WsOSError | WsFailure

text \<open>The code the client's connection is closed with by the handler, and the tracker after the \<^verbatim>\<open>finally\<close>.\<close>

definition ws_finish :: "string \<Rightarrow> ws_outcome \<Rightarrow> tracker \<Rightarrow> int option \<times> tracker" where
  "ws_finish k outcome t =
     ((case outcome of
         WsRelayed e \<Rightarrow> (case relay_close e of None \<Rightarrow> Some 1011 | Some (c, b) \<Rightarrow> map_option fst c)
       | _ \<Rightarrow> Some 1011), release k t)"

definition proxy_websocket ::
  "router_config \<Rightarrow> (string \<Rightarrow> headers \<Rightarrow> string list option \<Rightarrow> ws_outcome) \<Rightarrow> string option \<Rightarrow> headers
   \<Rightarrow> request_url_parts \<Rightarrow> tracker \<Rightarrow> int option \<times> tracker"
where
  "proxy_websocket cfg backend peer hs u t =
     (case ws_admit cfg peer hs u t of
        (WsClose c, t1) \<Rightarrow> (Some c, t1)
      | (WsCrash, t1) \<Rightarrow> (None, t1)
      | (WsOpen k target_url fwd subprotocols, t1) \<Rightarrow> ws_finish k (backend target_url fwd subprotocols) t1)"

record backend_request =
  br_method :: string
  br_url :: string
  br_headers :: headers
  br_content :: "string list"
  br_timeout :: rat
  br_connect_timeout :: rat

datatype backend_result = BResponse int headers "string list" | BConnectError | BTimeout | BFailure

definition proxy_request ::
  "(string \<Rightarrow> float_value option) \<Rightarrow> router_config \<Rightarrow> (backend_request \<Rightarrow> backend_result) \<Rightarrow> string \<Rightarrow> headers
   \<Rightarrow> request_url_parts \<Rightarrow> string list \<Rightarrow> router_error + (int \<times> headers \<times> string list)"
where
  "proxy_request to_float cfg backend http_method hs u body =
     bindE (check_router_auth cfg hs) (\<lambda>_.
       case resolve_target cfg hs u ''http'' of
         Inl _ \<Rightarrow> Inl (HTTPException 400)
       | Inr (target_url, sandbox_id) \<Rightarrow>
           (let timeout = get_request_timeout to_float cfg hs in
            case backend \<lparr>br_method = http_method, br_url = target_url, br_headers = proxy_headers hs False,
                          br_content = body,
                          br_timeout = timeout, br_connect_timeout = min timeout 5\<rparr> of
              BResponse status rhs chunks \<Rightarrow>
                (if status = 101 then Inl (HTTPException 502) else Inr (status, response_headers rhs, chunks))
            | BConnectError \<Rightarrow> Inl (HTTPException 502)
            | BTimeout \<Rightarrow> Inl (HTTPException 504)
            | BFailure \<Rightarrow> Inl (HTTPException 500)))"

section \<open>Connections are counted\<close>

text \<open>WebSockets come and go in any order; the second component are the client keys of those that are open.\<close>

inductive ws_step :: "router_config \<Rightarrow> tracker \<times> string list \<Rightarrow> tracker \<times> string list \<Rightarrow> bool" for cfg where
  opened: "ws_admit cfg peer hs u t = (WsOpen k url fwd subs, t') \<Longrightarrow> ws_step cfg (t, act) (t', k # act)"
| refused: "ws_admit cfg peer hs u t = (r, t') \<Longrightarrow> r = WsCrash \<or> (\<exists>c. r = WsClose c) \<Longrightarrow> ws_step cfg (t, act) (t', act)"
| finished: "k \<in> set act \<Longrightarrow> ws_finish k outcome t = (c, t') \<Longrightarrow> ws_step cfg (t, act) (t', remove1 k act)"

definition new_tracker :: "router_config \<Rightarrow> tracker" where
  "new_tracker cfg = \<lparr>tr_max = rc_max_connections cfg, tr_counts = []\<rparr>"

definition tracker_ok :: "router_config \<Rightarrow> tracker \<times> string list \<Rightarrow> bool" where
  "tracker_ok cfg s =
     (case s of (t, act) \<Rightarrow> tr_max t = rc_max_connections cfg
        \<and> (if tr_max t \<le> 0 then tr_counts t = []
           else (\<forall>k. count_of t k = int (count (mset act) k) \<and> int (count (mset act) k) \<le> tr_max t
                   \<and> (dict_get (tr_counts t) k \<noteq> None \<longleftrightarrow> k \<in> set act))))"

lemma count_of_set [simp]: "count_of (t\<lparr>tr_counts := dict_set k n (tr_counts t)\<rparr>) j = (if j = k then n else count_of t j)"
  by (simp add: count_of_def)

lemma count_of_pop [simp]: "count_of (t\<lparr>tr_counts := dict_pop k (tr_counts t)\<rparr>) j = (if j = k then 0 else count_of t j)"
  by (simp add: count_of_def)

lemma acquire_ok:
  assumes "tracker_ok cfg (t, act)" and "acquire k t = (r, t')"
  shows "tracker_ok cfg (t', case r of Inr _ \<Rightarrow> k # act | Inl _ \<Rightarrow> act)"
  using assms by (auto simp: tracker_ok_def acquire_def split: if_splits)

lemma release_ok:
  assumes "tracker_ok cfg (t, act)" and "k \<in> set act"
  shows "tracker_ok cfg (release k t, remove1 k act)"
proof (cases "tr_max t \<le> 0")
  case True
  with assms(1) show ?thesis by (simp add: tracker_ok_def release_def)
next
  case False
  have c: "count_of t j = int (count (mset act) j)" "int (count (mset act) j) \<le> tr_max t"
    "dict_get (tr_counts t) j \<noteq> None \<longleftrightarrow> j \<in> set act" for j
    using assms(1) False by (auto simp: tracker_ok_def)
  have pos: "0 < count (mset act) k" using assms(2) by simp
  have cnt: "count (mset (remove1 k act)) j = (if j = k then count (mset act) k - 1 else count (mset act) j)" for j
    by (simp add: mset_remove1)
  have "count_of (release k t) j = int (count (mset (remove1 k act)) j)" for j
    unfolding cnt using c(1) [of j] c(1) [of k] pos False
    by (cases "j = k") (auto simp: release_def simp del: count_greater_zero_iff)
  moreover have "int (count (mset (remove1 k act)) j) \<le> tr_max t" for j
    unfolding cnt using c(2) [of j] c(2) [of k] by (cases "j = k") auto
  moreover have "dict_get (tr_counts (release k t)) j \<noteq> None \<longleftrightarrow> j \<in> set (remove1 k act)" for j
  proof -
    have "j \<in> set (remove1 k act) \<longleftrightarrow> 0 < count (mset (remove1 k act)) j"
      by (metis count_greater_zero_iff set_mset_mset)
    also have "\<dots> \<longleftrightarrow> (if j = k then \<not> count_of t k \<le> 1 else j \<in> set act)"
      unfolding cnt using c(1) [of k] by (cases "j = k") (simp_all, linarith)
    also have "\<dots> \<longleftrightarrow> dict_get (tr_counts (release k t)) j \<noteq> None"
      using c(3) [of j] False by (simp add: release_def)
    finally show ?thesis by (rule sym)
  qed
  moreover have "tr_max (release k t) = tr_max t" by (simp add: release_def)
  ultimately show ?thesis using assms(1) False unfolding tracker_ok_def prod.case by (simp only: if_False simp_thms)
qed

lemma ws_step_ok: "ws_step cfg s s' \<Longrightarrow> tracker_ok cfg s \<Longrightarrow> tracker_ok cfg s'"
proof (induction rule: ws_step.induct)
  case (opened peer hs u t k url fwd subs t' act)
  obtain q where "acquire k t = (Inr q, t')"
    using opened(1) by (auto simp: ws_admit_def Let_def split: sum.splits prod.splits router_error.splits)
  with acquire_ok [OF opened(2)] show ?case by fastforce
next
  case (refused peer hs u t r t' act)
  have "t' = t \<or> (\<exists>k e. acquire k t = (Inl e, t'))"
    using refused(1,2) by (auto simp: ws_admit_def Let_def split: sum.splits prod.splits router_error.splits)
  with refused(3) show ?case by (auto simp: acquire_def split: if_splits)
next
  case (finished k act outcome t c t')
  then show ?case using release_ok by (auto simp: ws_finish_def)
qed

lemma ws_steps_ok: "(ws_step cfg)\<^sup>*\<^sup>* s s' \<Longrightarrow> tracker_ok cfg s \<Longrightarrow> tracker_ok cfg s'"
  by (induction rule: rtranclp_induct) (auto intro: ws_step_ok)

lemma new_tracker_ok: "tracker_ok cfg (new_tracker cfg, [])"
  by (simp add: tracker_ok_def new_tracker_def count_of_def)

lemma tracker_ok_limited:
  assumes "tracker_ok cfg (t, act)" and "0 < rc_max_connections cfg"
  shows "count_of t k = int (count (mset act) k) \<and> int (count (mset act) k) \<le> rc_max_connections cfg
    \<and> (dict_get (tr_counts t) k \<noteq> None \<longleftrightarrow> k \<in> set act)"
proof -
  have m: "tr_max t = rc_max_connections cfg" and "\<not> tr_max t \<le> 0" using assms by (auto simp: tracker_ok_def)
  with assms(1) show ?thesis unfolding tracker_ok_def prod.case m [symmetric] by (simp only: if_False simp_thms)
qed

text \<open>(C16) However WebSockets of however many clients open, are refused and end, whichever way they end: no client
  has more open connections than the configured limit, the tracker's count of a client is exactly the
  number of its open connections, and once all have ended the tracker is empty again.\<close>

theorem ws_connections_bounded:
  assumes "(ws_step cfg)\<^sup>*\<^sup>* (new_tracker cfg, []) (t, act)" and "0 < rc_max_connections cfg"
  shows "int (count (mset act) k) \<le> rc_max_connections cfg \<and> count_of t k = int (count (mset act) k)
    \<and> (act = [] \<longrightarrow> tr_counts t = [])"
proof -
  have c: "count_of t j = int (count (mset act) j)" "int (count (mset act) j) \<le> rc_max_connections cfg"
    "dict_get (tr_counts t) j \<noteq> None \<longleftrightarrow> j \<in> set act" for j
    using tracker_ok_limited [OF ws_steps_ok [OF assms(1) new_tracker_ok] assms(2)] by blast+
  have "tr_counts t = []" if "act = []"
  proof (cases "tr_counts t")
    case (Cons e es)
    then have "dict_get (tr_counts t) (fst e) \<noteq> None" by (cases e) simp
    with c(3) that show ?thesis by simp
  qed
  with c show ?thesis by blast
qed

text \<open>A client that opened and closed a connection while another stayed open.\<close>

section \<open>Timeouts and authentication\<close>

lemma get_proxy_timeout_pos: "0 < get_proxy_timeout to_float environ"
  by (auto simp: get_proxy_timeout_def get_positive_float_env_def split: option.splits float_value.splits)

text \<open>The time a request may take is positive and never above the router's own limit, whatever the client
  sends; a valid smaller request is honoured.\<close>

lemma request_timeout_bounded:
  assumes "load_config to_float environ = Inr cfg"
  shows "0 < get_request_timeout to_float cfg hs \<and> get_request_timeout to_float cfg hs \<le> rc_proxy_timeout cfg
    \<and> (\<forall>raw v. ci_get hs ''X-Sandbox-Timeout'' = Some raw \<and> to_float raw = Some (Finite v)
         \<and> 0 < v \<and> v \<le> rc_proxy_timeout cfg \<longrightarrow> get_request_timeout to_float cfg hs = v)"
proof -
  have "0 < rc_proxy_timeout cfg"
    using assms get_proxy_timeout_pos by (auto simp: load_config_def Let_def split: if_splits)
  then show ?thesis
    by (auto simp: get_request_timeout_def split: option.splits float_value.splits)
qed

definition sim_float :: "string \<Rightarrow> float_value option" where
  "sim_float s = map_option (\<lambda>i. Finite (of_int i)) (parse_int s)"

definition sim_environ :: environ where
  "sim_environ = [(''ROUTER_AUTH_TOKEN'', ''secret'')]"

definition sim_router :: router_config where
  "sim_router = \<lparr>rc_proxy_timeout = 180, rc_cluster_domain = ''cluster.local'', rc_max_keepalive = 20,
     rc_idle_timeout = 3600, rc_max_lifetime = 86400, rc_max_connections = 64,
     rc_max_message_bytes = 16777216, rc_trusted = [], rc_auth_token = Some ''secret''\<rparr>"

lemma sim_router_loads: "load_config sim_float sim_environ = Inr sim_router"
  by (simp add: load_config_def sim_environ_def sim_router_def get_proxy_timeout_def get_positive_float_env_def
      get_cluster_domain_def get_max_keepalive_connections_def get_non_negative_int_env_def
      parse_trusted_proxy_networks_def str_true_def py_strip_def is_space_def)

text \<open>The credentials a request presents: the two words of its Authorization header.\<close>

definition presents :: "headers \<Rightarrow> string \<Rightarrow> bool" where
  "presents hs token =
     (case ci_get hs ''Authorization'' of
        None \<Rightarrow> False
      | Some h \<Rightarrow> (case py_words h of [scheme, given] \<Rightarrow> py_lower scheme = ''bearer'' \<and> given = token | _ \<Rightarrow> False))"

lemma check_router_auth_presents:
  assumes "rc_auth_token cfg = Some token"
  shows "check_router_auth cfg hs = Inr () \<Longrightarrow> presents hs token"
    and "check_router_auth cfg hs \<noteq> Inr () \<Longrightarrow>
      check_router_auth cfg hs = Inl (HTTPException 401) \<or> check_router_auth cfg hs = Inl Crash"
  using assms by (auto simp: check_router_auth_def presents_def compare_digest_def str_true_def
      split: option.splits list.splits if_splits)

lemma load_config_token:
  assumes "load_config to_float environ = Inr cfg" and "\<not> env_var_is_truthy environ ''ALLOW_UNAUTHENTICATED_ROUTER''"
  obtains raw token where "rc_auth_token cfg = Some token" "token \<noteq> []"
    "dict_get environ ''ROUTER_AUTH_TOKEN'' = Some raw" "token = py_strip raw"
proof -
  define token where "token = py_strip (case dict_get environ ''ROUTER_AUTH_TOKEN'' of None \<Rightarrow> [] | Some t \<Rightarrow> t)"
  have ne: "token \<noteq> []" and at: "rc_auth_token cfg = Some token"
    using assms unfolding load_config_def Let_def token_def [symmetric] by (auto split: if_split_asm)
  show thesis
  proof (cases "dict_get environ ''ROUTER_AUTH_TOKEN''")
    case None
    then have "token = []" by (simp add: token_def py_strip_def)
    with ne show thesis ..
  next
    case (Some raw)
    then show thesis using that [OF at ne Some] by (simp add: token_def)
  qed
qed

lemma unauthenticated_refused:
  assumes "rc_auth_token cfg = Some token" and "\<not> presents hs token"
  shows "proxy_request to_float cfg backend http_method hs u body \<in> {Inl (HTTPException 401), Inl Crash}"
    and "ws_admit cfg peer hs u t \<in> {(WsClose 1008, t), (WsCrash, t)}"
proof -
  have "check_router_auth cfg hs = Inl (HTTPException 401) \<or> check_router_auth cfg hs = Inl Crash"
    using check_router_auth_presents [OF assms(1), of hs] assms(2) by blast
  then show "proxy_request to_float cfg backend http_method hs u body \<in> {Inl (HTTPException 401), Inl Crash}"
    and "ws_admit cfg peer hs u t \<in> {(WsClose 1008, t), (WsCrash, t)}"
    by (auto simp: proxy_request_def ws_admit_def)
qed

text \<open>(C18) Authentication fails closed. Unless unauthenticated mode was asked for, the router does not start
  without a token; and a request or WebSocket that does not present exactly that token is answered
  without the back end being contacted (the answer is the same for every back end) and without taking
  a place in the connection tracker.\<close>

theorem router_fails_closed:
  assumes "load_config to_float environ = Inr cfg" and "\<not> env_var_is_truthy environ ''ALLOW_UNAUTHENTICATED_ROUTER''"
  shows "\<exists>raw token. rc_auth_token cfg = Some token \<and> token \<noteq> []
    \<and> dict_get environ ''ROUTER_AUTH_TOKEN'' = Some raw \<and> token = py_strip raw
    \<and> (presents hs token
       \<or> ((\<forall>backend. proxy_request to_float cfg backend http_method hs u body \<in> {Inl (HTTPException 401), Inl Crash})
          \<and> ws_admit cfg peer hs u t \<in> {(WsClose 1008, t), (WsCrash, t)}))"
proof -
  obtain raw token where tok: "rc_auth_token cfg = Some token" "token \<noteq> []"
      "dict_get environ ''ROUTER_AUTH_TOKEN'' = Some raw" "token = py_strip raw"
    by (rule load_config_token [OF assms])
  have "(\<forall>backend. proxy_request to_float cfg backend http_method hs u body \<in> {Inl (HTTPException 401), Inl Crash})
      \<and> ws_admit cfg peer hs u t \<in> {(WsClose 1008, t), (WsCrash, t)}" if "\<not> presents hs token"
    using unauthenticated_refused [OF tok(1) that] by blast
  with tok show ?thesis by blast
qed

theorem router_fails_closed_witness:
  "proxy_request sim_float sim_router (\<lambda>_. BFailure) ''GET'' []
     \<lparr>url_path = ''/'', url_query = [], scope_path = RawOther, scope_query = RawOther\<rparr> []
   \<in> {Inl (HTTPException 401), Inl Crash}"
proof -
  have "\<not> env_var_is_truthy sim_environ ''ALLOW_UNAUTHENTICATED_ROUTER''"
    by (simp add: env_var_is_truthy_def sim_environ_def)
  moreover have "\<not> presents [] token" for token by (simp add: presents_def ci_get_def)
  ultimately show ?thesis using router_fails_closed [OF sim_router_loads, where hs = "[]"] by blast
qed

section \<open>Where a request goes\<close>

text \<open>The host a URL names, as RFC 3986 splits it: the authority ends at the first slash, question mark or
  hash; user information ends at its last at sign; a host in brackets ends at the bracket, another one
  at the colon.\<close>

definition url_authority :: "string \<Rightarrow> string" where
  "url_authority url =
     takeWhile (\<lambda>c. c \<notin> {CHR ''/'', CHR ''?'', CHR ''#''}) (drop 3 (dropWhile (\<lambda>c. c \<noteq> CHR '':'') url))"

definition without_userinfo :: "string \<Rightarrow> string" where
  "without_userinfo authority = rev (takeWhile (\<lambda>c. c \<noteq> CHR ''@'') (rev authority))"

definition url_host :: "string \<Rightarrow> string" where
  "url_host url =
     (let h = without_userinfo (url_authority url) in
      if startswith h ''['' then takeWhile (\<lambda>c. c \<noteq> CHR '']'') (tl h) else takeWhile (\<lambda>c. c \<noteq> CHR '':'') h)"

text \<open>Characters that do not end a host, an authority or its user information.\<close>

definition uri_host_char :: "char \<Rightarrow> bool" where
  "uri_host_char c = (c \<notin> {CHR ''/'', CHR ''?'', CHR ''#'', CHR ''@'', CHR '':'', CHR ''['', CHR '']''})"

lemma list_all_py_join:
  "list_all P sep \<Longrightarrow> (\<And>w. w \<in> set ws \<Longrightarrow> list_all P w) \<Longrightarrow> list_all P (py_join sep ws)"
  by (induction sep ws rule: py_join.induct) auto

lemma is_hex_host_char: "is_hex c \<Longrightarrow> uri_host_char c"
  by (auto simp: is_hex_def is_digit_def uri_host_char_def)

lemma digits_host: "list_all uri_host_char (show_nat n)"
  using show_nat_digits [of n] by (auto simp: list_all_iff is_hex_def intro: is_hex_host_char)

lemma is_hex_hex_digit: "d < 16 \<Longrightarrow> is_hex (hex_digit d)"
  by (auto simp: is_hex_def hex_digit_def is_digit_def)

declare show_hex.simps [simp del]

lemma show_hex_hex: "list_all is_hex (show_hex n)"
proof (induction n rule: show_hex.induct)
  case (1 n)
  then show ?case by (cases "n < 16") (simp_all add: show_hex.simps [of n] is_hex_hex_digit)
qed

lemma show_ip4_host: "list_all uri_host_char (show_ip4 n)"
  unfolding show_ip4_def by (rule list_all_py_join) (auto simp: digits_host, simp add: uri_host_char_def)

lemma show_hextets_chars: "list_all (\<lambda>c. c = CHR '':'' \<or> uri_host_char c) (show_hextets hs)"
proof -
  have w: "list_all (\<lambda>c. c = CHR '':'' \<or> uri_host_char c) (show_hex h)" for h
    using show_hex_hex [of h] by (auto simp: list_all_iff intro: is_hex_host_char)
  show ?thesis
    unfolding show_hextets_def Let_def
    by (cases "zero_run 0 (0, 0) (0, 0) hs")
       (auto intro!: list_all_py_join simp: w dest!: in_set_takeD in_set_dropD)
qed

text \<open>Without a scope id, an address prints to characters that cannot end a bracketed host.\<close>

lemma show_ip_chars: "list_all (\<lambda>c. c = CHR '':'' \<or> uri_host_char c) (show_ip (IPv6 n None))"
proof -
  have "list_all (\<lambda>c. c = CHR '':'' \<or> uri_host_char c) (show_ip4 m)" for m
    using show_ip4_host [of m] by (auto simp: list_all_iff)
  then show ?thesis
    by (auto simp: show_ip_def show_hextets_chars split: option.split) (simp_all add: uri_host_char_def)
qed

lemma no_scope: "ip_address s = Some a \<Longrightarrow> CHR ''%'' \<notin> set s \<Longrightarrow> (\<exists>n. a = IPv4 n) \<or> (\<exists>n. a = IPv6 n None)"
proof -
  have part: "CHR ''%'' \<notin> set s \<Longrightarrow> py_partition CHR ''%'' s = (s, False, [])" by (induction s) auto
  assume "ip_address s = Some a" and "CHR ''%'' \<notin> set s"
  then show ?thesis by (auto simp: ip_address_def parse_ip6_def part split: option.splits if_splits)
qed

lemma label_re_host: "in_re DNS_LABEL_REGEX w \<Longrightarrow> list_all uri_host_char w"
proof -
  assume "in_re DNS_LABEL_REGEX w"
  then have "list_all (\<lambda>c. c = CHR ''-'' \<or> is_lower c \<or> is_digit c) w"
    unfolding DNS_LABEL_REGEX_def in_re_edged by (rule edged_all) blast
  moreover have "c = CHR ''-'' \<or> is_lower c \<or> is_digit c \<Longrightarrow> uri_host_char c" for c
    by (auto simp: uri_host_char_def is_lower_def is_digit_def)
  ultimately show ?thesis by (simp add: list_all_iff)
qed

lemma label_host: "is_valid_dns_label l \<Longrightarrow> list_all uri_host_char l"
proof -
  assume "is_valid_dns_label l"
  then have "re_match DNS_LABEL_REGEX l" by (simp add: is_valid_dns_label_def split: if_splits)
  then consider "in_re DNS_LABEL_REGEX l" | w where "l = w @ [newline]" "in_re DNS_LABEL_REGEX w"
    unfolding re_match_iff by blast
  then show ?thesis
  proof cases
    case 1
    then show ?thesis by (rule label_re_host)
  next
    case 2
    have "uri_host_char newline" by code_simp
    with label_re_host [OF 2(2)] 2(1) show ?thesis by simp
  qed
qed

lemma takeWhile_stop: "list_all P a \<Longrightarrow> \<not> P (hd b) \<Longrightarrow> b \<noteq> [] \<Longrightarrow> takeWhile P (a @ b) = a"
  by (cases b) (auto simp: takeWhile_append2 list_all_iff)

lemma url_authority_split:
  assumes "scheme \<in> {''http'', ''ws''}" and "list_all (\<lambda>c. c \<notin> {CHR ''/'', CHR ''?'', CHR ''#''}) authority"
    and "startswith path ''/''"
  shows "url_authority (scheme @ ''://'' @ authority @ path) = authority"
proof -
  obtain p where "path = CHR ''/'' # p" using assms(3) by (cases path) auto
  moreover have "dropWhile (\<lambda>c. c \<noteq> CHR '':'') (scheme @ ''://'' @ authority @ path) = ''://'' @ authority @ path"
    using assms(1) by auto
  ultimately show ?thesis
    using assms(2) by (simp add: url_authority_def takeWhile_stop)
qed

lemma without_userinfo_id: "CHR ''@'' \<notin> set authority \<Longrightarrow> without_userinfo authority = authority"
  by (subst without_userinfo_def, subst takeWhile_eq_all_conv [THEN iffD2]) auto

lemma url_host_plain:
  assumes "scheme \<in> {''http'', ''ws''}" and "list_all uri_host_char host" and "startswith path ''/''"
  shows "url_host (scheme @ ''://'' @ host @ '':'' @ show_nat n @ path) = host"
proof -
  have "list_all (\<lambda>c. c \<notin> {CHR ''/'', CHR ''?'', CHR ''#''}) (host @ '':'' @ show_nat n)"
    using assms(2) digits_host [of n] by (auto simp: list_all_iff uri_host_char_def)
  from url_authority_split [OF assms(1) this assms(3)]
  have a: "url_authority (scheme @ ''://'' @ host @ '':'' @ show_nat n @ path) = host @ '':'' @ show_nat n" by simp
  have "CHR ''@'' \<notin> set (host @ '':'' @ show_nat n)"
    using assms(2) digits_host [of n] by (auto simp: list_all_iff uri_host_char_def)
  moreover have "\<not> startswith (host @ '':'' @ show_nat n) ''[''"
    using assms(2) by (cases host) (auto simp: uri_host_char_def)
  moreover have "takeWhile (\<lambda>c. c \<noteq> CHR '':'') (host @ '':'' @ show_nat n) = host"
    using assms(2) by (intro takeWhile_stop) (auto simp: list_all_iff uri_host_char_def)
  ultimately show ?thesis unfolding url_host_def Let_def a by (simp add: without_userinfo_id)
qed

lemma url_host_bracket:
  assumes "scheme \<in> {''http'', ''ws''}" and "list_all (\<lambda>c. c = CHR '':'' \<or> uri_host_char c) host"
    and "startswith path ''/''"
  shows "url_host (scheme @ ''://'' @ (''['' @ host @ '']'') @ '':'' @ show_nat n @ path) = host"
proof -
  have h: "c \<notin> {CHR ''/'', CHR ''?'', CHR ''#'', CHR ''@'', CHR '']''}" if "c \<in> set host" for c
  proof -
    from assms(2) that have "c = CHR '':'' \<or> uri_host_char c" by (simp add: list_all_iff)
    then show ?thesis by (rule disjE) (simp_all add: uri_host_char_def)
  qed
  have d: "c \<notin> {CHR ''/'', CHR ''?'', CHR ''#'', CHR ''@''}" if "c \<in> set (show_nat n)" for c
  proof -
    from digits_host [of n] that have "uri_host_char c" by (simp add: list_all_iff)
    then show ?thesis by (simp add: uri_host_char_def)
  qed
  let ?a = "''['' @ host @ '']:'' @ show_nat n"
  have "list_all (\<lambda>c. c \<notin> {CHR ''/'', CHR ''?'', CHR ''#''}) ?a"
    using h d unfolding list_all_append by (simp add: list_all_iff)
  from url_authority_split [OF assms(1) this assms(3)]
  have a: "url_authority (scheme @ ''://'' @ (''['' @ host @ '']'') @ '':'' @ show_nat n @ path) = ?a" by simp
  have "CHR ''@'' \<notin> set ?a" using h d by auto
  then have u: "without_userinfo ?a = ?a" by (rule without_userinfo_id)
  have "takeWhile (\<lambda>c. c \<noteq> CHR '']'') (host @ '']:'' @ show_nat n) = host"
    using h by (intro takeWhile_stop) (auto simp: list_all_iff)
  then show ?thesis unfolding url_host_def Let_def a u by simp
qed

lemma raw_path_slash: "startswith (raw_path_with_query u) ''/''"
proof -
  have "startswith (p @ q) ''/''" if "startswith p ''/''" for p q using that by (cases p) auto
  then show ?thesis by (simp add: raw_path_with_query_def Let_def)
qed

text \<open>The cases of a resolved target, with everything that was checked on the way.\<close>

lemma resolve_target_cases:
  assumes "resolve_target cfg hs u scheme = Inr (url, sid)"
  obtains ns n host where "ci_get hs ''X-Sandbox-ID'' = Some sid" "is_valid_dns_label sid"
    "ns = (case ci_get hs ''X-Sandbox-Namespace'' of None \<Rightarrow> ''default'' | Some ns \<Rightarrow> ns)" "is_valid_dns_label ns"
    "(case ci_get hs ''X-Sandbox-Port'' of None \<Rightarrow> Some 8888 | Some p \<Rightarrow> parse_int p) = Some (int n)"
    "1 \<le> n" "n \<le> 65535" "target_host cfg sid ns (ci_get hs ''X-Sandbox-Pod-IP'') = Inr host"
    "url = scheme @ ''://'' @ host @ '':'' @ show_nat n @ raw_path_with_query u"
proof -
  define ns where "ns = (case ci_get hs ''X-Sandbox-Namespace'' of None \<Rightarrow> ''default'' | Some ns \<Rightarrow> ns)"
  obtain id m where i: "ci_get hs ''X-Sandbox-ID'' = Some id" "is_valid_dns_label id" "is_valid_dns_label ns"
      "(case ci_get hs ''X-Sandbox-Port'' of None \<Rightarrow> Some 8888 | Some p \<Rightarrow> parse_int p) = Some m" "1 \<le> m" "m \<le> 65535"
      and r: "bindE (target_host cfg id ns (ci_get hs ''X-Sandbox-Pod-IP'')) (\<lambda>host.
             Inr (scheme @ ''://'' @ host @ '':'' @ show_int m @ raw_path_with_query u, id)) = Inr (url, sid)"
    using assms unfolding resolve_target_def Let_def DEFAULT_NAMESPACE_def DEFAULT_SANDBOX_PORT_def ns_def [symmetric]
    by (auto simp: str_true_def not_less split: if_split_asm option.splits)
  obtain host where h: "target_host cfg id ns (ci_get hs ''X-Sandbox-Pod-IP'') = Inr host"
      "url = scheme @ ''://'' @ host @ '':'' @ show_int m @ raw_path_with_query u" "sid = id"
    using r by (cases "target_host cfg id ns (ci_get hs ''X-Sandbox-Pod-IP'')") auto
  show thesis
    by (rule that [of ns "nat m" host]) (use i h ns_def in \<open>simp_all add: show_int_def\<close>)
qed

text \<open>(C10) A request goes where its headers were checked to point. When the router resolves a target, the
  sandbox id and the namespace are DNS labels, the port is in range, and the host a URL parser reads
  out of the target URL is exactly the sandbox's service name, or the pod IP printed canonically, which
  is then no loopback, link-local, multicast or unspecified address, whatever path, query and other
  headers the client sends. This needs a cluster domain without delimiters and a pod IP without scope id.\<close>

theorem resolve_target_host:
  assumes "resolve_target cfg hs u scheme = Inr (url, sid)" and "scheme \<in> {''http'', ''ws''}"
    and "list_all uri_host_char (rc_cluster_domain cfg)"
    and "case ci_get hs ''X-Sandbox-Pod-IP'' of None \<Rightarrow> True | Some p \<Rightarrow> CHR ''%'' \<notin> set p"
  shows "\<exists>ns. ci_get hs ''X-Sandbox-ID'' = Some sid \<and> is_valid_dns_label sid
    \<and> ns = (case ci_get hs ''X-Sandbox-Namespace'' of None \<Rightarrow> ''default'' | Some ns \<Rightarrow> ns) \<and> is_valid_dns_label ns
    \<and> (if str_true (ci_get hs ''X-Sandbox-Pod-IP'')
       then (\<exists>a. ip_address (the (ci_get hs ''X-Sandbox-Pod-IP'')) = Some a \<and> \<not> is_loopback a \<and> \<not> is_link_local a
               \<and> \<not> is_multicast a \<and> \<not> is_unspecified a \<and> url_host url = show_ip a)
       else url_host url = sid @ ''.'' @ ns @ ''.svc.'' @ rc_cluster_domain cfg)"
proof -
  let ?pod = "ci_get hs ''X-Sandbox-Pod-IP''"
  obtain ns n host where r: "ci_get hs ''X-Sandbox-ID'' = Some sid" "is_valid_dns_label sid"
    "ns = (case ci_get hs ''X-Sandbox-Namespace'' of None \<Rightarrow> ''default'' | Some ns \<Rightarrow> ns)" "is_valid_dns_label ns"
    and th: "target_host cfg sid ns ?pod = Inr host"
    and url: "url = scheme @ ''://'' @ host @ '':'' @ show_nat n @ raw_path_with_query u"
    by (rule resolve_target_cases [OF assms(1)])
  note plain = url_host_plain [OF assms(2) _ raw_path_slash] and bracket = url_host_bracket [OF assms(2) _ raw_path_slash]
  have "if str_true ?pod
       then (\<exists>a. ip_address (the ?pod) = Some a \<and> \<not> is_loopback a \<and> \<not> is_link_local a
               \<and> \<not> is_multicast a \<and> \<not> is_unspecified a \<and> url_host url = show_ip a)
       else url_host url = sid @ ''.'' @ ns @ ''.svc.'' @ rc_cluster_domain cfg"
  proof (cases "str_true ?pod")
    case False
    have "list_all uri_host_char (sid @ ''.'' @ ns @ ''.svc.'' @ rc_cluster_domain cfg)"
      using label_host [OF r(2)] label_host [OF r(4)] assms(3) by (simp add: uri_host_char_def)
    moreover have "host = sid @ ''.'' @ ns @ ''.svc.'' @ rc_cluster_domain cfg"
      using th False by (simp add: target_host_def)
    ultimately show ?thesis using False plain [of host] unfolding url by simp
  next
    case True
    then obtain p where p: "?pod = Some p" by (auto simp: str_true_def split: option.splits)
    with th True obtain a where a: "ip_address p = Some a" "\<not> forbidden_target a"
        "host = (if ip_version a = 6 then ''['' @ show_ip a @ '']'' else show_ip a)"
      by (auto simp: target_host_def split: option.splits if_split_asm)
    have "CHR ''%'' \<notin> set p" using assms(4) p by simp
    from no_scope [OF a(1) this] have "url_host url = show_ip a"
    proof
      assume "\<exists>m. a = IPv4 m"
      with a(3) show ?thesis using plain [of host] show_ip4_host unfolding url by (auto simp: show_ip_def)
    next
      assume "\<exists>m. a = IPv6 m None"
      with a(3) show ?thesis using bracket [OF show_ip_chars] unfolding url by auto
    qed
    with a True p show ?thesis by (simp add: forbidden_target_def)
  qed
  with r show ?thesis by blast
qed

definition sim_url :: request_url_parts where
  "sim_url = \<lparr>url_path = ''/run'', url_query = [], scope_path = RawBytes ''/run'', scope_query = RawBytes []\<rparr>"

definition sim_headers :: headers where
  "sim_headers = [(''authorization'', ''Bearer secret''), (''x-sandbox-id'', ''a''), (''x-sandbox-pod-ip'', ''10.0.0.7'')]"

lemma sim_pod_ip: "ip_address ''10.0.0.7'' = Some (IPv4 167772167)" "show_ip (IPv4 167772167) = ''10.0.0.7''"
    "\<not> forbidden_target (IPv4 167772167)"
  by (simp_all add: ip_address_def parse_ip4_def Let_def parse_octet_def is_digit_def digits_val_def digit_val_def
      join_bytes_def show_ip_def show_ip4_def octets_def show_nat.simps digit_char_def char_of_eq_iff
      forbidden_target_def is_loopback_def is_link_local_def is_multicast_def is_unspecified_def by_mapped_def
      loopback4_def link_local4_def multicast4_def unspecified4_def)

lemma sim_parts: "is_valid_dns_label ''a''" "is_valid_dns_label ''default''" "raw_path_with_query sim_url = ''/run''"
  by code_simp+

lemma sim_port: "show_int 8888 = ''8888''"
  by (simp add: show_int_def show_nat.simps digit_char_def char_of_eq_iff)

lemma sim_header_values:
  "ci_get sim_headers ''X-Sandbox-ID'' = Some ''a''" "ci_get sim_headers ''X-Sandbox-Namespace'' = None"
  "ci_get sim_headers ''X-Sandbox-Port'' = None" "ci_get sim_headers ''X-Sandbox-Pod-IP'' = Some ''10.0.0.7''"
  "ci_get sim_headers ''Authorization'' = Some ''Bearer secret''" "ci_get sim_headers ''x-forwarded-for'' = None"
  by code_simp+

lemma sim_resolves: "resolve_target sim_router sim_headers sim_url ''ws'' = Inr (''ws://10.0.0.7:8888/run'', ''a'')"
  by (simp add: resolve_target_def target_host_def sim_header_values sim_parts sim_pod_ip sim_port str_true_def
      DEFAULT_NAMESPACE_def DEFAULT_SANDBOX_PORT_def)

theorem resolve_target_host_witness: "url_host ''ws://10.0.0.7:8888/run'' = ''10.0.0.7''"
proof -
  have "list_all uri_host_char (rc_cluster_domain sim_router)" by (simp add: sim_router_def uri_host_char_def)
  then show ?thesis
    using resolve_target_host [OF sim_resolves] by (simp add: sim_header_values sim_pod_ip str_true_def)
qed

lemma scoped_ip: "ip_address ''2001:db8::1%]@127.0.0.1:80?''
    = Some (IPv6 42540766411282592856903984951653826561 (Some '']@127.0.0.1:80?''))"
proof -
  have s: "py_split CHR '':'' ''2001:db8::1'' = [''2001'', ''db8'', [], ''1'']" by simp
  have e: "expand_tail [''2001'', ''db8'', [], ''1''] = Some [''2001'', ''db8'', [], ''1'']" by (simp add: expand_tail_def)
  have u: "[1..<length [''2001'', ''db8'', [], ''1''] - 1] = [1, 2]" by (simp add: upt_rec)
  have f: "filter (\<lambda>i. [''2001'', ''db8'', [], ''1''] ! i = []) [1, 2] = [2]" by simp
  have h: "those (map parse_hextet [''2001'', ''db8'']) = Some [8193, 3512]" "those (map parse_hextet [''1'']) = Some [1]"
    by (simp_all add: parse_hextet_def is_hex_def is_digit_def hex_val_def)
  have "replicate (8 - 2 - 1) 0 = [0, 0, 0, 0, 0 :: nat]" by code_simp
  then have j: "join_hextets ([8193, 3512] @ replicate (8 - 2 - 1) 0 @ [1]) = 42540766411282592856903984951653826561"
    by (simp add: join_hextets_def)
  have "parse_ip6_int ''2001:db8::1'' = Some 42540766411282592856903984951653826561"
    unfolding parse_ip6_int_def Let_def s option.case e u f list.case using h j by simp
  then show ?thesis
    by (simp add: ip_address_def parse_ip4_def parse_ip6_def parse_octet_def is_digit_def)
qed

lemma show_scoped_ip: "show_ip (IPv6 42540766411282592856903984951653826561 (Some '']@127.0.0.1:80?''))
    = ''2001:db8::1%]@127.0.0.1:80?''"
  by (simp add: show_ip_def ipv4_mapped_def hextets_def upt_rec show_hextets_def show_hex.simps hex_digit_def
      char_of_eq_iff Let_def)

definition scoped_headers :: headers where
  "scoped_headers = [(''x-sandbox-id'', ''a''), (''x-sandbox-pod-ip'', ''2001:db8::1%]@127.0.0.1:80?'')]"

lemma scoped_header_values:
  "ci_get scoped_headers ''X-Sandbox-ID'' = Some ''a''" "ci_get scoped_headers ''X-Sandbox-Namespace'' = None"
  "ci_get scoped_headers ''X-Sandbox-Port'' = None"
  "ci_get scoped_headers ''X-Sandbox-Pod-IP'' = Some ''2001:db8::1%]@127.0.0.1:80?''"
  by code_simp+


lemma sim_authenticates: "check_router_auth sim_router sim_headers = Inr ()"
proof -
  have "py_words ''Bearer secret'' = [''Bearer'', ''secret'']" "py_lower ''Bearer'' = ''bearer''" by code_simp+
  then show ?thesis
    by (simp add: check_router_auth_def sim_header_values str_true_def sim_router_def compare_digest_def)
qed

lemma sim_admits:
  "\<exists>fwd subs. ws_admit sim_router (Some ''10.9.9.9'') sim_headers sim_url (new_tracker sim_router)
     = (WsOpen ''10.9.9.9'' ''ws://10.0.0.7:8888/run'' fwd subs, \<lparr>tr_max = 64, tr_counts = [(''10.9.9.9'', 1)]\<rparr>)"
proof -
  have "client_connection_key (Some ''10.9.9.9'') sim_headers trusted = ''10.9.9.9''" for trusted
    by (simp add: client_connection_key_def sim_header_values str_true_def)
  moreover have "acquire ''10.9.9.9'' (new_tracker sim_router) = (Inr (), \<lparr>tr_max = 64, tr_counts = [(''10.9.9.9'', 1)]\<rparr>)"
    by (simp add: acquire_def new_tracker_def sim_router_def count_of_def)
  ultimately show ?thesis by (simp add: ws_admit_def Let_def sim_authenticates sim_resolves)
qed

theorem ws_connections_bounded_witness:
  "count_of \<lparr>tr_max = 64, tr_counts = [(''10.9.9.9'', 1)]\<rparr> ''10.9.9.9'' = int (count (mset [''10.9.9.9'']) ''10.9.9.9'')"
proof -
  obtain fwd subs where "ws_admit sim_router (Some ''10.9.9.9'') sim_headers sim_url (new_tracker sim_router)
     = (WsOpen ''10.9.9.9'' ''ws://10.0.0.7:8888/run'' fwd subs, \<lparr>tr_max = 64, tr_counts = [(''10.9.9.9'', 1)]\<rparr>)"
    using sim_admits by blast
  then have "(ws_step sim_router)\<^sup>*\<^sup>* (new_tracker sim_router, []) (\<lparr>tr_max = 64, tr_counts = [(''10.9.9.9'', 1)]\<rparr>, [''10.9.9.9''])"
    by (intro r_into_rtranclp ws_step.opened)
  moreover have "0 < rc_max_connections sim_router" by (simp add: sim_router_def)
  ultimately show ?thesis using ws_connections_bounded by blast
qed

section \<open>Headers and clients\<close>

lemma dict_of_pairs_snoc: "dict_of_pairs (kvs @ [(k, v)]) = dict_set k v (dict_of_pairs kvs)"
  by (simp add: dict_of_pairs_def)

lemma dict_of_pairs_get: "dict_get (dict_of_pairs kvs) k = map_of (rev kvs) k"
proof (induction kvs rule: rev_induct)
  case (snoc e kvs)
  then show ?case by (cases e) (simp add: dict_of_pairs_snoc)
qed (simp add: dict_of_pairs_def)

lemma map_of_rev_filter:
  "map_of (rev (filter (\<lambda>(k, v). \<not> P k) kvs)) k = (if P k then None else map_of (rev kvs) k)"
  by (induction kvs rule: rev_induct) auto

text \<open>(C29) What a sandbox sees of a request: every header the client sent, except the credentials for the
  router, the routing headers, the host, the hop-by-hop headers (also those a Connection header names)
  and, for a WebSocket, the handshake; the last value of a repeated header counts.\<close>

theorem proxied_headers:
  "dict_get (proxy_headers hs websocket) name =
     (if py_lower name \<in> {''authorization'', ''host'', ''x-sandbox-id'', ''x-sandbox-namespace'', ''x-sandbox-port'',
           ''x-sandbox-pod-ip'', ''x-sandbox-timeout''}
         \<or> py_lower name \<in> set HOP_BY_HOP_HEADERS
         \<or> (\<exists>c. ci_get hs ''connection'' = Some c \<and> py_lower name \<noteq> []
                \<and> py_lower name \<in> (\<lambda>t. py_lower (py_strip t)) ` set (py_split CHR '','' c))
         \<or> (websocket \<and> py_lower name \<in> set WEBSOCKET_HANDSHAKE_HEADERS)
      then None else map_of (rev hs) name)"
proof -
  define n where "n = py_lower name"
  let ?excluded = "ROUTER_HEADER_NAMES @ hop_by_hop_header_names hs @ [''host'', ''authorization'']
                     @ (if websocket then WEBSOCKET_HANDSHAKE_HEADERS else [])"
  have r: "set ROUTER_HEADER_NAMES \<union> {''host'', ''authorization''} =
      {''authorization'', ''host'', ''x-sandbox-id'', ''x-sandbox-namespace'', ''x-sandbox-port'',
       ''x-sandbox-pod-ip'', ''x-sandbox-timeout''}"
    unfolding ROUTER_HEADER_NAMES_def list.set by (simp only: Un_insert_left Un_empty_left insert_commute)
  have h: "n \<in> set (hop_by_hop_header_names hs) \<longleftrightarrow> n \<in> set HOP_BY_HOP_HEADERS
      \<or> (\<exists>c. ci_get hs ''connection'' = Some c \<and> n \<noteq> [] \<and> n \<in> (\<lambda>t. py_lower (py_strip t)) ` set (py_split CHR '','' c))"
    by (cases "ci_get hs ''connection''") (auto simp: hop_by_hop_header_names_def)
  have e: "n \<in> set ?excluded
      \<longleftrightarrow> n \<in> set ROUTER_HEADER_NAMES \<union> {''host'', ''authorization''} \<or> n \<in> set (hop_by_hop_header_names hs)
         \<or> (websocket \<and> n \<in> set WEBSOCKET_HANDSHAKE_HEADERS)"
    unfolding set_append list.set by (cases websocket) (simp_all only: if_True if_False list.set, blast+)
  have "dict_get (proxy_headers hs websocket) name = (if n \<in> set ?excluded then None else map_of (rev hs) name)"
    unfolding proxy_headers_def Let_def dict_of_pairs_get map_of_rev_filter n_def ..
  then show ?thesis unfolding e r h disj_assoc unfolding n_def .
qed

text \<open>(C31) A client cannot choose the key its connections are counted under: unless the TCP peer is a trusted
  proxy, the key is the peer's address whatever headers are sent; and behind a trusted proxy it is the
  last hop of X-Forwarded-For that is not itself a trusted proxy, so that the entries a client puts in
  front are ignored.\<close>

theorem client_key_not_spoofed:
  "(\<not> is_trusted_proxy peer trusted \<longrightarrow>
      client_connection_key peer hs trusted = (case peer of None \<Rightarrow> ''unknown'' | Some p \<Rightarrow> if p = [] then ''unknown'' else p))
   \<and> (is_trusted_proxy peer trusted \<and> ci_get hs ''x-forwarded-for'' = Some f
      \<and> filter (\<lambda>h. h \<noteq> []) (map py_strip (py_split CHR '','' f)) = claimed @ [ip] @ proxies
      \<and> \<not> is_trusted_address ip trusted \<and> list_all (\<lambda>h. is_trusted_address h trusted) proxies
      \<longrightarrow> client_connection_key peer hs trusted = ip)"
proof -
  have "client_connection_key peer hs trusted = ip"
    if a: "is_trusted_proxy peer trusted" "ci_get hs ''x-forwarded-for'' = Some f"
      "filter (\<lambda>h. h \<noteq> []) (map py_strip (py_split CHR '','' f)) = claimed @ [ip] @ proxies"
      "\<not> is_trusted_address ip trusted" "list_all (\<lambda>h. is_trusted_address h trusted) proxies"
  proof -
    have "ip \<in> set (filter (\<lambda>h. h \<noteq> []) (map py_strip (py_split CHR '','' f)))" unfolding a(3) by simp
    then have ip: "ip \<noteq> []" by simp
    have f: "f \<noteq> []" using a(3) by (auto simp: py_strip_def)
    have "find (\<lambda>h. \<not> is_trusted_address h trusted) (rev (claimed @ [ip] @ proxies)) = Some ip"
      using a(4,5) by (induction proxies rule: rev_induct) auto
    then have "client_ip_from_forwarded_for f trusted = Some ip"
      unfolding client_ip_from_forwarded_for_def Let_def a(3) by simp
    with a(1,2) ip f show ?thesis by (simp add: client_connection_key_def str_true_def)
  qed
  then show ?thesis by (simp add: client_connection_key_def)
qed

theorem client_key_not_spoofed_witness:
  "client_connection_key (Some ''10.9.9.9'') [(''x-forwarded-for'', ''1.1.1.1'')] [] = ''10.9.9.9''"
  using client_key_not_spoofed [of "Some ''10.9.9.9''" "[]" "[(''x-forwarded-for'', ''1.1.1.1'')]"]
  by (simp add: is_trusted_proxy_def is_trusted_address_def)

end
