(* ===== verification/Py_Float.thy ===== *)
theory Py_Float
  imports Py_Prelude "HOL-Library.Log_Nat"
begin

text \<open>
  Python's floats, and the built-ins \<^verbatim>\<open>round\<close>, \<^verbatim>\<open>int\<close>, \<^verbatim>\<open>max\<close>, \<^verbatim>\<open>min\<close> and slicing that the fleet planner uses.

  A finite float is a rational number; every operation is the exact one followed by \<open>fl\<close>, which
  rounds to the nearest number with 53 significant bits, ties to even, as IEEE 754 doubles do. The
  exponent is not bounded: overflow to infinity and subnormal numbers are outside the model.
\<close>

section \<open>Rounding\<close>

definition round_even :: "rat \<Rightarrow> int" where
  "round_even x =
     (let f = \<lfloor>x\<rfloor>; d = x - of_int f in
      if d < 1 / 2 then f else if d > 1 / 2 then f + 1 else if even f then f else f + 1)"

definition pow2 :: "int \<Rightarrow> rat" where
  "pow2 k = (if 0 \<le> k then 2 ^ nat k else 1 / 2 ^ nat (- k))"

text \<open>The exponent of a positive number, from the lengths of numerator and denominator.\<close>

definition expo :: "rat \<Rightarrow> int" where
  "expo x = (case quotient_of x of (p, q) \<Rightarrow>
     let k = bitlen p - bitlen q in if pow2 k \<le> x then k else k - 1)"

definition fl :: "rat \<Rightarrow> rat" where
  "fl x = (if x = 0 then 0 else let s = pow2 (expo \<bar>x\<bar> - 52) in of_int (round_even (x / s)) * s)"

definition trunc_int :: "rat \<Rightarrow> int" where
  "trunc_int x = (if x < 0 then - \<lfloor>- x\<rfloor> else \<lfloor>x\<rfloor>)"

text \<open>\<^verbatim>\<open>xs[:n]\<close>, also for a negative \<open>n\<close>.\<close>

definition py_take :: "int \<Rightarrow> 'a list \<Rightarrow> 'a list" where
  "py_take n xs = (if 0 \<le> n then take (nat n) xs else take (length xs - nat (- n)) xs)"

text \<open>\<^verbatim>\<open>max\<close> and \<^verbatim>\<open>min\<close> with a key return the first best element; the list is not empty.\<close>

definition max_by :: "('a \<Rightarrow> 'b :: linorder) \<Rightarrow> 'a list \<Rightarrow> 'a" where
  "max_by f xs = foldl (\<lambda>b y. if f b < f y then y else b) (hd xs) (tl xs)"

definition min_by :: "('a \<Rightarrow> 'a \<Rightarrow> bool) \<Rightarrow> 'a list \<Rightarrow> 'a" where
  "min_by lt xs = foldl (\<lambda>b y. if lt y b then y else b) (hd xs) (tl xs)"

section \<open>Lemmas: rounding\<close>

lemma round_even_near: "\<bar>of_int (round_even x) - x\<bar> \<le> 1 / 2"
proof -
  have "of_int \<lfloor>x\<rfloor> \<le> x" "x < of_int \<lfloor>x\<rfloor> + 1" by linarith+
  then show ?thesis by (auto simp: round_even_def Let_def)
qed

lemma round_even_int [simp]: "round_even (of_int n) = n"
  by (simp add: round_even_def)

lemma pow2_pos [simp]: "0 < pow2 k"
  by (simp add: pow2_def)

lemma pow2_powi: "pow2 k = 2 powi k"
  by (simp add: pow2_def power_int_def inverse_eq_divide power_one_over)

lemma pow2_add: "pow2 (a + b) = pow2 a * pow2 b"
  by (simp add: pow2_powi power_int_add)

lemma expo_bounds: "0 < x \<Longrightarrow> pow2 (expo x) \<le> x \<and> x < pow2 (expo x + 1)"
proof -
  assume x: "0 < x"
  obtain p q where pq: "quotient_of x = (p, q)" by (cases "quotient_of x")
  have q: "0 < q" using pq by (rule quotient_of_denom_pos)
  have xe: "x = of_int p / of_int q" using pq by (rule quotient_of_div)
  with x q have p: "0 < p" by (simp add: zero_less_divide_iff)
  have b: "pow2 (bitlen n - 1) \<le> of_int n \<and> of_int n < pow2 (bitlen n)" if "0 < n" for n
  proof -
    have n: "2 ^ nat (bitlen n - 1) \<le> n" "n < 2 ^ nat (bitlen n)" using bitlen_bounds [OF that] by auto
    have "0 < bitlen n"
    proof (rule ccontr)
      assume "\<not> 0 < bitlen n"
      then have "nat (bitlen n) = 0" by simp
      with n(2) that show False by simp
    qed
    moreover have "(of_int (2 ^ nat (bitlen n - 1)) :: rat) \<le> of_int n" "(of_int n :: rat) < of_int (2 ^ nat (bitlen n))"
      using n by (simp_all only: of_int_le_iff of_int_less_iff)
    ultimately show ?thesis unfolding pow2_def by (simp add: of_int_power)
  qed
  let ?k = "bitlen p - bitlen q"
  have "x < pow2 (bitlen p) / pow2 (bitlen q - 1)"
    unfolding xe by (rule frac_less) (use b [OF p] b [OF q] p in simp_all)
  also have "\<dots> = pow2 (?k + 1)" by (simp add: pow2_powi algebra_simps flip: power_int_diff)
  finally have hi: "x < pow2 (?k + 1)" .
  have "pow2 (?k - 1) = pow2 (bitlen p - 1) / pow2 (bitlen q)" by (simp add: pow2_powi algebra_simps flip: power_int_diff)
  also have "\<dots> \<le> x"
    unfolding xe by (rule frac_le) (use b [OF p] b [OF q] p q in simp_all)
  finally have lo: "pow2 (?k - 1) \<le> x" .
  show ?thesis using hi lo by (auto simp: expo_def pq Let_def)
qed

lemma fl_near: "\<bar>fl x - x\<bar> \<le> \<bar>x\<bar> / 2 ^ 53"
proof (cases "x = 0")
  case False
  let ?s = "pow2 (expo \<bar>x\<bar> - 52)"
  have "fl x - x = (of_int (round_even (x / ?s)) - x / ?s) * ?s"
    using False by (simp add: fl_def Let_def left_diff_distrib less_imp_neq [OF pow2_pos, symmetric])
  then have "\<bar>fl x - x\<bar> = \<bar>of_int (round_even (x / ?s)) - x / ?s\<bar> * ?s"
    by (simp add: abs_mult less_imp_le)
  also have "\<dots> \<le> 1 / 2 * ?s"
    by (rule mult_right_mono [OF round_even_near]) (simp add: less_imp_le)
  also have "\<dots> = pow2 (expo \<bar>x\<bar>) / 2 ^ 53"
    by (simp add: pow2_powi power_int_diff)
  also have "\<dots> \<le> \<bar>x\<bar> / 2 ^ 53"
    using expo_bounds [of "\<bar>x\<bar>"] False by (intro divide_right_mono) simp_all
  finally show ?thesis .
qed (simp add: fl_def)

text \<open>Integers of up to 53 bits are floats.\<close>

lemma fl_int: "\<bar>n\<bar> \<le> 2 ^ 53 \<Longrightarrow> fl (of_int n) = of_int n"
proof (cases "n = 0")
  case False
  assume n: "\<bar>n\<bar> \<le> 2 ^ 53"
  let ?e = "expo \<bar>of_int n\<bar>"
  have b: "pow2 ?e \<le> of_int \<bar>n\<bar>" using expo_bounds [of "\<bar>of_int n\<bar>"] False by simp
  also have "\<dots> \<le> pow2 53"
    using n by (simp add: pow2_def of_int_le_iff [symmetric] del: of_int_le_iff)
  finally have le: "pow2 ?e \<le> pow2 53" .
  have e: "?e \<le> 53" using le power_int_strict_increasing [of 53 ?e "2 :: rat"] by (force simp: pow2_powi)
  have "\<exists>m. of_int n = of_int m * pow2 (?e - 52)"
  proof (cases "?e = 53")
    case True
    with b n have "\<bar>n\<bar> = 2 ^ 53" by (simp add: pow2_def)
    then have "n = 2 ^ 53 \<or> n = - (2 ^ 53)" by linarith
    then have "of_int n = of_int (n div 2) * (2 :: rat)" by auto
    with True show ?thesis by (auto simp: pow2_def)
  next
    case False
    then have "of_int n = of_int (n * 2 ^ nat (52 - ?e)) * pow2 (?e - 52)"
      using e by (auto simp: pow2_def)
    then show ?thesis ..
  qed
  then obtain m s where s: "s = pow2 (?e - 52)" and m: "of_int n = of_int m * s" by blast
  have "s \<noteq> 0" unfolding s using pow2_pos by (rule less_imp_neq [symmetric])
  then have "of_int m * s / s = of_int m" by simp
  moreover have "fl (of_int n) = of_int (round_even (of_int n / s)) * s"
    using False by (simp add: fl_def Let_def s)
  ultimately show ?thesis unfolding m by simp
qed (simp add: fl_def)

lemma rel_bounds: "\<bar>a - x\<bar> \<le> x / c \<Longrightarrow> x * (1 - 1 / c) \<le> a \<and> a \<le> x * (1 + 1 / c)" for x :: rat
proof -
  assume "\<bar>a - x\<bar> \<le> x / c"
  then have "a - x \<le> x / c" "- (a - x) \<le> x / c" unfolding abs_le_iff [of "a - x"] by auto
  then show ?thesis unfolding distrib_left right_diff_distrib times_divide_eq_right mult_1_right by linarith
qed

section \<open>What the clients use of rounding\<close>

locale rounding =
  fixes rnd :: "rat \<Rightarrow> rat"
  assumes rnd_near: "\<bar>rnd x - x\<bar> \<le> \<bar>x\<bar> / 2 ^ 53"
    and rnd_int: "\<bar>n\<bar> \<le> 2 ^ 53 \<Longrightarrow> rnd (of_int n) = of_int n"
begin

lemma rnd_0 [simp]: "rnd 0 = 0"
  using rnd_near [of 0] by simp

lemma rnd_bounds: "0 \<le> x \<Longrightarrow> x * (1 - 1 / 2 ^ 53) \<le> rnd x \<and> rnd x \<le> x * (1 + 1 / 2 ^ 53)"
  using rnd_near [of x] by (intro rel_bounds) simp

lemma rnd_nonneg: "0 \<le> x \<Longrightarrow> 0 \<le> rnd x"
  using rnd_bounds [of x] mult_nonneg_nonneg [of x "1 - 1 / 2 ^ 53"] by simp

lemma rnd_pos: "0 < x \<Longrightarrow> 0 < rnd x"
  using rnd_bounds [of x] mult_pos_pos [of x "1 - 1 / 2 ^ 53"] by simp

end

interpretation dbl: rounding fl
  by unfold_locales (rule fl_near, rule fl_int)

section \<open>Lemmas: best elements\<close>

lemma foldl_best:
  assumes "\<And>x y z. le x y \<Longrightarrow> le y z \<Longrightarrow> le x z" and "\<And>x y. le x y \<or> le y x"
    and "\<And>b y. le (pick b y) b \<and> le (pick b y) y \<and> pick b y \<in> {b, y}"
  shows "foldl pick b xs \<in> insert b (set xs) \<and> (\<forall>x \<in> insert b (set xs). le (foldl pick b xs) x)"
proof (induction xs arbitrary: b)
  case Nil
  then show ?case using assms(2) by auto
next
  case (Cons x xs)
  from Cons [of "pick b x"] assms(3) [of b x] show ?case
    by (auto intro: assms(1) [of _ "pick b x"])
qed

lemma max_by_max: "xs \<noteq> [] \<Longrightarrow> max_by f xs \<in> set xs \<and> (\<forall>x \<in> set xs. f x \<le> f (max_by f xs))"
proof -
  assume "xs \<noteq> []"
  then have s: "set xs = insert (hd xs) (set (tl xs))" by (cases xs) auto
  show ?thesis
    unfolding s max_by_def by (rule foldl_best [where le = "\<lambda>a b. f b \<le> f a"]) auto
qed

lemma min_by_in: "xs \<noteq> [] \<Longrightarrow> min_by lt xs \<in> set xs"
proof -
  have "foldl (\<lambda>b y. if lt y b then y else b) b ys \<in> insert b (set ys)" for b ys
    by (induction ys arbitrary: b) auto
  then show "xs \<noteq> [] \<Longrightarrow> ?thesis" by (cases xs) (auto simp: min_by_def)
qed

end
