(* ===== verification/Fleet_Budget.thy ===== *)
theory Fleet_Budget
  imports Sdk_Errors Py_Float "HOL-Library.Multiset"
begin

text \<open>
  Dividing a concurrency budget over clusters and sizing their pools: \<^verbatim>\<open>budget.py\<close> and \<^verbatim>\<open>sizing.py\<close> of
  \<^verbatim>\<open>src/examples/multi-cluster-fleet/python/agent_sandbox_fleet\<close>. The built-in \<^verbatim>\<open>sum\<close> adds floats from left to
  right up to Python 3.11 and with compensation from 3.12 on; it is an argument, and the theorems
  hold for every summation that is accurate enough (\<open>sum_accurate\<close>).
\<close>

section \<open>\<^verbatim>\<open>hamilton_split\<close>\<close>

definition weight_ok :: "float_value \<Rightarrow> bool" where
  "weight_ok w = (case w of Finite r \<Rightarrow> 0 \<le> r | _ \<Rightarrow> False)"

definition finite_val :: "float_value \<Rightarrow> rat" where
  "finite_val w = (case w of Finite r \<Rightarrow> r | _ \<Rightarrow> 0)"

text \<open>The share of one key, and the part of it that rounding down leaves over.\<close>

definition ideal_share :: "int \<Rightarrow> rat \<Rightarrow> rat \<Rightarrow> rat" where
  "ideal_share tot tw w = fl (fl (of_int tot) * fl (w / tw))"

definition leftover :: "rat \<Rightarrow> rat" where
  "leftover v = fl (v - fl (of_int \<lfloor>v\<rfloor>))"

definition largest_remainder :: "int \<Rightarrow> rat \<Rightarrow> (string \<times> rat) list \<Rightarrow> (string, int) dict" where
  "largest_remainder tot tw ws =
     (let ideal = map (\<lambda>(k, w). (k, ideal_share tot tw w)) ws;
          alloc = map (\<lambda>(k, v). (k, \<lfloor>v\<rfloor>)) ideal;
          remainder = tot - sum_list (map snd alloc);
          top = py_take remainder (sort_key (\<lambda>k. - leftover (the (dict_get ideal k))) (map fst ws)) in
      foldl (\<lambda>a k. dict_set k (the (dict_get a k) + 1) a) alloc top)"

definition hamilton_split :: "(rat list \<Rightarrow> rat) \<Rightarrow> int \<Rightarrow> (string, float_value) dict \<Rightarrow> (string, int) dict res" where
  "hamilton_split fsum tot weights =
     (if weights = [] then Inr []
      else if \<not> list_all (weight_ok \<circ> snd) weights then Inl ValueError
      else if length weights = 1 then Inr [(fst (hd weights), tot)]
      else let ws = map (\<lambda>(k, w). (k, finite_val w)) weights; tw = fsum (map snd ws) in
        if tw = 0
        then let ones = map (\<lambda>(k, w). (k, 1)) ws in Inr (largest_remainder tot (fsum (map snd ones)) ones)
        else Inr (largest_remainder tot tw ws))"

section \<open>\<^verbatim>\<open>compute_replicas\<close>\<close>

definition compute_replicas :: "int \<Rightarrow> int \<Rightarrow> int \<Rightarrow> int \<Rightarrow> int \<Rightarrow> bool \<Rightarrow> int" where
  "compute_replicas tasks_image tasks_total max_concurrent max_pool buffer per_task =
     (if tasks_image \<le> 0 then 0
      else if per_task then min tasks_image max_pool
      else let n = (if tasks_total \<le> 0 then tasks_image else tasks_total);
               share = fl (of_int (max_concurrent * tasks_image) / of_int n);
               replicas = max 1 (round_even share) + max 0 buffer in
        min (min replicas tasks_image) max_pool)"

section \<open>The split is exact\<close>

definition sum_accurate :: "(rat list \<Rightarrow> rat) \<Rightarrow> rat list \<Rightarrow> bool" where
  "sum_accurate fsum ws \<longleftrightarrow> \<bar>fsum ws - sum_list ws\<bar> \<le> sum_list ws / 2 ^ 43"

text \<open>Adding one to some entries of a dict.\<close>

lemma sum_dict_set:
  "dict_get d k = Some n \<Longrightarrow> sum_list (map snd (dict_set k m d)) = sum_list (map snd d) - n + (m :: int)"
  by (induction d) auto

lemma foldl_bump:
  assumes "distinct ks" and "set ks \<subseteq> set (map fst d)"
  shows "map fst (foldl (\<lambda>a k. dict_set k (the (dict_get a k) + 1) a) d ks) = map fst d
    \<and> dict_get (foldl (\<lambda>a k. dict_set k (the (dict_get a k) + (1::int)) a) d ks) j
         = map_option (\<lambda>n. if j \<in> set ks then n + 1 else n) (dict_get d j)
    \<and> sum_list (map snd (foldl (\<lambda>a k. dict_set k (the (dict_get a k) + 1) a) d ks)) = sum_list (map snd d) + int (length ks)"
  using assms
proof (induction ks arbitrary: d)
  case Nil
  then show ?case by (simp add: option.map_ident)
next
  case (Cons k ks)
  let ?d = "dict_set k (the (dict_get d k) + 1) d"
  have keys: "map fst (dict_set k m d) = map fst d" for m using Cons.prems by (simp add: update_keys)
  have "dict_get d k \<noteq> None" using Cons.prems(2) by (simp add: map_of_eq_None_iff)
  then obtain n where n: "dict_get d k = Some n" by blast
  have "set ks \<subseteq> set (map fst ?d)" using Cons.prems by (simp add: keys)
  from Cons.IH [OF _ this] Cons.prems(1) n show ?case
    by (auto simp: keys sum_dict_set split: option.splits)
qed

text \<open>A share is within a quarter of the exact one, in proportion.\<close>

lemma ideal_share_near:
  assumes "0 \<le> tot" and "tot \<le> 2 ^ 40" and "0 \<le> w" and "0 < W" and "\<bar>tw - W\<bar> \<le> W / 2 ^ 43"
  shows "\<bar>ideal_share tot tw w - of_int tot * (w / W)\<bar> \<le> w / W / 4"
proof -
  let ?t = "of_int tot :: rat" and ?u = "1 / 2 ^ 53 :: rat" and ?d = "1 / 2 ^ 43 :: rat"
  have tw: "W * (1 - ?d) \<le> tw" "tw \<le> W * (1 + ?d)" using rel_bounds [OF assms(5)] by auto
  have pos: "0 < tw" using tw(1) assms(4) mult_pos_pos [of W "1 - ?d"] by simp
  define x where "x = w / tw"
  have x: "0 \<le> x" using assms(3) pos by (simp add: x_def)
  have "?t \<le> of_int (2 ^ 40)" using assms(2) by (simp only: of_int_le_iff)
  with assms(1) have t: "0 \<le> ?t" "?t \<le> 2 ^ 40" by simp_all
  have ft: "fl ?t = ?t" by (rule fl_int) (use assms(1,2) in simp)
  have f: "x * (1 - ?u) \<le> fl x" "fl x \<le> x * (1 + ?u)" using dbl.rnd_bounds [OF x] by auto
  have nn: "0 \<le> ?t * fl x" using t(1) dbl.rnd_nonneg [OF x] by simp
  have g: "?t * fl x * (1 - ?u) \<le> ideal_share tot tw w" "ideal_share tot tw w \<le> ?t * fl x * (1 + ?u)"
    using dbl.rnd_bounds [OF nn] by (auto simp: ideal_share_def ft x_def)
  have x2: "x \<le> w / W * (1 / (1 - ?d))" "w / W * (1 / (1 + ?d)) \<le> x"
    unfolding x_def times_divide_times_eq mult_1_right
    by (rule divide_left_mono [OF tw(1) assms(3)], use assms(4) pos in simp)
       (rule divide_left_mono [OF tw(2) assms(3)], use assms(4) pos in simp)
  have wW: "0 \<le> w / W" using assms(3,4) by simp
  have tY: "0 \<le> ?t * (w / W)" by (rule mult_nonneg_nonneg [OF t(1) wW])
  have "ideal_share tot tw w \<le> ?t * (w / W * (1 / (1 - ?d)) * (1 + ?u)) * (1 + ?u)"
    by (rule order_trans [OF g(2)]) (intro mult_right_mono mult_left_mono order_trans [OF f(2)] x2 t, simp_all)
  also have "\<dots> = ?t * (w / W) * (1 / (1 - ?d) * (1 + ?u) * (1 + ?u))" by (simp only: ac_simps)
  also have "\<dots> \<le> ?t * (w / W) * (1 + 1 / 2 ^ 42)"
    by (rule mult_left_mono [OF _ tY]) simp
  finally have hi: "ideal_share tot tw w \<le> ?t * (w / W) + ?t * (w / W) * (1 / 2 ^ 42)" by (simp only: distrib_left mult_1_right)
  have "?t * (w / W) * (1 - 1 / 2 ^ 42) \<le> ?t * (w / W) * (1 / (1 + ?d) * (1 - ?u) * (1 - ?u))"
    by (rule mult_left_mono [OF _ tY]) simp
  also have "\<dots> = ?t * (w / W * (1 / (1 + ?d)) * (1 - ?u)) * (1 - ?u)" by (simp only: ac_simps)
  also have "\<dots> \<le> ideal_share tot tw w"
    by (rule order_trans [OF _ g(1)]) (intro mult_right_mono mult_left_mono order_trans [OF _ f(1)] x2 t, simp_all)
  finally have lo: "?t * (w / W) - ?t * (w / W) * (1 / 2 ^ 42) \<le> ideal_share tot tw w"
    by (simp only: right_diff_distrib mult_1_right)
  have "?t * (w / W) * (1 / 2 ^ 42) \<le> 2 ^ 40 * (w / W) * (1 / 2 ^ 42)"
    by (intro mult_right_mono t wW) simp
  also have "\<dots> = w / W / 4" by simp
  finally show ?thesis using hi lo by (simp only: abs_le_iff) linarith
qed

lemma sum_list_near:
  "(\<And>x. x \<in> set xs \<Longrightarrow> \<bar>f x - g x\<bar> \<le> h x) \<Longrightarrow> \<bar>(\<Sum>x\<leftarrow>xs. f x) - (\<Sum>x\<leftarrow>xs. g x)\<bar> \<le> (\<Sum>x\<leftarrow>xs. h x)"
  for f g h :: "'a \<Rightarrow> rat"
proof (induction xs)
  case (Cons x xs)
  have "\<bar>f x - g x\<bar> \<le> h x" by (rule Cons.prems) simp
  moreover have "\<bar>(\<Sum>x\<leftarrow>xs. f x) - (\<Sum>x\<leftarrow>xs. g x)\<bar> \<le> (\<Sum>x\<leftarrow>xs. h x)" by (rule Cons.IH) (simp add: Cons.prems)
  ultimately show ?case by simp
qed simp

lemma sum_floor:
  "of_int (\<Sum>x\<leftarrow>xs. \<lfloor>f x\<rfloor>) \<le> (\<Sum>x\<leftarrow>xs. f x)
   \<and> (\<Sum>x\<leftarrow>xs. f x) - of_int (\<Sum>x\<leftarrow>xs. \<lfloor>f x\<rfloor>) \<le> of_nat (length (filter (\<lambda>x. f x \<noteq> of_int \<lfloor>f x\<rfloor>) xs))"
  for f :: "'a \<Rightarrow> rat"
proof (induction xs)
  case (Cons x xs)
  show ?case
  proof (cases "f x = of_int \<lfloor>f x\<rfloor>")
    case True
    with Cons show ?thesis by simp
  next
    case False
    have "f x - of_int \<lfloor>f x\<rfloor> \<le> 1" "of_int \<lfloor>f x\<rfloor> \<le> f x" by linarith+
    then show ?thesis using Cons False
      unfolding list.map sum_list.Cons of_int_add filter.simps if_P [OF False] list.size of_nat_Suc by linarith
  qed
qed simp

lemma leftover_pos:
  assumes "0 \<le> v" and "v \<le> 2 ^ 53"
  shows "0 \<le> leftover v \<and> (0 < leftover v \<longleftrightarrow> v \<noteq> of_int \<lfloor>v\<rfloor>)"
proof -
  have "0 \<le> \<lfloor>v\<rfloor>" "\<lfloor>v\<rfloor> \<le> 2 ^ 53" using assms by (simp_all add: floor_le_iff)
  then have "leftover v = fl (v - of_int \<lfloor>v\<rfloor>)" by (simp add: leftover_def fl_int)
  moreover have "0 \<le> v - of_int \<lfloor>v\<rfloor>" by simp
  ultimately show ?thesis
    using dbl.rnd_nonneg [of "v - of_int \<lfloor>v\<rfloor>"] dbl.rnd_pos [of "v - of_int \<lfloor>v\<rfloor>"]
    by (cases "v = of_int \<lfloor>v\<rfloor>") (auto simp: less_le)
qed

text \<open>In a list sorted by decreasing key the elements with a positive key come first.\<close>

lemma take_sorted_pos:
  fixes f :: "'a \<Rightarrow> rat"
  assumes "sorted (map (\<lambda>x. - f x) xs)" and "n \<le> length (filter (\<lambda>x. 0 < f x) xs)"
  shows "\<forall>x \<in> set (take n xs). 0 < f x"
  using assms
proof (induction xs arbitrary: n)
  case (Cons x xs)
  show ?case
  proof (cases "0 < f x")
    case True
    show ?thesis
    proof (cases n)
      case (Suc m)
      have "\<forall>y \<in> set (take m xs). 0 < f y"
        by (rule Cons.IH) (use Cons.prems Suc True in simp_all)
      with Suc True show ?thesis by simp
    qed simp
  next
    case False
    from Cons.prems(1) have "\<forall>y \<in> set xs. f y \<le> f x" by simp
    with False have "\<forall>y \<in> set (x # xs). \<not> 0 < f y" by (simp add: not_less) (meson order_trans)
    then have "filter (\<lambda>x. 0 < f x) (x # xs) = []" by (simp only: filter_empty_conv)
    with Cons.prems(2) have "n = 0" by (metis le_zero_eq list.size(3))
    then show ?thesis by simp
  qed
qed simp

text \<open>The hypotheses the lemmas on one split share.\<close>

definition split_input :: "int \<Rightarrow> rat \<Rightarrow> (string \<times> rat) list \<Rightarrow> bool" where
  "split_input tot tw ws \<longleftrightarrow> 0 \<le> tot \<and> tot \<le> 2 ^ 40 \<and> dict_ok ws \<and> (\<forall>w \<in> snd ` set ws. 0 \<le> w)
     \<and> 0 < sum_list (map snd ws) \<and> \<bar>tw - sum_list (map snd ws)\<bar> \<le> sum_list (map snd ws) / 2 ^ 43"

lemma share_near:
  assumes "split_input tot tw ws" and "(k, w) \<in> set ws"
  shows "\<bar>ideal_share tot tw w - of_int tot * (w / sum_list (map snd ws))\<bar> \<le> 1 / 4 * (w / sum_list (map snd ws))"
    and "0 \<le> ideal_share tot tw w" and "ideal_share tot tw w \<le> 2 ^ 53"
proof -
  let ?W = "sum_list (map snd ws)"
  have i: "0 \<le> tot" "tot \<le> 2 ^ 40" "0 \<le> w" "0 < ?W" "\<bar>tw - ?W\<bar> \<le> ?W / 2 ^ 43"
    using assms by (auto simp: split_input_def)
  show near: "\<bar>ideal_share tot tw w - of_int tot * (w / ?W)\<bar> \<le> 1 / 4 * (w / ?W)"
    using ideal_share_near [OF i] by (simp only: times_divide_eq_left mult_1 divide_divide_eq_left ac_simps)
  have "w \<in> set (map snd ws)" using assms(2) by force
  then have "w \<le> ?W" using assms(1) by (intro member_le_sum_list) (auto simp: split_input_def)
  then have w: "w / ?W \<le> 1" "0 \<le> w / ?W" using i by simp_all
  have "0 < tw" using rel_bounds [OF i(5)] i(4) mult_pos_pos [of ?W "1 - 1 / 2 ^ 43"] by simp
  then have "0 \<le> w / tw" using i(3) by simp
  then show "0 \<le> ideal_share tot tw w"
    unfolding ideal_share_def using i(1) by (intro dbl.rnd_nonneg mult_nonneg_nonneg) simp_all
  have "(of_int tot :: rat) \<le> of_int (2 ^ 40)" using i(2) by (simp only: of_int_le_iff)
  then have "of_int tot * (w / ?W) \<le> 2 ^ 40 * 1" using w i(1) by (intro mult_mono) simp_all
  moreover have "ideal_share tot tw w - of_int tot * (w / ?W) \<le> 1 / 4 * (w / ?W)" using near by linarith
  ultimately show "ideal_share tot tw w \<le> 2 ^ 53" using w by simp
qed

lemma shares_sum:
  assumes "split_input tot tw ws"
  shows "\<bar>(\<Sum>x\<leftarrow>ws. ideal_share tot tw (snd x)) - of_int tot\<bar> \<le> 1 / 4"
proof -
  let ?W = "sum_list (map snd ws)"
  have W: "0 < ?W" using assms by (simp add: split_input_def)
  have s: "(\<Sum>x\<leftarrow>ws. c * (snd x / ?W)) = c" for c
  proof -
    have "(\<Sum>x\<leftarrow>ws. c * (snd x / ?W)) = (\<Sum>x\<leftarrow>ws. c / ?W * snd x)" by simp
    also have "\<dots> = c / ?W * ?W" by (rule sum_list_const_mult)
    finally show ?thesis using W by simp
  qed
  have "\<bar>(\<Sum>x\<leftarrow>ws. ideal_share tot tw (snd x)) - (\<Sum>x\<leftarrow>ws. of_int tot * (snd x / ?W))\<bar> \<le> (\<Sum>x\<leftarrow>ws. 1 / 4 * (snd x / ?W))"
  proof (rule sum_list_near)
    fix x assume "x \<in> set ws"
    then have "(fst x, snd x) \<in> set ws" by simp
    then show "\<bar>ideal_share tot tw (snd x) - of_int tot * (snd x / ?W)\<bar> \<le> 1 / 4 * (snd x / ?W)"
      by (rule share_near(1) [OF assms])
  qed
  then show ?thesis unfolding s .
qed

lemma largest_remainder_spec:
  assumes i: "split_input tot tw ws"
  shows "map fst (largest_remainder tot tw ws) = map fst ws"
    and "sum_list (map snd (largest_remainder tot tw ws)) = tot"
    and "(k, w) \<in> set ws \<Longrightarrow> \<exists>n. dict_get (largest_remainder tot tw ws) k = Some n
      \<and> (n = \<lfloor>ideal_share tot tw w\<rfloor> \<or> n = \<lfloor>ideal_share tot tw w\<rfloor> + 1 \<and> ideal_share tot tw w \<noteq> of_int \<lfloor>ideal_share tot tw w\<rfloor>)"
proof -
  let ?v = "\<lambda>x :: string \<times> rat. ideal_share tot tw (snd x)"
  define ideal where "ideal = map (\<lambda>(k, w). (k, ideal_share tot tw w)) ws"
  define alloc where "alloc = map (\<lambda>(k, v). (k, \<lfloor>v\<rfloor>)) ideal"
  define key where "key k = leftover (the (dict_get ideal k))" for k
  define S where "S = sort_key (\<lambda>k. - key k) (map fst ws)"
  define r where "r = tot - sum_list (map snd alloc)"
  have d: "dict_ok ws" using i by (simp add: split_input_def)
  have gi: "dict_get ideal (fst x) = Some (?v x)" if "x \<in> set ws" for x
  proof -
    have "dict_get ws (fst x) = Some (snd x)" by (rule map_of_is_SomeI [OF d]) (simp add: that)
    then show ?thesis unfolding ideal_def map_of_map comp_def by simp
  qed
  have keys: "map fst alloc = map fst ws" by (simp add: alloc_def ideal_def split_beta comp_def)
  have A: "sum_list (map snd alloc) = (\<Sum>x\<leftarrow>ws. \<lfloor>?v x\<rfloor>)" by (simp add: alloc_def ideal_def split_beta comp_def)
  have sum: "\<bar>(\<Sum>x\<leftarrow>ws. ?v x) - of_int tot\<bar> \<le> 1 / 4" by (rule shares_sum [OF i])
  let ?P = "filter (\<lambda>x. ?v x \<noteq> of_int \<lfloor>?v x\<rfloor>) ws"
  have P: "length (filter (\<lambda>k. 0 < key k) S) = length ?P"
  proof -
    have "length (filter (\<lambda>k. 0 < key k) S) = length (filter (\<lambda>k. 0 < key k) (map fst ws))"
      unfolding S_def by (metis mset_filter mset_sort size_mset)
    also have "\<dots> = length (filter (\<lambda>x. 0 < key (fst x)) ws)" by (simp add: filter_map comp_def)
    also have "filter (\<lambda>x. 0 < key (fst x)) ws = ?P"
    proof (rule filter_cong [OF refl])
      fix x assume x: "x \<in> set ws"
      then have "(fst x, snd x) \<in> set ws" by simp
      from leftover_pos [OF share_near(2,3) [OF i this]]
      show "(0 < key (fst x)) = (?v x \<noteq> of_int \<lfloor>?v x\<rfloor>)" by (simp add: key_def gi [OF x])
    qed
    finally show ?thesis .
  qed
  have "of_int (sum_list (map snd alloc)) \<le> of_int tot + (1 / 4 :: rat)"
    "of_int tot - 1 / 4 - of_int (sum_list (map snd alloc)) \<le> (of_nat (length ?P) :: rat)"
    unfolding A using sum_floor [of ?v ws] sum by linarith+
  then have r: "0 \<le> r" "nat r \<le> length ?P" unfolding r_def by linarith+
  have S: "set S = set (map fst ws)" "distinct S" "sorted (map (\<lambda>k. - key k) S)" "length S = length ws"
    using d by (simp_all add: S_def)
  have lr: "largest_remainder tot tw ws = foldl (\<lambda>a k. dict_set k (the (dict_get a k) + 1) a) alloc (take (nat r) S)"
    unfolding largest_remainder_def Let_def ideal_def [symmetric] alloc_def [symmetric] key_def [symmetric]
      S_def [symmetric] r_def [symmetric] py_take_def if_P [OF r(1)] ..
  have sub: "set (take (nat r) S) \<subseteq> set (map fst alloc)" unfolding keys S(1) [symmetric] by (rule set_take_subset)
  note b = foldl_bump [OF distinct_take [OF S(2)] sub, folded lr]
  have "length ?P \<le> length S" by (simp add: S(4))
  then have len: "length (take (nat r) S) = nat r" using r(2) by simp
  show "map fst (largest_remainder tot tw ws) = map fst ws" using b keys by simp
  show "sum_list (map snd (largest_remainder tot tw ws)) = tot" using b len r(1) by (simp add: r_def)
  have pos: "\<forall>k \<in> set (take (nat r) S). 0 < key k"
    by (rule take_sorted_pos [OF S(3)]) (use r(2) P in simp)
  show "\<exists>n. dict_get (largest_remainder tot tw ws) k = Some n
      \<and> (n = \<lfloor>ideal_share tot tw w\<rfloor> \<or> n = \<lfloor>ideal_share tot tw w\<rfloor> + 1 \<and> ideal_share tot tw w \<noteq> of_int \<lfloor>ideal_share tot tw w\<rfloor>)"
    if m: "(k, w) \<in> set ws"
  proof -
    have "dict_get ideal k = Some (ideal_share tot tw w)" using gi [OF m] by simp
    then have "dict_get alloc k = Some \<lfloor>ideal_share tot tw w\<rfloor>" by (simp add: alloc_def map_of_map)
    with b pos leftover_pos [OF share_near(2,3) [OF i m]] \<open>dict_get ideal k = _\<close> show ?thesis by (auto simp: key_def)
  qed
qed

lemma ideal_share_0 [simp]: "ideal_share tot tw 0 = 0"
  by (simp add: ideal_share_def)

text \<open>What one entry of a split is.\<close>

lemma split_entry:
  assumes "split_input tot tw ws" and "(k, w) \<in> set ws"
  shows "\<exists>n. dict_get (largest_remainder tot tw ws) k = Some n \<and> 0 \<le> n \<and> (w = 0 \<longrightarrow> n = 0)
    \<and> \<bar>of_int n - of_int tot * (w / sum_list (map snd ws))\<bar> < (5 / 4 :: rat)"
proof -
  let ?W = "sum_list (map snd ws)" and ?v = "ideal_share tot tw w"
  obtain n where n: "dict_get (largest_remainder tot tw ws) k = Some n"
    "n = \<lfloor>?v\<rfloor> \<or> n = \<lfloor>?v\<rfloor> + 1 \<and> ?v \<noteq> of_int \<lfloor>?v\<rfloor>"
    using largest_remainder_spec(3) [OF assms] by blast
  note v = share_near [OF assms]
  have "\<bar>of_int n - ?v\<bar> < 1"
  proof -
    have "of_int \<lfloor>?v\<rfloor> \<le> ?v" "?v < of_int \<lfloor>?v\<rfloor> + 1" by linarith+
    moreover from this(1) have "?v \<noteq> of_int \<lfloor>?v\<rfloor> \<Longrightarrow> of_int \<lfloor>?v\<rfloor> < ?v" by (metis order_less_le)
    ultimately show ?thesis using n(2) by (elim disjE conjE) (simp_all only: abs_less_iff of_int_add of_int_1, linarith+)
  qed
  moreover have "0 \<le> w" "w \<in> set (map snd ws)" "0 < ?W" using assms by (force simp: split_input_def)+
  then have "w / ?W \<le> 1"
    using assms(1) member_le_sum_list [of w "map snd ws"] by (auto simp: split_input_def)
  ultimately have "\<bar>of_int n - of_int tot * (w / ?W)\<bar> < 5 / 4" using v(1) by linarith
  moreover have "0 \<le> \<lfloor>?v\<rfloor>" using v(2) by simp
  ultimately show ?thesis using n by auto
qed

text \<open>(C14) \<^verbatim>\<open>hamilton_split\<close> hands out exactly the budget, in floating point and for any weights: every cluster
  gets a non-negative share, none further than 5/4 from its exact proportion, and a cluster of weight
  0 gets nothing unless all are 0. The budget is at most \<open>2 ^ 40\<close> and the sums of the weights that the
  code takes are accurate to 43 bits.\<close>

theorem hamilton_split_exact:
  assumes "dict_ok weights" and "weights \<noteq> []" and "list_all (weight_ok \<circ> snd) weights"
    and "0 \<le> tot" and "tot \<le> 2 ^ 40"
    and "sum_accurate fsum (map (finite_val \<circ> snd) weights)"
    and "sum_accurate fsum (replicate (length weights) 1)"
  shows "\<exists>d. hamilton_split fsum tot weights = Inr d \<and> map fst d = map fst weights
    \<and> sum_list (map snd d) = tot \<and> (\<forall>n \<in> snd ` set d. 0 \<le> n)
    \<and> (0 < sum_list (map (finite_val \<circ> snd) weights) \<longrightarrow>
        (\<forall>k r. dict_get weights k = Some (Finite r) \<longrightarrow>
           (\<exists>n. dict_get d k = Some n \<and> (r = 0 \<longrightarrow> n = 0)
              \<and> \<bar>of_int n - of_int tot * (r / sum_list (map (finite_val \<circ> snd) weights))\<bar> < (5 / 4 :: rat))))"
proof (cases "length weights = 1")
  case True
  then obtain k w where "weights = [(k, w)]" by (cases weights) auto
  with assms show ?thesis by (auto simp: hamilton_split_def weight_ok_def finite_val_def split: float_value.splits)
next
  case False
  let ?W = "sum_list (map (finite_val \<circ> snd) weights)"
  define ws where "ws = map (\<lambda>(k, w). (k, finite_val w)) weights"
  have ws: "map fst ws = map fst weights" "map snd ws = map (finite_val \<circ> snd) weights"
    by (simp_all add: ws_def split_beta comp_def)
  have nn: "0 \<le> w" if "w \<in> snd ` set ws" for w
    using that assms(3) by (force simp: ws_def list_all_iff weight_ok_def finite_val_def split: float_value.splits)
  then have "0 \<le> sum_list (map snd ws)" by (intro sum_list_nonneg) auto
  then have W: "0 \<le> ?W" by (simp add: ws)
  have split: ?thesis if "split_input tot tw xs" "hamilton_split fsum tot weights = Inr (largest_remainder tot tw xs)"
    "map fst xs = map fst weights" "0 < ?W \<Longrightarrow> xs = ws" for tw xs
  proof -
    note lr = largest_remainder_spec(1,2) [OF that(1)]
    have "0 \<le> n" if "(k, n) \<in> set (largest_remainder tot tw xs)" for k n
    proof -
      have "dict_ok (largest_remainder tot tw xs)" using lr(1) \<open>map fst xs = map fst weights\<close> assms(1) by simp
      then have "dict_get (largest_remainder tot tw xs) k = Some n" using that by simp
      moreover have "k \<in> set (map fst xs)" using that lr(1) by (metis fst_conv image_eqI list.set_map)
      then obtain w where "(k, w) \<in> set xs" by auto
      ultimately show ?thesis using split_entry [OF \<open>split_input tot tw xs\<close>] by fastforce
    qed
    moreover have "(k, r) \<in> set ws" if "dict_get weights k = Some (Finite r)" for k r
      using map_of_SomeD [OF that] by (force simp: ws_def finite_val_def)
    ultimately show ?thesis using that lr split_entry [OF that(1)] ws(2) by (intro exI conjI) (auto, metis)
  qed
  have acc: "\<bar>fsum (map snd ws) - ?W\<bar> \<le> ?W / 2 ^ 43" using assms(6) by (simp only: sum_accurate_def ws)
  show ?thesis
  proof (cases "fsum (map snd ws) = 0")
    case True
    let ?ones = "map (\<lambda>(k, w). (k, 1 :: rat)) ws"
    have ones: "map fst ?ones = map fst weights" "map snd ?ones = replicate (length weights) 1"
      by (simp_all add: ws(1) [symmetric] split_beta comp_def map_replicate_const) (simp add: ws_def)
    have "?W = 0" using acc W True by (auto simp: field_simps)
    have "hamilton_split fsum tot weights = Inr (largest_remainder tot (fsum (map snd ?ones)) ?ones)"
      using assms(2,3) False True by (simp add: hamilton_split_def Let_def ws_def)
    moreover have "split_input tot (fsum (map snd ?ones)) ?ones"
      using assms(1,2,4,5,7) unfolding split_input_def ones by (auto simp: sum_accurate_def sum_list_replicate ones)
    ultimately show ?thesis using split ones(1) \<open>?W = 0\<close> by simp
  next
    case nz: False
    have "0 < ?W" using acc W nz by (cases "?W = 0") auto
    then have "split_input tot (fsum (map snd ws)) ws"
      using assms(1,4,5) nn acc unfolding split_input_def ws by blast
    moreover have "hamilton_split fsum tot weights = Inr (largest_remainder tot (fsum (map snd ws)) ws)"
      using assms(2,3) False nz by (simp add: hamilton_split_def Let_def ws_def)
    ultimately show ?thesis using split ws(1) by simp
  qed
qed

text \<open>The summation of Python 3.11 and before.\<close>

definition left_sum :: "rat list \<Rightarrow> rat" where
  "left_sum ws = foldl (\<lambda>a w. fl (a + w)) 0 ws"

theorem hamilton_split_exact_witness:
  "\<exists>d. hamilton_split left_sum 100 [(''a'', Finite 1), (''b'', Finite 2)] = Inr d \<and> sum_list (map snd d) = 100"
proof -
  have "fl 1 = 1" "fl 2 = 2" "fl 3 = 3" using fl_int [of 1] fl_int [of 2] fl_int [of 3] by simp_all
  then have "sum_accurate left_sum [1, 2]" "sum_accurate left_sum [1, 1]"
    by (simp_all add: sum_accurate_def left_sum_def)
  then show ?thesis
    using hamilton_split_exact [of "[(''a'', Finite 1), (''b'', Finite 2)]" 100 left_sum]
    by (auto simp: weight_ok_def finite_val_def numeral_2_eq_2)
qed

section \<open>Pool sizes\<close>

lemma compute_replicas_bounds:
  assumes "0 < tasks_image" and "0 < max_pool"
  shows "1 \<le> compute_replicas tasks_image tasks_total max_concurrent max_pool buffer per_task
    \<and> compute_replicas tasks_image tasks_total max_concurrent max_pool buffer per_task \<le> min tasks_image max_pool"
  using assms by (auto simp: compute_replicas_def Let_def)

text \<open>Without a buffer the size is at most the rounded share, or 1.\<close>

lemma compute_replicas_share:
  assumes "0 < tasks_image" and "0 < tasks_total" and "0 \<le> max_concurrent" and "max_concurrent * tasks_image \<le> 2 ^ 52"
  shows "of_int (compute_replicas tasks_image tasks_total max_concurrent max_pool 0 False)
    \<le> max 1 (of_int (max_concurrent * tasks_image) / of_int tasks_total + 1 :: rat)"
proof -
  let ?x = "of_int (max_concurrent * tasks_image) / of_int tasks_total :: rat"
  have x: "0 \<le> ?x" using assms by simp
  have "?x \<le> of_int (max_concurrent * tasks_image) / 1"
    using assms by (intro divide_left_mono) (auto simp: mult_nonneg_nonneg)
  also have "\<dots> \<le> of_int (2 ^ 52)" using assms(4) by (simp only: of_int_le_iff div_by_1)
  finally have "?x * (1 / 2 ^ 53) \<le> 1 / 2" by simp
  moreover have "fl ?x \<le> ?x * (1 + 1 / 2 ^ 53)" using dbl.rnd_bounds [OF x] by blast
  ultimately have "fl ?x \<le> ?x + 1 / 2" by (simp only: distrib_left mult_1_right)
  moreover have "of_int (round_even (fl ?x)) \<le> fl ?x + 1 / 2" using round_even_near [of "fl ?x"] by linarith
  ultimately have "of_int (round_even (fl ?x)) \<le> ?x + 1" by linarith
  moreover have "of_int (compute_replicas tasks_image tasks_total max_concurrent max_pool 0 False)
      \<le> max 1 (of_int (round_even (fl ?x)) :: rat)"
    using assms(1,2) by (simp add: compute_replicas_def Let_def min_le_iff_disj le_max_iff_disj) linarith
  ultimately show ?thesis by linarith
qed

end
