(* ===== verification/Fleet_Placement.thy ===== *)
theory Fleet_Placement
  imports Fleet_Budget "HOL-Library.List_Lexorder" "HOL-Library.Char_ord"
begin

text \<open>
  The snapshot of the member clusters that the planner works on and the placement policies
  (\<^verbatim>\<open>placement.py\<close>). A cluster object is an entry of the registry and is referred to by its key. A
  selector is a value: the counter of \<^verbatim>\<open>RoundRobin\<close> is its only state. MD5 and float summation are
  arguments.
\<close>

section \<open>Clusters and the registry\<close>

record planner_cluster =
  pc_name :: string
  pc_weight :: rat
  pc_max_replicas :: "int option"
  pc_depth :: int
  pc_ready :: int
  pc_claims :: "int option"
  pc_p90 :: "float_value option"
  pc_pressure :: "float_value option"
  pc_age :: rat
  pc_planned :: int

type_synonym cluster_entry = "string \<times> planner_cluster"

definition active_replicas :: "planner_cluster \<Rightarrow> int" where
  "active_replicas c = pc_depth c + pc_planned c"

definition ready_ratio :: "planner_cluster \<Rightarrow> rat" where
  "ready_ratio c = (if pc_depth c = 0 then 1 else fl (of_int (pc_ready c) / of_int (pc_depth c)))"

definition has_capacity :: "planner_cluster \<Rightarrow> int \<Rightarrow> bool" where
  "has_capacity c need = (case pc_max_replicas c of None \<Rightarrow> True | Some m \<Rightarrow> active_replicas c + need \<le> m)"

record planner_registry =
  rg_clusters :: "(string, planner_cluster) dict"
  rg_max_age :: rat

definition registry_fresh :: "planner_registry \<Rightarrow> cluster_entry list" where
  "registry_fresh reg = filter (\<lambda>(k, c). pc_age c \<le> rg_max_age reg) (rg_clusters reg)"

definition registry_eligible :: "planner_registry \<Rightarrow> cluster_entry list" where
  "registry_eligible reg = filter (\<lambda>(k, c). 0 < pc_weight c) (registry_fresh reg)"

definition registry_get :: "planner_registry \<Rightarrow> string \<Rightarrow> planner_cluster res" where
  "registry_get reg name = (case dict_get (rg_clusters reg) name of None \<Rightarrow> Inl KeyError | Some c \<Rightarrow> Inr c)"

section \<open>Selectors\<close>

definition with_capacity :: "planner_registry \<Rightarrow> cluster_entry list res" where
  "with_capacity reg =
     (let elig = filter (\<lambda>(k, c). has_capacity c 1) (registry_eligible reg) in
      if elig = [] then Inl NoClusterAvailableError else Inr elig)"

datatype selector = Pinned | RoundRobin nat | LeastLoaded | CapacityWeighted | ImageAffinity | CapacityAware

definition get_placement :: "string \<Rightarrow> selector res" where
  "get_placement name =
     (case map_of [(''pinned'', Pinned), (''round-robin'', RoundRobin 0), (''least-loaded'', LeastLoaded),
                   (''capacity-weighted'', CapacityWeighted), (''image-affinity'', ImageAffinity),
                   (''capacity-aware'', CapacityAware)] name of
        None \<Rightarrow> Inl ValueError
      | Some s \<Rightarrow> Inr s)"

definition select_round_robin :: "nat \<Rightarrow> planner_registry \<Rightarrow> string res" where
  "select_round_robin start reg =
     bindE (with_capacity reg) (\<lambda>elig.
       let names = map (pc_name \<circ> snd) elig; ordered = registry_eligible reg; n = length ordered in
       case find (\<lambda>i. pc_name (snd (ordered ! ((start + i) mod n))) \<in> set names) [0..<n] of
         Some i \<Rightarrow> Inr (fst (ordered ! ((start + i) mod n)))
       | None \<Rightarrow> Inr (fst (ordered ! (start mod n))))"

text \<open>The key of \<^verbatim>\<open>LeastLoaded\<close> is a tuple: unmeasured last, then claims, then replicas.\<close>

definition less_loaded :: "cluster_entry \<Rightarrow> cluster_entry \<Rightarrow> bool" where
  "less_loaded a b =
     (let key = (\<lambda>e :: cluster_entry. (pc_claims (snd e) = None,
                   case pc_claims (snd e) of None \<Rightarrow> 0 | Some n \<Rightarrow> n, active_replicas (snd e))) in
      case (key a, key b) of ((un, ca, ra), (vn, cb, rb)) \<Rightarrow>
        (\<not> un \<and> vn) \<or> (un = vn \<and> (ca < cb \<or> ca = cb \<and> ra < rb)))"

definition select_least_loaded :: "planner_registry \<Rightarrow> string res" where
  "select_least_loaded reg = bindE (with_capacity reg) (\<lambda>elig. Inr (fst (min_by less_loaded elig)))"

definition select_capacity_weighted :: "planner_registry \<Rightarrow> string res" where
  "select_capacity_weighted reg =
     bindE (with_capacity reg) (\<lambda>elig.
       if list_ex (\<lambda>(k, c). 1 + active_replicas c = 0) elig then Inl ZeroDivisionError
       else Inr (fst (max_by (\<lambda>(k, c). fl (pc_weight c / fl (of_int (1 + active_replicas c)))) elig)))"

definition select_image_affinity :: "(string \<Rightarrow> nat) \<Rightarrow> string \<Rightarrow> planner_registry \<Rightarrow> string res" where
  "select_image_affinity md5 img reg =
     bindE (with_capacity reg) (\<lambda>_.
       let names = sort (map (pc_name \<circ> snd) (registry_eligible reg));
           name = names ! (md5 img mod length names) in
       bindE (registry_get reg name) (\<lambda>target.
         if has_capacity target 1 then Inr name else select_least_loaded reg))"

text \<open>The mean of the measured pressures; and \<^verbatim>\<open>max(0.0, min(1.0, raw))\<close>, which is 1 for a value that is not a
  number.\<close>

definition mean_pressure :: "(rat list \<Rightarrow> rat) \<Rightarrow> float_value list \<Rightarrow> float_value" where
  "mean_pressure fsum known =
     (if known = [] then Finite 0
      else if list_all (\<lambda>v. case v of Finite _ \<Rightarrow> True | _ \<Rightarrow> False) known
      then Finite (fl (fsum (map finite_val known) / of_nat (length known)))
      else if NaN \<in> set known \<or> PosInf \<in> set known \<and> NegInf \<in> set known then NaN
      else if PosInf \<in> set known then PosInf else NegInf)"

definition clamp01 :: "float_value \<Rightarrow> rat" where
  "clamp01 v = (case v of Finite r \<Rightarrow> max 0 (min 1 r) | PosInf \<Rightarrow> 1 | NegInf \<Rightarrow> 0 | NaN \<Rightarrow> 1)"

definition capacity_score :: "float_value \<Rightarrow> planner_cluster \<Rightarrow> rat res" where
  "capacity_score dflt c =
     (let pressure = clamp01 (case pc_pressure c of None \<Rightarrow> dflt | Some p \<Rightarrow> p);
          den = fl (1 + fl (fl (of_int (active_replicas c)) * fl (1 + pressure))) in
      if den = 0 then Inl ZeroDivisionError else Inr (fl (fl (pc_weight c * ready_ratio c) / den)))"

definition select_capacity_aware :: "(rat list \<Rightarrow> rat) \<Rightarrow> planner_registry \<Rightarrow> string res" where
  "select_capacity_aware fsum reg =
     bindE (with_capacity reg) (\<lambda>elig.
       let dflt = mean_pressure fsum (List.map_filter (pc_pressure \<circ> snd) elig) in
       bindE (mapE (\<lambda>(k, c). bindE (capacity_score dflt c) (\<lambda>s. Inr (pc_name c, s))) elig) (\<lambda>scored.
         let scores = foldl (\<lambda>d (n, s). dict_set n s d) [] scored in
         if length (remdups (map snd scores)) = 1 then select_least_loaded reg
         else Inr (fst (max_by (\<lambda>(k, c). the (dict_get scores (pc_name c))) elig))))"

definition select :: "(rat list \<Rightarrow> rat) \<Rightarrow> (string \<Rightarrow> nat) \<Rightarrow> selector \<Rightarrow> string option \<Rightarrow> planner_registry
  \<Rightarrow> (string \<times> selector) res"
where
  "select fsum md5 s img reg =
     (case s of
        Pinned \<Rightarrow> Inl RuntimeError
      | RoundRobin n \<Rightarrow> bindE (select_round_robin n reg) (\<lambda>k. Inr (k, RoundRobin (Suc n)))
      | LeastLoaded \<Rightarrow> bindE (select_least_loaded reg) (\<lambda>k. Inr (k, s))
      | CapacityWeighted \<Rightarrow> bindE (select_capacity_weighted reg) (\<lambda>k. Inr (k, s))
      | ImageAffinity \<Rightarrow>
          (case img of
             None \<Rightarrow> bindE (with_capacity reg) (\<lambda>_. Inl AttributeError)
           | Some i \<Rightarrow> bindE (select_image_affinity md5 i reg) (\<lambda>k. Inr (k, s)))
      | CapacityAware \<Rightarrow> bindE (select_capacity_aware fsum reg) (\<lambda>k. Inr (k, s)))"

section \<open>What a selector returns\<close>

definition registry_ok :: "planner_registry \<Rightarrow> bool" where
  "registry_ok reg \<longleftrightarrow> dict_ok (rg_clusters reg) \<and> list_all (\<lambda>(k, c). pc_name c = k) (rg_clusters reg)"

lemma registry_ok_name: "registry_ok reg \<Longrightarrow> (k, c) \<in> set (rg_clusters reg) \<Longrightarrow> pc_name c = k"
  by (auto simp: registry_ok_def list_all_iff)

lemma registry_fresh_iff:
  "(k, c) \<in> set (registry_fresh reg) \<longleftrightarrow> (k, c) \<in> set (rg_clusters reg) \<and> pc_age c \<le> rg_max_age reg"
  by (auto simp: registry_fresh_def)

lemma registry_eligible_iff:
  "(k, c) \<in> set (registry_eligible reg) \<longleftrightarrow>
     (k, c) \<in> set (rg_clusters reg) \<and> pc_age c \<le> rg_max_age reg \<and> 0 < pc_weight c"
  by (auto simp: registry_eligible_def registry_fresh_iff)

lemma eligible_name: "registry_ok reg \<Longrightarrow> e \<in> set (registry_eligible reg) \<Longrightarrow> pc_name (snd e) = fst e"
  by (cases e) (auto simp: registry_eligible_iff registry_ok_name)

lemma with_capacity_Inr:
  "with_capacity reg = Inr elig \<longleftrightarrow>
     elig = filter (\<lambda>(k, c). has_capacity c 1) (registry_eligible reg) \<and> elig \<noteq> []"
  by (auto simp: with_capacity_def Let_def)

text \<open>The entry a selector may return.\<close>

abbreviation placeable :: "planner_registry \<Rightarrow> string \<Rightarrow> bool" where
  "placeable reg k \<equiv> \<exists>c. (k, c) \<in> set (registry_eligible reg) \<and> has_capacity c 1"

lemma with_capacity_placeable:
  "with_capacity reg = Inr elig \<Longrightarrow> e \<in> set elig \<Longrightarrow> placeable reg (fst e)"
  by (cases e) (auto simp: with_capacity_Inr)

lemma select_least_loaded_placeable: "select_least_loaded reg = Inr k \<Longrightarrow> placeable reg k"
  by (auto simp: select_least_loaded_def bindE_eq_Inr with_capacity_Inr
      intro!: with_capacity_placeable min_by_in)

lemma select_capacity_weighted_placeable: "select_capacity_weighted reg = Inr k \<Longrightarrow> placeable reg k"
  by (auto simp: select_capacity_weighted_def bindE_eq_Inr with_capacity_Inr
      intro!: with_capacity_placeable max_by_max [THEN conjunct1] split: if_splits)

lemma select_capacity_aware_placeable: "select_capacity_aware fsum reg = Inr k \<Longrightarrow> placeable reg k"
  by (auto simp: select_capacity_aware_def Let_def bindE_eq_Inr with_capacity_Inr
      intro: select_least_loaded_placeable intro!: with_capacity_placeable max_by_max [THEN conjunct1] split: if_splits)

lemma select_image_affinity_placeable:
  assumes "registry_ok reg" and "select_image_affinity md5 img reg = Inr k"
  shows "placeable reg k"
proof -
  let ?names = "sort (map (pc_name \<circ> snd) (registry_eligible reg))"
  let ?n = "?names ! (md5 img mod length ?names)"
  from assms(2) obtain elig c where e: "with_capacity reg = Inr elig" "dict_get (rg_clusters reg) ?n = Some c"
    and k: "if has_capacity c 1 then k = ?n else select_least_loaded reg = Inr k"
    by (auto simp: select_image_affinity_def registry_get_def Let_def bindE_eq_Inr split: option.splits if_splits)
  from e(1) have "registry_eligible reg \<noteq> []" by (auto simp: with_capacity_Inr)
  then have "?n \<in> set ?names" by (intro nth_mem) simp
  then obtain c' where c': "(?n, c') \<in> set (registry_eligible reg)"
    using assms(1) by (auto simp: registry_eligible_iff dest: registry_ok_name)
  then have "(?n, c') \<in> set (rg_clusters reg)" by (simp add: registry_eligible_iff)
  with assms(1) e(2) have "c' = c" by (metis registry_ok_def dict_in_get option.inject)
  with c' k show ?thesis by (auto split: if_splits intro: select_least_loaded_placeable)
qed

lemma select_round_robin_placeable:
  assumes "registry_ok reg" and "select_round_robin start reg = Inr k"
  shows "placeable reg k"
proof -
  let ?o = "registry_eligible reg" let ?n = "length ?o"
  from assms(2) obtain elig where e: "with_capacity reg = Inr elig"
    and k: "(case find (\<lambda>i. pc_name (snd (?o ! ((start + i) mod ?n))) \<in> set (map (pc_name \<circ> snd) elig)) [0..<?n] of
         Some i \<Rightarrow> Inr (fst (?o ! ((start + i) mod ?n))) | None \<Rightarrow> Inr (fst (?o ! (start mod ?n)))) = (Inr k :: string res)"
    by (auto simp: select_round_robin_def Let_def bindE_eq_Inr)
  from e have el: "elig \<noteq> []" "set elig \<subseteq> set ?o" by (auto simp: with_capacity_Inr)
  then obtain x where x: "x \<in> set elig" "x \<in> set ?o" by (cases elig) auto
  then obtain j where j: "j < ?n" "?o ! j = x" by (auto simp: in_set_conv_nth)
  let ?i = "(j + ?n - start mod ?n) mod ?n"
  have n: "0 < ?n" using j by linarith
  have "(start + ?i) mod ?n = (start mod ?n + (j + ?n - start mod ?n)) mod ?n" by (simp add: mod_simps)
  also have "\<dots> = (j + ?n) mod ?n" using mod_less_divisor [OF n, of start] by (intro arg_cong2 [where f = "(mod)"]) linarith+
  finally have ij: "(start + ?i) mod ?n = j" using j(1) by simp
  have "find (\<lambda>i. pc_name (snd (?o ! ((start + i) mod ?n))) \<in> set (map (pc_name \<circ> snd) elig)) [0..<?n] \<noteq> None"
    unfolding find_None_iff using ij j(2) x(1) n by (auto intro!: exI [of _ ?i])
  then obtain i where i: "find (\<lambda>i. pc_name (snd (?o ! ((start + i) mod ?n))) \<in> set (map (pc_name \<circ> snd) elig)) [0..<?n] = Some i"
    by blast
  let ?e = "?o ! ((start + i) mod ?n)"
  from i have "pc_name (snd ?e) \<in> set (map (pc_name \<circ> snd) elig)" by (auto simp: find_Some_iff)
  then obtain y where y: "y \<in> set elig" "pc_name (snd y) = pc_name (snd ?e)" by auto
  have eo: "?e \<in> set ?o" using n by (intro nth_mem) simp
  have "y \<in> set ?o" using y(1) e by (auto simp: with_capacity_Inr)
  with eo y(2) have "fst y = fst ?e" by (metis eligible_name [OF assms(1)])
  with k i y(1) e show ?thesis using with_capacity_placeable [OF e y(1)] by simp
qed

lemma select_placeable:
  "registry_ok reg \<Longrightarrow> select fsum md5 s img reg = Inr (k, s') \<Longrightarrow> placeable reg k"
  by (cases s) (auto simp: select_def bindE_eq_Inr split: option.splits
      dest: select_least_loaded_placeable select_capacity_weighted_placeable select_capacity_aware_placeable
        select_image_affinity_placeable select_round_robin_placeable)

text \<open>When some cluster has room, every selector but the pinned one answers, as long as no divisor is zero.\<close>

lemma clamp01_bounds: "0 \<le> clamp01 v \<and> clamp01 v \<le> 1"
  by (auto simp: clamp01_def split: float_value.splits)

lemma capacity_score_defined:
  assumes "0 \<le> active_replicas c"
  shows "\<exists>s. capacity_score dflt c = Inr s"
proof -
  let ?p = "clamp01 (case pc_pressure c of None \<Rightarrow> dflt | Some p \<Rightarrow> p)"
  have "0 \<le> fl (of_int (active_replicas c))" using assms by (intro dbl.rnd_nonneg) simp
  moreover have "0 \<le> fl (1 + ?p)" using clamp01_bounds by (intro dbl.rnd_nonneg) (simp add: add_nonneg_nonneg)
  ultimately have "0 < 1 + fl (fl (of_int (active_replicas c)) * fl (1 + ?p))"
    by (intro add_pos_nonneg dbl.rnd_nonneg [OF mult_nonneg_nonneg]) simp_all
  from dbl.rnd_pos [OF this] show ?thesis by (simp add: capacity_score_def Let_def)
qed

end
