(* ===== verification/Fleet_Store.thy ===== *)
theory Fleet_Store
  imports Sdk_Errors "HOL-Library.List_Lexorder" "HOL-Library.Char_ord"
begin

text \<open>
  The object store of the fleet (\<^verbatim>\<open>objectstore.py\<close>). The Google Cloud Storage client is a record of requests
  on a world; what its documentation promises of generations and preconditions is the predicate
  \<open>cas_bucket\<close>. The bytes of an object are the text of a JSON value or bytes that no JSON parser
  accepts, so that \<^verbatim>\<open>json.dumps\<close> and \<^verbatim>\<open>json.loads\<close> are inverse up to the sorting of the keys.
\<close>

section \<open>The storage client\<close>

datatype blob_data = JsonText json | RawBytes string

record blob_meta =
  bm_generation :: int
  bm_updated :: "rat option"

type_synonym ('w, 'a) request = "'w \<Rightarrow> 'a res \<times> 'w"

record 'w bucket =
  gb_get_blob :: "string \<Rightarrow> ('w, blob_meta option) request"
  gb_download :: "string \<Rightarrow> int option \<Rightarrow> ('w, blob_data) request"
  gb_upload :: "string \<Rightarrow> blob_data \<Rightarrow> string \<Rightarrow> int option \<Rightarrow> ('w, unit) request"
  gb_list :: "string \<Rightarrow> ('w, string list) request"

record fleet_paths =
  fp_spec :: string
  fp_assignments :: string
  fp_capacity_prefix :: string
  fp_weight_manifest :: string
  fp_weight_delta_prefix :: string

definition default_paths :: fleet_paths where
  "default_paths = \<lparr>fp_spec = ''fleet/spec.json'', fp_assignments = ''fleet/assignments.json'',
     fp_capacity_prefix = ''fleet/capacity/'', fp_weight_manifest = ''weights/manifest.json'',
     fp_weight_delta_prefix = ''weights/deltas/''\<rparr>"

definition capacity_path :: "fleet_paths \<Rightarrow> string \<Rightarrow> string" where
  "capacity_path paths cluster = fp_capacity_prefix paths @ cluster @ ''.json''"

definition weight_delta_path :: "fleet_paths \<Rightarrow> int \<Rightarrow> string" where
  "weight_delta_path paths version = fp_weight_delta_prefix paths @ ''v'' @ show_int version @ ''.bin''"

section \<open>JSON text\<close>

fun sort_keys :: "json \<Rightarrow> json" where
  "sort_keys (JList xs) = JList (map sort_keys xs)"
| "sort_keys (JObj kvs) = JObj (sort_key fst (map (\<lambda>kv. (fst kv, sort_keys (snd kv))) kvs))"
| "sort_keys j = j"

fun json_loads :: "blob_data \<Rightarrow> json res" where
  "json_loads (JsonText j) = Inr j"
| "json_loads (RawBytes _) = Inl ValueError"

section \<open>The facade\<close>

definition put_json :: "'w bucket \<Rightarrow> string \<Rightarrow> json \<Rightarrow> int option \<Rightarrow> ('w, unit) request" where
  "put_json api path obj if_generation_match w =
     (case gb_upload api path (JsonText (sort_keys obj)) ''application/json'' if_generation_match w of
        (Inl (GoogleAPIError st), w1) \<Rightarrow> (Inl (if st = 412 then CASConflict else GoogleAPIError st), w1)
      | r \<Rightarrow> r)"

text \<open>The read that pins the download to the generation of the metadata request, tried at most \<open>n\<close> times.\<close>

fun read_pinned :: "'w bucket \<Rightarrow> string \<Rightarrow> nat \<Rightarrow> ('w, (blob_data \<times> int) option) request" where
  "read_pinned api path 0 w = (Inl RuntimeError, w)"
| "read_pinned api path (Suc n) w =
     (case gb_get_blob api path w of
        (Inl e, w1) \<Rightarrow> (Inl e, w1)
      | (Inr None, w1) \<Rightarrow> (Inr None, w1)
      | (Inr (Some m), w1) \<Rightarrow>
          (case gb_download api path (Some (bm_generation m)) w1 of
             (Inr d, w2) \<Rightarrow> (Inr (Some (d, bm_generation m)), w2)
           | (Inl e, w2) \<Rightarrow>
               if e = GoogleAPIError 404 then (Inr None, w2)
               else if e = GoogleAPIError 412 then read_pinned api path n w2
               else (Inl e, w2)))"

definition get_json_with_generation :: "'w bucket \<Rightarrow> string \<Rightarrow> ('w, json option \<times> int) request" where
  "get_json_with_generation api path w =
     (case read_pinned api path 3 w of
        (Inl e, w1) \<Rightarrow> (Inl e, w1)
      | (Inr None, w1) \<Rightarrow> (Inr (None, 0), w1)
      | (Inr (Some (d, g)), w1) \<Rightarrow> (bindE (json_loads d) (\<lambda>j. Inr (Some j, g)), w1))"

definition get_json :: "'w bucket \<Rightarrow> string \<Rightarrow> ('w, json option) request" where
  "get_json api path w =
     (case gb_download api path None w of
        (Inl e, w1) \<Rightarrow> (if e = GoogleAPIError 404 then Inr None else Inl e, w1)
      | (Inr d, w1) \<Rightarrow> (bindE (json_loads d) (\<lambda>j. Inr (Some j)), w1))"

definition put_bytes :: "'w bucket \<Rightarrow> string \<Rightarrow> string \<Rightarrow> ('w, unit) request" where
  "put_bytes api path data w = gb_upload api path (RawBytes data) ''application/octet-stream'' None w"

definition list_prefix :: "'w bucket \<Rightarrow> string \<Rightarrow> ('w, string list) request" where
  "list_prefix api prefix w = gb_list api prefix w"

definition object_age_s :: "'w bucket \<Rightarrow> rat \<Rightarrow> string \<Rightarrow> ('w, rat option) request" where
  "object_age_s api now path w =
     (case gb_get_blob api path w of
        (Inl e, w1) \<Rightarrow> (Inl e, w1)
      | (Inr None, w1) \<Rightarrow> (Inr None, w1)
      | (Inr (Some m), w1) \<Rightarrow> (Inr (map_option (\<lambda>t. now - t) (bm_updated m)), w1))"

definition get_with_etag :: "'w bucket \<Rightarrow> string \<Rightarrow> ('w, blob_data \<times> string) request" where
  "get_with_etag api path w =
     (case read_pinned api path 3 w of
        (Inl e, w1) \<Rightarrow> (Inl e, w1)
      | (Inr None, w1) \<Rightarrow> (Inl FileNotFoundError, w1)
      | (Inr (Some (d, g)), w1) \<Rightarrow> (Inr (d, ''gen:'' @ show_int g), w1))"

section \<open>What the store promises\<close>

text \<open>
  \<open>view w\<close> is the content of the bucket: the generation and the bytes of each object. Generations
  are positive. A read returns what is there at that moment. A conditional write takes effect only
  when the generation is the expected one, 0 standing for an absent object; a write gives the object
  a greater generation and leaves the other objects alone. A write that fails may have taken effect,
  unless the store reports the failed precondition.
\<close>

type_synonym 'w view = "'w \<Rightarrow> string \<Rightarrow> (int \<times> blob_data) option"

definition gen_of :: "(int \<times> blob_data) option \<Rightarrow> int" where
  "gen_of x = (case x of None \<Rightarrow> 0 | Some (g, _) \<Rightarrow> g)"

definition written :: "(string \<Rightarrow> (int \<times> blob_data) option) \<Rightarrow> string \<Rightarrow> blob_data \<Rightarrow> int option
  \<Rightarrow> (string \<Rightarrow> (int \<times> blob_data) option) \<Rightarrow> bool"
where
  "written v path d m v' \<longleftrightarrow> (\<forall>g. m = Some g \<longrightarrow> g = gen_of (v path))
     \<and> (\<exists>g > gen_of (v path). v' = v(path \<mapsto> (g, d)))"

definition cas_bucket :: "'w bucket \<Rightarrow> 'w view \<Rightarrow> bool" where
  "cas_bucket api view \<longleftrightarrow>
     (\<forall>w path g d. view w path = Some (g, d) \<longrightarrow> 0 < g)
   \<and> (\<forall>path w r w'. gb_get_blob api path w = (r, w') \<longrightarrow> view w' = view w
        \<and> (\<forall>m. r = Inr m \<longrightarrow> map_option bm_generation m = map_option fst (view w path)))
   \<and> (\<forall>path m w r w'. gb_download api path m w = (r, w') \<longrightarrow> view w' = view w
        \<and> (\<forall>d. r = Inr d \<longrightarrow> (\<exists>g. view w path = Some (g, d) \<and> (\<forall>g'. m = Some g' \<longrightarrow> g' = g)))
        \<and> (r = Inl (GoogleAPIError 404) \<longrightarrow> view w path = None))
   \<and> (\<forall>path d ct m w r w'. gb_upload api path d ct m w = (r, w') \<longrightarrow>
        r \<noteq> Inl CASConflict \<and> (r = Inr () \<longrightarrow> written (view w) path d m (view w'))
        \<and> (r \<noteq> Inr () \<longrightarrow> view w' = view w \<or> r \<noteq> Inl (GoogleAPIError 412) \<and> written (view w) path d m (view w')))
   \<and> (\<forall>p w r w'. gb_list api p w = (r, w') \<longrightarrow> view w' = view w)"

lemma cas_bucketI:
  assumes "\<And>w path g d. view w path = Some (g, d) \<Longrightarrow> 0 < g"
    and "\<And>path w r w'. gb_get_blob api path w = (r, w') \<Longrightarrow>
      view w' = view w \<and> (\<forall>m. r = Inr m \<longrightarrow> map_option bm_generation m = map_option fst (view w path))"
    and "\<And>path m w r w'. gb_download api path m w = (r, w') \<Longrightarrow> view w' = view w
      \<and> (\<forall>d. r = Inr d \<longrightarrow> (\<exists>g. view w path = Some (g, d) \<and> (\<forall>g'. m = Some g' \<longrightarrow> g' = g)))
      \<and> (r = Inl (GoogleAPIError 404) \<longrightarrow> view w path = None)"
    and "\<And>path d ct m w r w'. gb_upload api path d ct m w = (r, w') \<Longrightarrow>
      r \<noteq> Inl CASConflict \<and> (r = Inr () \<longrightarrow> written (view w) path d m (view w'))
      \<and> (r \<noteq> Inr () \<longrightarrow> view w' = view w \<or> r \<noteq> Inl (GoogleAPIError 412) \<and> written (view w) path d m (view w'))"
    and "\<And>p w r w'. gb_list api p w = (r, w') \<Longrightarrow> view w' = view w"
  shows "cas_bucket api view"
  unfolding cas_bucket_def by (intro conjI; intro allI impI; rule assms; assumption)

lemma cas_get_blob:
  "cas_bucket api view \<Longrightarrow> gb_get_blob api path w = (r, w') \<Longrightarrow>
     view w' = view w \<and> (\<forall>m. r = Inr m \<longrightarrow> map_option bm_generation m = map_option fst (view w path))"
  unfolding cas_bucket_def by metis

lemma cas_download:
  "cas_bucket api view \<Longrightarrow> gb_download api path m w = (r, w') \<Longrightarrow> view w' = view w
     \<and> (\<forall>d. r = Inr d \<longrightarrow> (\<exists>g. view w path = Some (g, d) \<and> (\<forall>g'. m = Some g' \<longrightarrow> g' = g)))
     \<and> (r = Inl (GoogleAPIError 404) \<longrightarrow> view w path = None)"
  unfolding cas_bucket_def by (elim conjE) (drule spec, drule spec, drule spec, drule spec, drule spec, erule mp)

lemma cas_upload:
  "cas_bucket api view \<Longrightarrow> gb_upload api path d ct m w = (r, w') \<Longrightarrow>
     r \<noteq> Inl CASConflict \<and> (r = Inr () \<longrightarrow> written (view w) path d m (view w'))
     \<and> (r \<noteq> Inr () \<longrightarrow> view w' = view w \<or> r \<noteq> Inl (GoogleAPIError 412) \<and> written (view w) path d m (view w'))"
  unfolding cas_bucket_def by metis

lemma cas_list: "cas_bucket api view \<Longrightarrow> gb_list api p w = (r, w') \<Longrightarrow> view w' = view w"
  unfolding cas_bucket_def by metis

lemma cas_gen_pos: "cas_bucket api view \<Longrightarrow> view w path = Some (g, d) \<Longrightarrow> 0 < g"
  unfolding cas_bucket_def by metis

lemma put_json_effect:
  assumes "cas_bucket api view" and "put_json api path obj m w = (r, w')"
  shows "(r = Inr () \<longrightarrow> written (view w) path (JsonText (sort_keys obj)) m (view w'))
    \<and> (r \<noteq> Inr () \<longrightarrow> view w' = view w \<or> r \<noteq> Inl CASConflict \<and> written (view w) path (JsonText (sort_keys obj)) m (view w'))"
proof -
  obtain q w1 where q: "gb_upload api path (JsonText (sort_keys obj)) ''application/json'' m w = (q, w1)" by fastforce
  have r: "w1 = w'" "r = Inr () \<longleftrightarrow> q = Inr ()" "r = Inl CASConflict \<longrightarrow> q = Inl (GoogleAPIError 412) \<or> q = Inl CASConflict"
    using assms(2) q by (auto simp: put_json_def split: sum.splits exn.splits if_splits)
  have "q = Inl (GoogleAPIError 412) \<longrightarrow> r = Inl CASConflict" using assms(2) q by (auto simp: put_json_def)
  with cas_upload [OF assms(1) q] r show ?thesis by auto
qed

lemma read_pinned_view:
  assumes "cas_bucket api view"
  shows "read_pinned api path n w = (r, w') \<Longrightarrow> view w' = view w
    \<and> (\<forall>d g. r = Inr (Some (d, g)) \<longrightarrow> view w path = Some (g, d)) \<and> (r = Inr None \<longrightarrow> view w path = None)"
proof (induction n arbitrary: w)
  case (Suc n)
  obtain q w1 where q: "gb_get_blob api path w = (q, w1)" by fastforce
  have v: "view w1 = view w" using cas_get_blob [OF assms q] by blast
  have none: "q = Inr None \<Longrightarrow> view w path = None" using cas_get_blob [OF assms q] by auto
  show ?case
  proof (cases q)
    case (Inr om)
    show ?thesis
    proof (cases om)
      case (Some m)
      obtain p w2 where p: "gb_download api path (Some (bm_generation m)) w1 = (p, w2)" by fastforce
      have v2: "view w2 = view w" using cas_download [OF assms p] v by simp
      have got: "view w path = Some (bm_generation m, d)" if "p = Inr d" for d
        using cas_download [OF assms p] that v by auto
      have gone: "p = Inl (GoogleAPIError 404) \<Longrightarrow> view w path = None" using cas_download [OF assms p] v by simp
      show ?thesis
      proof (cases p)
        case (Inl e)
        show ?thesis using Suc.IH [of w2] Suc.prems q p v2 gone unfolding Inr Some Inl
          by (cases "e = GoogleAPIError 404"; cases "e = GoogleAPIError 412") auto
      next
        case (Inr d)
        then show ?thesis using Suc.prems q p v2 got [OF Inr] unfolding \<open>q = Inr om\<close> Some by auto
      qed
    qed (use Suc.prems q v none Inr in auto)
  qed (use Suc.prems q v in auto)
qed auto

text \<open>A value read back is the one written, with its keys sorted.\<close>

lemma map_of_sort_key: "distinct (map fst kvs) \<Longrightarrow> map_of (sort_key fst kvs) = map_of (kvs :: (string \<times> 'a) list)"
  by (rule map_of_inject_set [THEN iffD2]) (simp_all add: distinct_map)

lemma dict_ok_sort_key: "distinct (map fst kvs) \<Longrightarrow> distinct (map fst (sort_key fst (kvs :: (string \<times> 'a) list)))"
  by (simp add: distinct_map)

lemma dict_get_map: "dict_get (map (\<lambda>kv. (fst kv, f (snd kv))) d) k = map_option f (dict_get d k)"
  by (induction d) auto

lemma sort_keys_lookup:
  "distinct (map fst kvs) \<Longrightarrow> jget (sort_keys (JObj kvs)) k =
     Inr (case map_of kvs k of None \<Rightarrow> JNull | Some v \<Rightarrow> sort_keys v)"
  by (simp add: map_of_sort_key comp_def dict_get_map split: option.splits)

section \<open>A bucket in memory\<close>

text \<open>An instance of the store, for the examples: the generation of an object counts its writes.\<close>

type_synonym mem_bucket = "(string, nat \<times> blob_data) dict"

definition mem_view :: "mem_bucket view" where
  "mem_view w path = map_option (\<lambda>(n, d). (int n + 1, d)) (dict_get w path)"

definition mem_api :: "mem_bucket bucket" where
  "mem_api =
     \<lparr>gb_get_blob = (\<lambda>path w. (Inr (map_option (\<lambda>(n, d). \<lparr>bm_generation = int n + 1, bm_updated = None\<rparr>) (dict_get w path)), w)),
      gb_download = (\<lambda>path m w. (case dict_get w path of
          None \<Rightarrow> Inl (GoogleAPIError 404)
        | Some (n, d) \<Rightarrow> if m \<noteq> None \<and> m \<noteq> Some (int n + 1) then Inl (GoogleAPIError 412) else Inr d, w)),
      gb_upload = (\<lambda>path d ct m w.
          let g = (case dict_get w path of None \<Rightarrow> 0 | Some (n, _) \<Rightarrow> Suc n) in
          if m \<noteq> None \<and> m \<noteq> Some (int g) then (Inl (GoogleAPIError 412), w)
          else (Inr (), dict_set path (g, d) w)),
      gb_list = (\<lambda>p w. (Inr (filter (\<lambda>k. startswith k p) (map fst w)), w))\<rparr>"

lemma mem_upload:
  "gb_upload mem_api path d ct m w = (r, w') \<Longrightarrow>
     r \<noteq> Inl CASConflict \<and> (r = Inr () \<longrightarrow> written (mem_view w) path d m (mem_view w'))
     \<and> (r \<noteq> Inr () \<longrightarrow> mem_view w' = mem_view w)"
  by (cases "dict_get w path")
     (auto simp: mem_api_def mem_view_def written_def gen_of_def fun_eq_iff Let_def split: if_splits)

lemma mem_download:
  "gb_download mem_api path m w = (r, w') \<Longrightarrow> mem_view w' = mem_view w
     \<and> (\<forall>d. r = Inr d \<longrightarrow> (\<exists>g. mem_view w path = Some (g, d) \<and> (\<forall>g'. m = Some g' \<longrightarrow> g' = g)))
     \<and> (r = Inl (GoogleAPIError 404) \<longrightarrow> mem_view w path = None)"
  by (cases "dict_get w path") (auto simp: mem_api_def mem_view_def split: if_splits)

lemma mem_get_blob:
  "gb_get_blob mem_api path w = (r, w') \<Longrightarrow>
     mem_view w' = mem_view w \<and> (\<forall>m. r = Inr m \<longrightarrow> map_option bm_generation m = map_option fst (mem_view w path))"
  by (cases "dict_get w path") (auto simp: mem_api_def mem_view_def)

lemma mem_cas_bucket: "cas_bucket mem_api mem_view"
proof (rule cas_bucketI)
  show "mem_view w path = Some (g, d) \<Longrightarrow> 0 < g" for w path g d by (auto simp: mem_view_def)
  show "gb_list mem_api p w = (r, w') \<Longrightarrow> mem_view w' = mem_view w" for p w r w' by (auto simp: mem_api_def)
qed (drule mem_get_blob mem_download mem_upload, blast)+

end
