(* ===== verification/Fleet_Inventory.thy ===== *)
theory Fleet_Inventory
  imports Fleet_Placement Fleet_Store
begin

text \<open>
  Where the planner's registry comes from (\<^verbatim>\<open>inventory.py\<close>): the capacity reports of the members in the
  bucket, or the \<^verbatim>\<open>ClusterProfile\<close> resources of a hub cluster. The clock, the parsing of ISO timestamps and
  of floats, and \<^verbatim>\<open>str\<close> of a container are the fields of an environment. A timestamp is its wall-clock
  seconds and its UTC offset, when it has one.
\<close>

record inventory_env =
  ie_now :: rat
  ie_iso :: "string \<Rightarrow> (rat \<times> rat option) option"
  ie_float :: "string \<Rightarrow> float_value option"
  ie_str :: "json \<Rightarrow> string"

definition STALE_AGE_S :: rat where
  "STALE_AGE_S = 1000000000"

section \<open>Helpers\<close>

definition age_seconds :: "inventory_env \<Rightarrow> json \<Rightarrow> rat res" where
  "age_seconds env ts =
     (if \<not> truthy ts then Inr STALE_AGE_S
      else case ts of
        JStr s \<Rightarrow>
          (case ie_iso env (concat (map (\<lambda>c. if c = CHR ''Z'' then ''+00:00'' else [c]) s)) of
             None \<Rightarrow> Inr STALE_AGE_S
           | Some (t, offset) \<Rightarrow>
               let utc = (case offset of None \<Rightarrow> t | Some d \<Rightarrow> t - d) in
               Inr (max 0 (fl (ie_now env - utc))))
      | _ \<Rightarrow> Inl AttributeError)"

definition new_cluster :: "string \<Rightarrow> rat \<Rightarrow> planner_cluster" where
  "new_cluster name weight =
     \<lparr>pc_name = name, pc_weight = weight, pc_max_replicas = None, pc_depth = 0, pc_ready = 0, pc_claims = None,
      pc_p90 = None, pc_pressure = None, pc_age = 0, pc_planned = 0\<rparr>"

definition add_placeholder :: "planner_registry \<Rightarrow> string \<times> rat \<Rightarrow> planner_registry" where
  "add_placeholder reg named =
     (if dict_get (rg_clusters reg) (fst named) \<noteq> None then reg
      else reg\<lparr>rg_clusters := dict_set (fst named) ((new_cluster (fst named) (snd named))\<lparr>pc_age := STALE_AGE_S\<rparr>) (rg_clusters reg)\<rparr>)"

definition stale_placeholders :: "(string, rat) dict \<Rightarrow> planner_registry \<Rightarrow> planner_registry" where
  "stale_placeholders weights reg = foldl add_placeholder reg weights"

definition empty_registry :: planner_registry where
  "empty_registry = \<lparr>rg_clusters = [], rg_max_age = 90\<rparr>"

text \<open>The built-in \<^verbatim>\<open>int\<close> and \<^verbatim>\<open>float\<close> on a JSON value, and \<^verbatim>\<open>str\<close>.\<close>

definition py_int :: "json \<Rightarrow> int res" where
  "py_int j =
     (case j of
        JInt n \<Rightarrow> Inr n
      | JBool b \<Rightarrow> Inr (if b then 1 else 0)
      | JFloat (Finite r) \<Rightarrow> Inr (trunc_int r)
      | JFloat NaN \<Rightarrow> Inl ValueError
      | JFloat _ \<Rightarrow> Inl OverflowError
      | JStr s \<Rightarrow> (case parse_int s of None \<Rightarrow> Inl ValueError | Some n \<Rightarrow> Inr n)
      | _ \<Rightarrow> Inl TypeError)"

definition float_of_json :: "inventory_env \<Rightarrow> json \<Rightarrow> float_value res" where
  "float_of_json env j =
     (case j of
        JInt n \<Rightarrow> Inr (Finite (fl (of_int n)))
      | JBool b \<Rightarrow> Inr (Finite (if b then 1 else 0))
      | JFloat v \<Rightarrow> Inr v
      | JStr s \<Rightarrow> (case ie_float env s of None \<Rightarrow> Inl ValueError | Some v \<Rightarrow> Inr v)
      | _ \<Rightarrow> Inl TypeError)"

definition py_str :: "inventory_env \<Rightarrow> json \<Rightarrow> string" where
  "py_str env j = (case j of JStr s \<Rightarrow> s | JNull \<Rightarrow> ''None'' | JBool b \<Rightarrow> (if b then ''True'' else ''False'')
     | JInt n \<Rightarrow> show_int n | _ \<Rightarrow> ie_str env j)"

text \<open>\<^verbatim>\<open>None if r.get(key) is None else conv(r[key])\<close>\<close>

definition optional_field :: "(json \<Rightarrow> 'a res) \<Rightarrow> (string, json) dict \<Rightarrow> string \<Rightarrow> 'a option res" where
  "optional_field conv kvs key =
     (case dict_get kvs key of
        None \<Rightarrow> Inr None
      | Some JNull \<Rightarrow> Inr None
      | Some v \<Rightarrow> bindE (conv v) (\<lambda>x. Inr (Some x)))"

section \<open>Capacity reports\<close>

definition report_cluster :: "inventory_env \<Rightarrow> (string, rat) dict \<Rightarrow> string \<Rightarrow> (string, json) dict \<Rightarrow> planner_cluster res" where
  "report_cluster env weights cluster r =
     (let field = (\<lambda>key dflt. case dict_get r key of None \<Rightarrow> dflt | Some v \<Rightarrow> v) in
      bindE (py_int (field ''warmpool_depth'' (JInt 0))) (\<lambda>depth.
      bindE (py_int (field ''warmpool_ready'' (JInt 0))) (\<lambda>ready.
      bindE (optional_field py_int r ''active_claims'') (\<lambda>claims.
      bindE (optional_field (float_of_json env) r ''claim_p90_ms'') (\<lambda>p90.
      bindE (optional_field (float_of_json env) r ''node_pressure_score'') (\<lambda>pressure.
      bindE (age_seconds env (field ''updated_at'' JNull)) (\<lambda>age.
        Inr ((new_cluster cluster (case dict_get weights cluster of None \<Rightarrow> 1 | Some w \<Rightarrow> w))
          \<lparr>pc_depth := depth, pc_ready := ready, pc_claims := claims, pc_p90 := p90, pc_pressure := pressure,
           pc_age := age\<rparr>))))))))"

definition add_report :: "inventory_env \<Rightarrow> (string, rat) dict \<Rightarrow> planner_registry \<Rightarrow> json option \<Rightarrow> planner_registry res" where
  "add_report env weights reg report =
     (case report of
        Some (JObj r) \<Rightarrow>
          (case dict_get r ''cluster'' of
             Some (JStr cluster) \<Rightarrow>
               if cluster = [] then Inr reg
               else (case report_cluster env weights cluster r of
                       Inr c \<Rightarrow> Inr (reg\<lparr>rg_clusters := dict_set cluster c (rg_clusters reg)\<rparr>)
                     | Inl e \<Rightarrow> if e = TypeError \<or> e = ValueError then Inr reg else Inl e)
           | _ \<Rightarrow> Inr reg)
      | _ \<Rightarrow> Inr reg)"

fun read_reports :: "'w bucket \<Rightarrow> string list \<Rightarrow> ('w, json option list) request" where
  "read_reports api [] w = (Inr [], w)"
| "read_reports api (n # ns) w =
     (case get_json api n w of
        (Inl e, w1) \<Rightarrow> (Inl e, w1)
      | (Inr r, w1) \<Rightarrow>
          (case read_reports api ns w1 of
             (Inl e, w2) \<Rightarrow> (Inl e, w2)
           | (Inr rs, w2) \<Rightarrow> (Inr (r # rs), w2)))"

definition load_reports :: "inventory_env \<Rightarrow> (string, rat) dict \<Rightarrow> json option list \<Rightarrow> planner_registry res" where
  "load_reports env weights reports =
     bindE (foldE (add_report env weights) empty_registry reports) (\<lambda>reg. Inr (stale_placeholders weights reg))"

definition gcs_load :: "'w bucket \<Rightarrow> fleet_paths \<Rightarrow> inventory_env \<Rightarrow> (string, rat) dict \<Rightarrow> ('w, planner_registry) request" where
  "gcs_load api paths env weights w =
     (case list_prefix api (fp_capacity_prefix paths) w of
        (Inl e, w1) \<Rightarrow> (Inl e, w1)
      | (Inr names, w1) \<Rightarrow>
          (case read_reports api names w1 of
             (Inl e, w2) \<Rightarrow> (Inl e, w2)
           | (Inr reports, w2) \<Rightarrow> (load_reports env weights reports, w2)))"

section \<open>Cluster profiles\<close>

record profile_config =
  pf_cluster_manager :: "string option"
  pf_require_heartbeat :: bool

definition finite_prop :: "inventory_env \<Rightarrow> (string, string) dict \<Rightarrow> string \<Rightarrow> rat option" where
  "finite_prop env props key =
     (case dict_get props key of
        None \<Rightarrow> None
      | Some raw \<Rightarrow>
          if raw = [] then None
          else (case ie_float env raw of Some (Finite r) \<Rightarrow> Some r | _ \<Rightarrow> None))"

definition int_prop :: "inventory_env \<Rightarrow> (string, string) dict \<Rightarrow> string \<Rightarrow> int option" where
  "int_prop env props key = map_option trunc_int (finite_prop env props key)"

definition named_entries :: "string \<Rightarrow> (string \<Rightarrow> json \<Rightarrow> 'a res) \<Rightarrow> (json \<Rightarrow> string) \<Rightarrow> json \<Rightarrow> (string, 'a) dict res" where
  "named_entries key val str items =
     bindE (jiter (jor items (JList []))) (\<lambda>ps.
       foldE (\<lambda>out p. bindE (jget p key) (\<lambda>name.
         if name = JNull then Inr out else bindE (val (str name) p) (\<lambda>v. Inr (dict_set (str name) v out)))) [] ps)"

definition properties :: "inventory_env \<Rightarrow> json \<Rightarrow> (string, string) dict res" where
  "properties env status =
     bindE (jget status ''properties'')
       (named_entries ''name'' (\<lambda>_ p. bindE (jget_dflt p ''value'' (JStr [])) (\<lambda>v. Inr (py_str env v))) (py_str env))"

definition conditions :: "inventory_env \<Rightarrow> json \<Rightarrow> (string, json) dict res" where
  "conditions env status =
     bindE (jget status ''conditions'') (named_entries ''type'' (\<lambda>_ c. Inr c) (py_str env))"

definition weight_for :: "inventory_env \<Rightarrow> string \<Rightarrow> (string, rat) dict \<Rightarrow> (string, string) dict \<Rightarrow> rat" where
  "weight_for env name weights props =
     (case dict_get weights name of
        Some w \<Rightarrow> w
      | None \<Rightarrow> (case finite_prop env props ''agents.x-k8s.io/sandbox-capacity'' of
                  Some c \<Rightarrow> if 0 < c then c else 1
                | None \<Rightarrow> 1))"

definition condition_fails :: "inventory_env \<Rightarrow> (string, json) dict \<Rightarrow> string \<Rightarrow> bool res" where
  "condition_fails env conds ctype =
     (case dict_get conds ctype of
        None \<Rightarrow> Inr False
      | Some cond \<Rightarrow> bindE (jget cond ''status'') (\<lambda>s. Inr (py_str env s \<noteq> ''True'')))"

text \<open>The age, and whether the cluster joins the set of clusters without a heartbeat.\<close>

definition freshness :: "inventory_env \<Rightarrow> profile_config \<Rightarrow> (string, string) dict \<Rightarrow> (string, json) dict \<Rightarrow> (rat \<times> bool) res" where
  "freshness env cfg props conds =
     bindE (condition_fails env conds ''ControlPlaneHealthy'') (\<lambda>unhealthy.
     if unhealthy then Inr (STALE_AGE_S, False)
     else bindE (condition_fails env conds ''Joined'') (\<lambda>unjoined.
     if unjoined then Inr (STALE_AGE_S, False)
     else case dict_get props ''agents.x-k8s.io/heartbeat'' of
       Some (c # cs) \<Rightarrow> bindE (age_seconds env (JStr (c # cs))) (\<lambda>age. Inr (age, False))
     | _ \<Rightarrow>
         if pf_require_heartbeat cfg then Inr (STALE_AGE_S, False)
         else if dict_get conds ''ControlPlaneHealthy'' = None then Inr (STALE_AGE_S, False)
         else Inr (0, True)))"

definition to_planner_cluster ::
  "inventory_env \<Rightarrow> profile_config \<Rightarrow> (string, rat) dict \<Rightarrow> json \<Rightarrow> (planner_cluster \<times> bool) option res"
where
  "to_planner_cluster env cfg weights profile =
     bindE (jget profile ''metadata'') (\<lambda>md.
     bindE (jget (jor md (JObj [])) ''name'') (\<lambda>jname.
     if \<not> truthy jname then Inr None
     else let name = py_str env jname in
       bindE (jget profile ''status'') (\<lambda>st.
       let status = jor st (JObj []) in
       bindE (properties env status) (\<lambda>props.
       bindE (conditions env status) (\<lambda>conds.
       bindE (freshness env cfg props conds) (\<lambda>(age, warned).
         let int0 = (\<lambda>key. case int_prop env props key of None \<Rightarrow> 0 | Some n \<Rightarrow> n) in
         Inr (Some ((new_cluster name (weight_for env name weights props))
           \<lparr>pc_max_replicas := (case int_prop env props ''agents.x-k8s.io/max-replicas'' of
                                 Some m \<Rightarrow> if 0 < m then Some m else None | None \<Rightarrow> None),
            pc_depth := int0 ''agents.x-k8s.io/warmpool-depth'',
            pc_ready := int0 ''agents.x-k8s.io/warmpool-ready'',
            pc_claims := int_prop env props ''agents.x-k8s.io/active-claims'',
            pc_p90 := map_option Finite (finite_prop env props ''agents.x-k8s.io/claim-p90-ms''),
            pc_pressure := map_option Finite (finite_prop env props ''agents.x-k8s.io/node-pressure-score''),
            pc_age := age\<rparr>, warned))))))))"

definition add_profile ::
  "inventory_env \<Rightarrow> profile_config \<Rightarrow> (string, rat) dict \<Rightarrow> planner_registry \<times> string list \<Rightarrow> json
    \<Rightarrow> (planner_registry \<times> string list) res"
where
  "add_profile env cfg weights acc profile =
     bindE (to_planner_cluster env cfg weights profile) (\<lambda>r. case r of
       None \<Rightarrow> Inr acc
     | Some (c, warned) \<Rightarrow>
         Inr ((fst acc)\<lparr>rg_clusters := dict_set (pc_name c) c (rg_clusters (fst acc))\<rparr>,
              if warned then List.insert (pc_name c) (snd acc) else snd acc))"

definition list_profiles :: "(string option \<Rightarrow> ('w, json) request) \<Rightarrow> profile_config \<Rightarrow> ('w, json list) request" where
  "list_profiles hub cfg w =
     (let selector = (case pf_cluster_manager cfg of
                        Some (c # cs) \<Rightarrow> Some (''x-k8s.io/cluster-manager='' @ c # cs) | _ \<Rightarrow> None) in
      case hub selector w of
        (Inl e, w1) \<Rightarrow> (Inl e, w1)
      | (Inr resp, w1) \<Rightarrow> (bindE (jget_dflt resp ''items'' (JList [])) jiter, w1))"

definition profile_load ::
  "(string option \<Rightarrow> ('w, json) request) \<Rightarrow> inventory_env \<Rightarrow> profile_config \<Rightarrow> (string, rat) dict \<Rightarrow> string list
    \<Rightarrow> ('w, planner_registry \<times> string list) request"
where
  "profile_load hub env cfg weights warned w =
     (case list_profiles hub cfg w of
        (Inl e, w1) \<Rightarrow> (Inl e, w1)
      | (Inr profiles, w1) \<Rightarrow>
          (bindE (foldE (add_profile env cfg weights) (empty_registry, warned) profiles) (\<lambda>(reg, ws).
             Inr (stale_placeholders weights reg, ws)), w1))"

section \<open>The registry is well formed\<close>

lemma foldE_inv:
  assumes "\<And>acc x acc'. P acc \<Longrightarrow> x \<in> set xs \<Longrightarrow> f acc x = Inr acc' \<Longrightarrow> P acc'"
  shows "P acc \<Longrightarrow> foldE f acc xs = Inr r \<Longrightarrow> P r"
  using assms
proof (induction xs arbitrary: acc)
  case (Cons x xs)
  from Cons.prems(2) obtain acc' where a: "f acc x = Inr acc'" "foldE f acc' xs = Inr r" by (auto simp: bindE_eq_Inr)
  show ?case by (rule Cons.IH [OF Cons.prems(3) a(2)]) (use Cons.prems a(1) in auto)
qed simp

lemma foldl_inv: "(\<And>acc x. P acc \<Longrightarrow> x \<in> set xs \<Longrightarrow> P (f acc x)) \<Longrightarrow> P acc \<Longrightarrow> P (foldl f acc xs)"
  by (induction xs arbitrary: acc) auto

lemma in_dict_set: "dict_ok d \<Longrightarrow> (k', v') \<in> set (dict_set k v d) \<Longrightarrow> (k', v') = (k, v) \<or> k' \<noteq> k \<and> (k', v') \<in> set d"
  by (metis dict_get_in dict_get_set dict_in_get dict_ok_set fun_upd_apply option.inject)

lemma registry_ok_set:
  "registry_ok reg \<Longrightarrow> pc_name c = k \<Longrightarrow> registry_ok (reg\<lparr>rg_clusters := dict_set k c (rg_clusters reg)\<rparr>)"
  by (auto simp: registry_ok_def list_all_iff dest: in_dict_set)

lemma new_cluster_name [simp]: "pc_name (new_cluster n w) = n"
  by (simp add: new_cluster_def)

lemma report_cluster_name: "report_cluster env weights k r = Inr c \<Longrightarrow> pc_name c = k \<and> pc_planned c = 0"
  by (auto simp: report_cluster_def Let_def bindE_eq_Inr new_cluster_def)

text \<open>An entry of the registry comes from a report or stands for a silent cluster.\<close>

definition sourced :: "inventory_env \<Rightarrow> (string, rat) dict \<Rightarrow> json option list \<Rightarrow> planner_registry \<Rightarrow> bool" where
  "sourced env weights reports reg \<longleftrightarrow> registry_ok reg \<and> rg_max_age reg = 90
     \<and> (\<forall>(k, c) \<in> set (rg_clusters reg). pc_age c = STALE_AGE_S
          \<or> (\<exists>r. Some (JObj r) \<in> set reports \<and> dict_get r ''cluster'' = Some (JStr k) \<and> report_cluster env weights k r = Inr c))"

lemma sourced_set:
  assumes "sourced env weights reports reg" and "pc_name c = k"
    and "pc_age c = STALE_AGE_S \<or> (\<exists>r. Some (JObj r) \<in> set reports \<and> dict_get r ''cluster'' = Some (JStr k)
      \<and> report_cluster env weights k r = Inr c)"
  shows "sourced env weights reports (reg\<lparr>rg_clusters := dict_set k c (rg_clusters reg)\<rparr>)"
proof -
  have ok: "dict_ok (rg_clusters reg)" using assms(1) by (simp add: sourced_def registry_ok_def)
  show ?thesis using assms registry_ok_set [OF _ assms(2)] in_dict_set [OF ok] unfolding sourced_def by fastforce
qed

lemma sourced_empty: "sourced env weights reports empty_registry"
  by (simp add: sourced_def registry_ok_def empty_registry_def)

lemma add_report_sourced:
  "sourced env weights reports reg \<Longrightarrow> x \<in> set reports \<Longrightarrow> add_report env weights reg x = Inr reg' \<Longrightarrow>
     sourced env weights reports reg'"
  by (auto simp: add_report_def dest: report_cluster_name split: option.splits json.splits if_splits sum.splits
      intro!: sourced_set)

lemma stale_placeholders_sourced:
  "sourced env weights reports reg \<Longrightarrow> sourced env weights reports (stale_placeholders ws reg)"
  unfolding stale_placeholders_def
  by (rule foldl_inv) (auto simp: add_placeholder_def intro!: sourced_set split: if_splits)

lemma add_placeholder_keys: "fst ` set (rg_clusters (add_placeholder reg x)) = insert (fst x) (fst ` set (rg_clusters reg))"
  by (auto simp: add_placeholder_def map_of_eq_None_iff)

lemma stale_placeholders_keys:
  "fst ` set (rg_clusters (stale_placeholders ws reg)) = fst ` set (rg_clusters reg) \<union> fst ` set ws"
  unfolding stale_placeholders_def
  by (induction ws arbitrary: reg) (auto simp: add_placeholder_keys)


text \<open>A fresh report of \<open>a\<close>, a malformed one of \<open>b\<close>, and a weight for a cluster that never reported.\<close>

definition sim_inventory_env :: inventory_env where
  "sim_inventory_env = \<lparr>ie_now = 1000, ie_iso = (\<lambda>s. if s = ''t990'' then Some (990, None) else None),
     ie_float = (\<lambda>_. None), ie_str = (\<lambda>_. [])\<rparr>"

definition sim_reports :: "json option list" where
  "sim_reports =
     [Some (JObj [(''cluster'', JStr ''a''), (''warmpool_depth'', JInt 4), (''updated_at'', JStr ''t990'')]),
      Some (JObj [(''cluster'', JStr ''b''), (''warmpool_depth'', JList [])]), None]"

lemma sim_load:
  "load_reports sim_inventory_env [(''a'', 2), (''c'', 1)] sim_reports =
     Inr \<lparr>rg_clusters = [(''a'', (new_cluster ''a'' 2)\<lparr>pc_depth := 4, pc_age := 10\<rparr>),
                          (''c'', (new_cluster ''c'' 1)\<lparr>pc_age := STALE_AGE_S\<rparr>)], rg_max_age = 90\<rparr>"
proof -
  have "fl 10 = 10" using fl_int [of 10] by simp
  then show ?thesis
    by (simp add: load_reports_def sim_reports_def add_report_def report_cluster_def Let_def optional_field_def py_int_def
        age_seconds_def sim_inventory_env_def stale_placeholders_def add_placeholder_def
        empty_registry_def new_cluster_def)
qed


end
