(* ===== verification/Fleet_Planner.thy ===== *)
theory Fleet_Planner
  imports Fleet_Inventory Claim_Validation
begin

text \<open>
  The planner of the fleet (\<^verbatim>\<open>planner.py\<close>): the fleet specification and its validators, \<^verbatim>\<open>plan\<close> with its three
  placement modes and the freezing of silent clusters, and the compare-and-set publication of a plan.
  Clocks, MD5, float summation and the validation of a carried-over pool by \<^verbatim>\<open>pydantic\<close> are the fields of
  an environment.
\<close>

section \<open>Wire types\<close>

record model_spec =
  ms_image :: "string option"
  ms_template :: string
  ms_tasks :: int
  ms_cluster :: "string option"

record fleet_spec =
  fs_schema :: int
  fs_generation :: "int option"
  fs_max_concurrent :: int
  fs_max_pool :: int
  fs_policy :: string
  fs_weights :: "(string, float_value) dict"
  fs_models :: "model_spec list"
  fs_min_clusters :: int
  fs_stale_window :: int

record assignment_pool =
  ap_image :: "string option"
  ap_template :: string
  ap_warmpool :: string
  ap_replicas :: int

record cluster_assignment =
  ca_pools :: "assignment_pool list"
  ca_stale_since :: "string option"

record assignments =
  as_schema :: int
  as_generation :: int
  as_updated_at :: string
  as_clusters :: "(string, cluster_assignment) dict"

definition SCHEMA_VERSION :: int where
  "SCHEMA_VERSION = 1"

definition warmpool_name :: "string \<Rightarrow> string" where
  "warmpool_name template = template @ ''-pool''"

definition template_name_ok :: "string \<Rightarrow> bool" where
  "template_name_ok v \<longleftrightarrow> \<not> (length (warmpool_name v) > 253 \<or> \<not> re_match DNS1123_SUBDOMAIN_RE (warmpool_name v))"

definition validate_model :: "model_spec \<Rightarrow> bool" where
  "validate_model m \<longleftrightarrow> template_name_ok (ms_template m) \<and> 0 < ms_tasks m"

text \<open>Construction of a \<^verbatim>\<open>FleetSpec\<close>: the field constraints and validators; the generation is discarded.\<close>

definition validate_spec :: "fleet_spec \<Rightarrow> fleet_spec res" where
  "validate_spec s =
     (if fs_schema s = SCHEMA_VERSION \<and> 0 < fs_max_concurrent s \<and> 0 < fs_max_pool s
         \<and> list_all (weight_ok \<circ> snd) (fs_weights s) \<and> list_all validate_model (fs_models s)
         \<and> 0 \<le> fs_min_clusters s \<and> 0 \<le> fs_stale_window s
      then Inr (s\<lparr>fs_generation := None\<rparr>) else Inl ValueError)"

definition opt_json :: "string option \<Rightarrow> json" where
  "opt_json s = (case s of None \<Rightarrow> JNull | Some x \<Rightarrow> JStr x)"

definition pool_json :: "assignment_pool \<Rightarrow> json" where
  "pool_json p = JObj [(''image'', opt_json (ap_image p)), (''template'', JStr (ap_template p)),
     (''warmpool'', JStr (ap_warmpool p)), (''replicas'', JInt (ap_replicas p))]"

definition cluster_json :: "cluster_assignment \<Rightarrow> json" where
  "cluster_json ca = JObj [(''pools'', JList (map pool_json (ca_pools ca))), (''stale_since'', opt_json (ca_stale_since ca))]"

definition assignments_json :: "assignments \<Rightarrow> json" where
  "assignments_json a = JObj [(''schema_version'', JInt (as_schema a)), (''generation'', JInt (as_generation a)),
     (''updated_at'', JStr (as_updated_at a)), (''clusters'', JObj (map (\<lambda>(k, ca). (k, cluster_json ca)) (as_clusters a)))]"

definition model_json :: "model_spec \<Rightarrow> json" where
  "model_json m = JObj [(''image'', opt_json (ms_image m)), (''template_name'', JStr (ms_template m)),
     (''target_tasks'', JInt (ms_tasks m)), (''cluster'', opt_json (ms_cluster m))]"

definition spec_json :: "fleet_spec \<Rightarrow> json" where
  "spec_json s = JObj [(''schema_version'', JInt (fs_schema s)), (''max_concurrent'', JInt (fs_max_concurrent s)),
     (''max_pool'', JInt (fs_max_pool s)), (''placement_policy'', JStr (fs_policy s)),
     (''cluster_weights'', JObj (map (\<lambda>(k, w). (k, JFloat w)) (fs_weights s))),
     (''models'', JList (map model_json (fs_models s))), (''min_clusters'', JInt (fs_min_clusters s)),
     (''stale_teardown_after_s'', JInt (fs_stale_window s))]"

section \<open>Placing the models\<close>

record planner_env =
  pe_fsum :: "rat list \<Rightarrow> rat"
  pe_md5 :: "string \<Rightarrow> nat"
  pe_now_iso :: string
  pe_iso_before :: "rat \<Rightarrow> string"
  pe_validate_pool :: "json \<Rightarrow> assignment_pool res"

text \<open>The registry with its bookkeeping, and the tasks and models of each chosen cluster.\<close>

record placed =
  pl_reg :: planner_registry
  pl_tasks :: "(string, int) dict"
  pl_models :: "(string, model_spec list) dict"

definition place :: "model_spec \<Rightarrow> string \<Rightarrow> placed \<Rightarrow> placed res" where
  "place m key st =
     bindE (registry_get (pl_reg st) key) (\<lambda>c.
       let name = pc_name c;
           tasks = (case dict_get (pl_tasks st) name of None \<Rightarrow> 0 | Some n \<Rightarrow> n);
           models = (case dict_get (pl_models st) name of None \<Rightarrow> [] | Some ms \<Rightarrow> ms);
           clusters = rg_clusters (pl_reg st) in
       Inr \<lparr>pl_reg = (pl_reg st)\<lparr>rg_clusters := dict_set key (c\<lparr>pc_planned := pc_planned c + 1\<rparr>) clusters\<rparr>,
            pl_tasks = dict_set name (tasks + ms_tasks m) (pl_tasks st),
            pl_models = dict_set name (models @ [m]) (pl_models st)\<rparr>)"

definition place_pinned :: "model_spec list \<Rightarrow> placed \<Rightarrow> placed res" where
  "place_pinned models st = foldE (\<lambda>s m. place m (the (ms_cluster m)) s) st models"

definition place_round_robin :: "string list \<Rightarrow> nat \<Rightarrow> model_spec list \<Rightarrow> placed \<Rightarrow> placed res" where
  "place_round_robin elig n models st =
     foldE (\<lambda>s (i, m). place m (elig ! (i mod n)) s) st (enumerate 0 models)"

fun place_spread :: "planner_env \<Rightarrow> string list \<Rightarrow> nat \<Rightarrow> selector \<Rightarrow> model_spec list \<Rightarrow> placed \<Rightarrow> placed res" where
  "place_spread env elig i sel [] st = Inr st"
| "place_spread env elig i sel (m # ms) st =
     (if i < length elig
      then bindE (place m (elig ! i) st) (\<lambda>st'. place_spread env elig (Suc i) sel ms st')
      else bindE (select (pe_fsum env) (pe_md5 env) sel (ms_image m) (pl_reg st)) (\<lambda>(key, sel').
           bindE (place m key st) (\<lambda>st'. place_spread env elig (Suc i) sel' ms st')))"

definition place_models :: "planner_env \<Rightarrow> fleet_spec \<Rightarrow> selector \<Rightarrow> string list \<Rightarrow> planner_registry \<Rightarrow> placed res" where
  "place_models env spec sel elig reg =
     (let st = \<lparr>pl_reg = reg, pl_tasks = [], pl_models = []\<rparr> in
      if elig = [] then Inr st
      else if fs_policy spec = ''pinned'' then place_pinned (fs_models spec) st
      else if 0 < fs_min_clusters spec
      then place_round_robin elig (nat (min (fs_min_clusters spec) (int (length elig)))) (fs_models spec) st
      else place_spread env elig 0 sel (fs_models spec) st)"

definition check_policy :: "fleet_spec \<Rightarrow> string list \<Rightarrow> unit res" where
  "check_policy spec elig_names =
     (if fs_policy spec = ''image-affinity'' \<and> list_ex (\<lambda>m. ms_image m = None \<or> ms_image m = Some []) (fs_models spec)
      then Inl ValueError
      else if fs_policy spec = ''pinned'' \<and> list_ex (\<lambda>m. ms_cluster m = None \<or> ms_cluster m = Some []) (fs_models spec)
      then Inl ValueError
      else if fs_policy spec = ''pinned'' \<and> list_ex (\<lambda>m. the (ms_cluster m) \<notin> set elig_names) (fs_models spec)
      then Inl NoClusterAvailableError
      else Inr ())"

section \<open>The plan\<close>

definition size_cluster :: "fleet_spec \<Rightarrow> (string, int) dict \<Rightarrow> placed \<Rightarrow> string \<times> model_spec list \<Rightarrow> string \<times> cluster_assignment" where
  "size_cluster spec budget st entry =
     (let cname = fst entry;
          tasks_total = (case dict_get (pl_tasks st) cname of None \<Rightarrow> 0 | Some n \<Rightarrow> n);
          mc = (case dict_get budget cname of None \<Rightarrow> 0 | Some n \<Rightarrow> n) in
      (cname, \<lparr>ca_pools = map (\<lambda>m. \<lparr>ap_image = ms_image m, ap_template = ms_template m,
                 ap_warmpool = warmpool_name (ms_template m),
                 ap_replicas = compute_replicas (ms_tasks m) tasks_total mc (fs_max_pool spec) 0 False\<rparr>) (snd entry),
               ca_stale_since = None\<rparr>))"

definition previous_entry :: "json \<Rightarrow> (json list \<times> json) res" where
  "previous_entry body0 =
     (let body = jor body0 (JObj []) in
      bindE (jget body ''pools'') (\<lambda>pools.
      bindE (jiter (jor pools (JList []))) (\<lambda>ps.
      bindE (jget body ''stale_since'') (\<lambda>since. Inr (ps, since)))))"

definition previous_entries :: "json option \<Rightarrow> (string, json list \<times> json) dict res" where
  "previous_entries previous =
     (case previous of
        None \<Rightarrow> Inr []
      | Some p \<Rightarrow>
          bindE (jget p ''clusters'') (\<lambda>cs.
          case jor cs (JObj []) of
            JObj kvs \<Rightarrow> foldE (\<lambda>out kv. bindE (previous_entry (snd kv)) (\<lambda>e. Inr (dict_set (fst kv) e out))) [] kvs
          | _ \<Rightarrow> Inl AttributeError))"

definition is_stale :: "planner_registry \<Rightarrow> planner_cluster \<Rightarrow> bool" where
  "is_stale reg c \<longleftrightarrow> rg_max_age reg < pc_age c"

definition past_window :: "fleet_spec \<Rightarrow> planner_cluster \<Rightarrow> bool" where
  "past_window spec c \<longleftrightarrow> 0 < fs_stale_window spec \<and> pc_age c < STALE_AGE_S \<and> of_int (fs_stale_window spec) < pc_age c"

definition freezes :: "fleet_spec \<Rightarrow> planner_registry \<Rightarrow> planner_cluster \<Rightarrow> json list \<Rightarrow> bool" where
  "freezes spec reg c prev_pools \<longleftrightarrow>
     is_stale reg c \<and> 0 < pc_weight c \<and> fs_models spec \<noteq> [] \<and> prev_pools \<noteq> [] \<and> \<not> past_window spec c"

definition frozen_since :: "planner_env \<Rightarrow> planner_cluster \<Rightarrow> json \<Rightarrow> json" where
  "frozen_since env c prev_since =
     (if truthy prev_since then prev_since
      else if STALE_AGE_S \<le> pc_age c then JStr (pe_now_iso env)
      else JStr (pe_iso_before env (pc_age c)))"

definition freeze_cluster :: "planner_env \<Rightarrow> planner_cluster \<Rightarrow> json list \<Rightarrow> json \<Rightarrow> cluster_assignment res" where
  "freeze_cluster env c prev_pools prev_since =
     bindE (mapE (pe_validate_pool env) prev_pools) (\<lambda>pools.
       case frozen_since env c prev_since of
         JStr since \<Rightarrow> Inr \<lparr>ca_pools = pools, ca_stale_since = Some since\<rparr>
       | _ \<Rightarrow> Inl ValueError)"

text \<open>The entry of a cluster that received no model.\<close>

definition idle_entry ::
  "planner_env \<Rightarrow> fleet_spec \<Rightarrow> planner_registry \<Rightarrow> (string, json list \<times> json) dict \<Rightarrow> string \<times> planner_cluster
    \<Rightarrow> cluster_assignment res"
where
  "idle_entry env spec reg prev entry =
     (let (prev_pools, prev_since) = (case dict_get prev (fst entry) of None \<Rightarrow> ([], JNull) | Some e \<Rightarrow> e) in
      if freezes spec reg (snd entry) prev_pools then freeze_cluster env (snd entry) prev_pools prev_since
      else Inr \<lparr>ca_pools = [], ca_stale_since = None\<rparr>)"

definition fill_cluster ::
  "planner_env \<Rightarrow> fleet_spec \<Rightarrow> planner_registry \<Rightarrow> (string, json list \<times> json) dict
    \<Rightarrow> (string, cluster_assignment) dict \<Rightarrow> string \<times> planner_cluster \<Rightarrow> (string, cluster_assignment) dict res"
where
  "fill_cluster env spec reg prev clusters entry =
     (if dict_get clusters (fst entry) \<noteq> None then Inr clusters
      else bindE (idle_entry env spec reg prev entry) (\<lambda>ca. Inr (dict_set (fst entry) ca clusters)))"

definition eligible_names :: "planner_registry \<Rightarrow> string list" where
  "eligible_names reg = map fst (sort_key (pc_name \<circ> snd) (registry_eligible reg))"

definition plan :: "planner_env \<Rightarrow> fleet_spec \<Rightarrow> planner_registry \<Rightarrow> int \<Rightarrow> json option \<Rightarrow> assignments res" where
  "plan env spec reg generation previous =
     bindE (get_placement (fs_policy spec)) (\<lambda>sel.
     let elig = eligible_names reg in
     bindE (check_policy spec (map (pc_name \<circ> snd) (registry_eligible reg))) (\<lambda>_.
     if registry_fresh reg = [] \<and> fs_models spec \<noteq> [] then Inl NoClusterAvailableError
     else bindE (place_models env spec sel elig reg) (\<lambda>st.
       bindE (mapE (\<lambda>(name, _). bindE (registry_get (pl_reg st) name) (\<lambda>c. Inr (name, Finite (pc_weight c)))) (pl_tasks st)) (\<lambda>weights.
       bindE (hamilton_split (pe_fsum env) (fs_max_concurrent spec) weights) (\<lambda>budget.
       bindE (previous_entries previous) (\<lambda>prev.
       bindE (foldE (fill_cluster env spec reg prev) (map (size_cluster spec budget st) (pl_models st)) (rg_clusters (pl_reg st))) (\<lambda>clusters.
         Inr \<lparr>as_schema = SCHEMA_VERSION, as_generation = generation, as_updated_at = pe_now_iso env,
              as_clusters = clusters\<rparr>)))))))"

section \<open>Publication\<close>

definition next_generation :: "int \<Rightarrow> int option \<Rightarrow> int res" where
  "next_generation current override =
     (case override of
        None \<Rightarrow> Inr (current + 1)
      | Some g \<Rightarrow> if g \<le> current then Inl ValueError else Inr g)"

text \<open>\<^verbatim>\<open>==\<close> with the schema version, on JSON numbers.\<close>

definition known_schema :: "json \<Rightarrow> bool" where
  "known_schema j \<longleftrightarrow> j = JInt SCHEMA_VERSION \<or> j = JFloat (Finite (of_int SCHEMA_VERSION)) \<or> j = JBool True"

definition read_published_payload :: "'w bucket \<Rightarrow> fleet_paths \<Rightarrow> ('w, json option \<times> int) request" where
  "read_published_payload api paths w =
     (case get_json_with_generation api (fp_assignments paths) w of
        (Inl e, w1) \<Rightarrow> (Inl e, w1)
      | (Inr (raw, store_gen), w1) \<Rightarrow>
          (if raw = None \<or> raw = Some JNull then Inr (None, 0)
           else bindE (jget_dflt (the raw) ''schema_version'' (JInt SCHEMA_VERSION)) (\<lambda>v.
             if known_schema v then Inr (raw, store_gen) else Inl ValueError), w1))"

definition published_generation :: "json option \<Rightarrow> int res" where
  "published_generation previous =
     (case previous of
        None \<Rightarrow> Inr 0
      | Some p \<Rightarrow> if truthy p then bindE (jget_dflt p ''generation'' (JInt 0)) py_int else Inr 0)"

definition read_published :: "'w bucket \<Rightarrow> fleet_paths \<Rightarrow> ('w, int \<times> int) request" where
  "read_published api paths w =
     (case read_published_payload api paths w of
        (Inl e, w1) \<Rightarrow> (Inl e, w1)
      | (Inr (None, _), w1) \<Rightarrow> (Inr (0, 0), w1)
      | (Inr (Some raw, store_gen), w1) \<Rightarrow>
          (bindE (bindE (jget_dflt raw ''generation'' (JInt 0)) py_int) (\<lambda>g. Inr (g, store_gen)), w1))"

definition publish :: "'w bucket \<Rightarrow> fleet_paths \<Rightarrow> assignments \<Rightarrow> int option \<Rightarrow> ('w, unit) request" where
  "publish api paths a if_generation_match w = put_json api (fp_assignments paths) (assignments_json a) if_generation_match w"

text \<open>\<^verbatim>\<open>FleetSpec.cluster_weights\<close>, finite since the validator ran.\<close>

definition spec_weights :: "fleet_spec \<Rightarrow> (string, rat) dict" where
  "spec_weights spec = map (\<lambda>(k, w). (k, finite_val w)) (fs_weights spec)"

definition archive_spec :: "'w bucket \<Rightarrow> fleet_paths \<Rightarrow> fleet_spec \<Rightarrow> int \<Rightarrow> ('w, unit) request" where
  "archive_spec api paths spec gen w =
     (case spec_json spec of
        JObj kvs \<Rightarrow> put_json api (fp_spec paths) (JObj (kvs @ [(''applied_generation'', JInt gen)])) None w
      | _ \<Rightarrow> (Inl TypeError, w))"

text \<open>\<^verbatim>\<open>apply\<close>, from the point where the published payload has been read.\<close>

definition apply_loaded ::
  "'w bucket \<Rightarrow> fleet_paths \<Rightarrow> planner_env \<Rightarrow> ((string, rat) dict \<Rightarrow> ('w, planner_registry) request)
    \<Rightarrow> fleet_spec \<Rightarrow> int option \<Rightarrow> json option \<Rightarrow> int \<Rightarrow> ('w, assignments) request"
where
  "apply_loaded api paths env load spec generation previous store_gen w =
     (case bindE (published_generation previous) (\<lambda>g. next_generation g generation) of
        Inl e \<Rightarrow> (Inl e, w)
      | Inr gen \<Rightarrow>
          (case load (spec_weights spec) w of
             (Inl e, w1) \<Rightarrow> (Inl e, w1)
           | (Inr reg, w1) \<Rightarrow>
               (case plan env spec reg gen previous of
                  Inl e \<Rightarrow> (Inl e, w1)
                | Inr a \<Rightarrow>
                    (case publish api paths a (Some store_gen) w1 of
                       (Inl e, w2) \<Rightarrow> (Inl e, w2)
                     | (Inr _, w2) \<Rightarrow>
                         (case archive_spec api paths spec gen w2 of
                            (Inl e, w3) \<Rightarrow> (Inl e, w3)
                          | (Inr _, w3) \<Rightarrow> (Inr a, w3))))))"

definition apply_spec ::
  "'w bucket \<Rightarrow> fleet_paths \<Rightarrow> planner_env \<Rightarrow> ((string, rat) dict \<Rightarrow> ('w, planner_registry) request)
    \<Rightarrow> fleet_spec \<Rightarrow> int option \<Rightarrow> ('w, assignments) request"
where
  "apply_spec api paths env load spec generation w =
     (case read_published_payload api paths w of
        (Inl e, w1) \<Rightarrow> (Inl e, w1)
      | (Inr (previous, store_gen), w1) \<Rightarrow> apply_loaded api paths env load spec generation previous store_gen w1)"

section \<open>Placement conserves the models\<close>

text \<open>Two registries that differ only in the planner's bookkeeping.\<close>

definition unplanned :: "planner_registry \<Rightarrow> (string, planner_cluster) dict" where
  "unplanned reg = map (\<lambda>(k, c). (k, c\<lparr>pc_planned := 0\<rparr>)) (rg_clusters reg)"

abbreviation same_clusters :: "planner_registry \<Rightarrow> planner_registry \<Rightarrow> bool" where
  "same_clusters r s \<equiv> unplanned r = unplanned s \<and> rg_max_age r = rg_max_age s"

lemma map_dict_set: "map (\<lambda>(k, c). (k, f c)) (dict_set k c d) = dict_set k (f c) (map (\<lambda>(k, c). (k, f c)) d)"
  by (induction d) auto

lemma unplanned_bump:
  "dict_get (rg_clusters reg) k = Some c \<Longrightarrow>
     unplanned (reg\<lparr>rg_clusters := dict_set k (c\<lparr>pc_planned := n\<rparr>) (rg_clusters reg)\<rparr>) = unplanned reg"
  by (simp add: unplanned_def map_dict_set dict_set_same map_of_map)

lemma in_unplanned: "(k, c) \<in> set (rg_clusters reg) \<Longrightarrow> (k, c\<lparr>pc_planned := 0\<rparr>) \<in> set (unplanned reg)"
  by (force simp: unplanned_def)

lemma unplannedD: "(k, d) \<in> set (unplanned reg) \<Longrightarrow> \<exists>c. (k, c) \<in> set (rg_clusters reg) \<and> d = c\<lparr>pc_planned := 0\<rparr>"
  by (auto simp: unplanned_def)

lemma unplanned_keys: "map fst (unplanned reg) = map fst (rg_clusters reg)"
  by (simp add: unplanned_def comp_def split_def)

lemma planned_only:
  assumes "d\<lparr>pc_planned := 0\<rparr> = c\<lparr>pc_planned := (0 :: int)\<rparr>"
  shows "pc_name d = pc_name c \<and> pc_weight d = pc_weight c \<and> pc_age d = pc_age c"
  using arg_cong [OF assms, of pc_name] arg_cong [OF assms, of pc_weight] arg_cong [OF assms, of pc_age] by simp

lemma same_clusters_entry:
  assumes "same_clusters r s" and "(k, c) \<in> set (rg_clusters r)"
  obtains d where "(k, d) \<in> set (rg_clusters s)" and "pc_name d = pc_name c" and "pc_weight d = pc_weight c" and "pc_age d = pc_age c"
proof -
  have "(k, c\<lparr>pc_planned := 0\<rparr>) \<in> set (unplanned s)" using in_unplanned [OF assms(2)] assms(1) by simp
  then obtain d where "(k, d) \<in> set (rg_clusters s)" "d\<lparr>pc_planned := 0\<rparr> = c\<lparr>pc_planned := 0\<rparr>"
    using unplannedD by metis
  with planned_only [of d c] that show thesis by blast
qed

lemma same_clusters_sym: "same_clusters r s \<Longrightarrow> same_clusters s r"
  by simp

lemma same_clusters_ok:
  assumes "same_clusters r s" and "registry_ok r"
  shows "registry_ok s"
  unfolding registry_ok_def list_all_iff
proof (intro conjI ballI, safe)
  show "dict_ok (rg_clusters s)"
    using assms unplanned_keys [of r] unplanned_keys [of s] by (simp add: registry_ok_def)
  fix k c assume "(k, c) \<in> set (rg_clusters s)"
  with same_clusters_sym [OF assms(1)] obtain d where "(k, d) \<in> set (rg_clusters r)" "pc_name d = pc_name c"
    by (rule same_clusters_entry)
  then show "pc_name c = k" using registry_ok_name [OF assms(2)] by simp
qed

definition can_host :: "planner_registry \<Rightarrow> string \<Rightarrow> bool" where
  "can_host reg k \<longleftrightarrow> (\<exists>c. (k, c) \<in> set (registry_eligible reg))"

lemma same_clusters_can_host:
  assumes "same_clusters r s" and "can_host r k"
  shows "can_host s k"
proof -
  from assms(2) obtain c where c: "(k, c) \<in> set (registry_eligible r)" by (auto simp: can_host_def)
  then have "(k, c) \<in> set (rg_clusters r)" by (simp add: registry_eligible_iff)
  with assms(1) obtain d where "(k, d) \<in> set (rg_clusters s)" "pc_weight d = pc_weight c" "pc_age d = pc_age c"
    by (rule same_clusters_entry)
  with c assms(1) have "(k, d) \<in> set (registry_eligible s)" by (simp add: registry_eligible_iff)
  then show ?thesis by (auto simp: can_host_def)
qed

text \<open>What has been placed so far: the models \<open>done\<close>, each on a cluster that may host it.\<close>

definition placing :: "planner_registry \<Rightarrow> model_spec multiset \<Rightarrow> placed \<Rightarrow> bool" where
  "placing reg models st \<longleftrightarrow> same_clusters (pl_reg st) reg \<and> dict_ok (pl_models st)
     \<and> map fst (pl_tasks st) = map fst (pl_models st)
     \<and> (\<forall>(k, ms) \<in> set (pl_models st). can_host reg k \<and> ms \<noteq> []
          \<and> dict_get (pl_tasks st) k = Some (sum_list (map ms_tasks ms)))
     \<and> mset (concat (map snd (pl_models st))) = models"

lemma mset_concat_set:
  "dict_ok d \<Longrightarrow> mset (concat (map snd (dict_set k ((case dict_get d k of None \<Rightarrow> [] | Some ms \<Rightarrow> ms) @ [m]) d)))
     = add_mset m (mset (concat (map snd d)))"
  by (induction d) (auto split: option.splits)

lemma keys_dict_set: "map fst (dict_set k v d) = (if k \<in> fst ` set d then map fst d else map fst d @ [k])"
  by (induction d) auto

lemma place_placing:
  assumes "registry_ok reg" and "placing reg models st" and "can_host reg k" and "place m k st = Inr st'"
  shows "placing reg (add_mset m models) st'"
proof -
  let ?ms = "case dict_get (pl_models st) k of None \<Rightarrow> [] | Some ms \<Rightarrow> ms"
  let ?t = "case dict_get (pl_tasks st) k of None \<Rightarrow> 0 | Some n \<Rightarrow> n"
  have same: "same_clusters (pl_reg st) reg" and ok: "dict_ok (pl_models st)" "map fst (pl_tasks st) = map fst (pl_models st)"
    and each: "\<And>k ms. (k, ms) \<in> set (pl_models st) \<Longrightarrow> can_host reg k \<and> ms \<noteq> []
          \<and> dict_get (pl_tasks st) k = Some (sum_list (map ms_tasks ms))"
    and sum: "mset (concat (map snd (pl_models st))) = models"
    using assms(2) by (auto simp: placing_def)
  from assms(4) obtain c where c: "dict_get (rg_clusters (pl_reg st)) k = Some c"
    by (auto simp: place_def registry_get_def split: option.splits)
  have "registry_ok (pl_reg st)" using same_clusters_ok [OF same_clusters_sym [OF same] assms(1)] .
  then have name: "pc_name c = k" using registry_ok_name dict_get_in [OF c] by blast
  have st': "st' = \<lparr>pl_reg = (pl_reg st)\<lparr>rg_clusters := dict_set k (c\<lparr>pc_planned := pc_planned c + 1\<rparr>) (rg_clusters (pl_reg st))\<rparr>,
      pl_tasks = dict_set k (?t + ms_tasks m) (pl_tasks st), pl_models = dict_set k (?ms @ [m]) (pl_models st)\<rparr>"
    using assms(4) c name by (simp add: place_def registry_get_def Let_def)
  have keys: "fst ` set (pl_tasks st) = fst ` set (pl_models st)" using ok(2) by (metis set_map)
  have t: "?t = sum_list (map ms_tasks ?ms)"
  proof (cases "dict_get (pl_models st) k")
    case None
    then have "dict_get (pl_tasks st) k = None" using keys by (simp add: map_of_eq_None_iff)
    with None show ?thesis by simp
  next
    case (Some ms)
    then show ?thesis using each [OF dict_get_in [OF Some]] by simp
  qed
  have "can_host reg j \<and> ms \<noteq> [] \<and> dict_get (dict_set k (?t + ms_tasks m) (pl_tasks st)) j = Some (sum_list (map ms_tasks ms))"
    if "(j, ms) \<in> set (dict_set k (?ms @ [m]) (pl_models st))" for j ms
    using in_dict_set [OF ok(1) that] each [of j ms] assms(3) t by auto
  moreover have "map fst (dict_set k (?t + ms_tasks m) (pl_tasks st)) = map fst (dict_set k (?ms @ [m]) (pl_models st))"
    using ok(2) keys by (simp add: keys_dict_set)
  ultimately show ?thesis
    using same ok(1) mset_concat_set [OF ok(1), of k m] sum unplanned_bump [OF c] by (auto simp: st' placing_def)
qed

lemma eligible_names_set: "k \<in> set (eligible_names reg) \<longleftrightarrow> can_host reg k"
  by (force simp: eligible_names_def can_host_def)

lemma foldE_placing:
  assumes "registry_ok reg" and "placing reg models st"
    and "\<And>x. x \<in> set xs \<Longrightarrow> can_host reg (key x)"
    and "foldE (\<lambda>s x. place (model x) (key x) s) st xs = Inr st'"
  shows "placing reg (models + mset (map model xs)) st'"
  using assms(2-)
proof (induction xs arbitrary: models st)
  case (Cons x xs)
  from Cons.prems(3) obtain s where s: "place (model x) (key x) st = Inr s" "foldE (\<lambda>s x. place (model x) (key x) s) s xs = Inr st'"
    by (auto simp: bindE_eq_Inr)
  have "placing reg (add_mset (model x) models) s"
    by (rule place_placing [OF assms(1) Cons.prems(1) _ s(1)]) (simp add: Cons.prems(2))
  from Cons.IH [OF this _ s(2)] Cons.prems(2) show ?case by simp
qed simp

lemma placing_select:
  assumes "registry_ok reg" and "placing reg models st" and "select f h sel img (pl_reg st) = Inr (k, sel')"
  shows "can_host reg k"
proof -
  have same: "same_clusters (pl_reg st) reg" using assms(2) by (simp add: placing_def)
  have "registry_ok (pl_reg st)" by (rule same_clusters_ok [OF same_clusters_sym [OF same] assms(1)])
  from select_placeable [OF this assms(3)] have "can_host (pl_reg st) k" by (auto simp: can_host_def)
  then show ?thesis by (rule same_clusters_can_host [OF same])
qed

lemma place_spread_placing:
  assumes "registry_ok reg" and "\<And>k. k \<in> set elig \<Longrightarrow> can_host reg k"
  shows "placing reg models st \<Longrightarrow> place_spread env elig i sel ms st = Inr st' \<Longrightarrow> placing reg (models + mset ms) st'"
proof (induction ms arbitrary: models st i sel)
  case (Cons m ms)
  obtain k sel' s where k: "can_host reg k" "place m k st = Inr s" "place_spread env elig (Suc i) sel' ms s = Inr st'"
  proof (cases "i < length elig")
    case True
    with Cons.prems(2) obtain s where "place m (elig ! i) st = Inr s" "place_spread env elig (Suc i) sel ms s = Inr st'"
      by (auto simp: bindE_eq_Inr)
    with that True assms(2) show thesis by (meson nth_mem)
  next
    case False
    with Cons.prems(2) obtain k sel' s where
      "select (pe_fsum env) (pe_md5 env) sel (ms_image m) (pl_reg st) = Inr (k, sel')"
      "place m k st = Inr s" "place_spread env elig (Suc i) sel' ms s = Inr st'"
      by (auto simp: bindE_eq_Inr)
    with that placing_select [OF assms(1) Cons.prems(1)] show thesis by blast
  qed
  from Cons.IH [OF place_placing [OF assms(1) Cons.prems(1) k(1,2)] k(3)] show ?case by simp
qed simp

lemma place_models_placing:
  assumes "registry_ok reg" and "check_policy spec (map (pc_name \<circ> snd) (registry_eligible reg)) = Inr ()"
    and "place_models env spec sel (eligible_names reg) reg = Inr st"
  shows "placing reg (if registry_eligible reg = [] then {#} else mset (fs_models spec)) st"
proof -
  let ?st = "\<lparr>pl_reg = reg, pl_tasks = [], pl_models = []\<rparr>" let ?e = "eligible_names reg"
  have p0: "placing reg {#} ?st" by (simp add: placing_def)
  have e: "?e = [] \<longleftrightarrow> registry_eligible reg = []"
    by (metis eligible_names_def length_0_conv length_map length_sort)
  note simps = place_models_def Let_def e
  consider (none) "registry_eligible reg = []" | (pin) "registry_eligible reg \<noteq> []" "fs_policy spec = ''pinned''"
    | (rr) "registry_eligible reg \<noteq> []" "fs_policy spec \<noteq> ''pinned''" "0 < fs_min_clusters spec"
    | (spread) "registry_eligible reg \<noteq> []" "fs_policy spec \<noteq> ''pinned''" "\<not> 0 < fs_min_clusters spec" by blast
  then show ?thesis
  proof cases
    case pin
    have "can_host reg (the (ms_cluster m))" if "m \<in> set (fs_models spec)" for m
      using assms(2) that pin(2) eligible_name [OF assms(1)]
      by (force simp: check_policy_def list_ex_iff can_host_def split: if_splits)
    moreover have "foldE (\<lambda>s m. place m (the (ms_cluster m)) s) ?st (fs_models spec) = Inr st"
      using assms(3) pin by (simp add: simps place_pinned_def)
    ultimately show ?thesis using pin(1) foldE_placing [OF assms(1) p0, of _ "\<lambda>m. the (ms_cluster m)" "\<lambda>m. m"] by fastforce
  next
    case rr
    let ?n = "nat (min (fs_min_clusters spec) (int (length ?e)))"
    have n: "0 < ?n" "?n \<le> length ?e" using rr e by simp_all
    have h: "can_host reg (?e ! (fst im mod ?n))" for im :: "nat \<times> model_spec"
      using n mod_less_divisor [OF n(1), of "fst im"] by (subst eligible_names_set [symmetric]) (rule nth_mem, linarith)
    have "foldE (\<lambda>s x. place (snd x) (?e ! (fst x mod ?n)) s) ?st (enumerate 0 (fs_models spec)) = Inr st"
      using assms(3) rr by (simp add: simps place_round_robin_def split_def)
    from foldE_placing [OF assms(1) p0 h this] rr(1) show ?thesis by simp
  next
    case spread
    from place_spread_placing [OF assms(1) _ p0] eligible_names_set assms(3) spread show ?thesis by (fastforce simp: simps)
  qed (use assms(3) p0 in \<open>simp add: simps\<close>)
qed

section \<open>What a plan contains\<close>

lemma dict_set_new: "dict_get d k = None \<Longrightarrow> dict_set k v d = d @ [(k, v)]"
  by (induction d) (auto split: if_splits)

lemma foldE_fill:
  "foldE (fill_cluster env spec reg prev) cl entries = Inr cl' \<Longrightarrow> dict_ok cl \<Longrightarrow>
     \<exists>new. cl' = cl @ new \<and> dict_ok cl' \<and> fst ` set cl' = fst ` set cl \<union> fst ` set entries
       \<and> (\<forall>(k, ca) \<in> set new. \<exists>c. (k, c) \<in> set entries \<and> idle_entry env spec reg prev (k, c) = Inr ca)"
proof (induction entries arbitrary: cl)
  case (Cons e es)
  show ?case
  proof (cases "dict_get cl (fst e)")
    case None
    then have "fill_cluster env spec reg prev cl e = bindE (idle_entry env spec reg prev e) (\<lambda>ca. Inr (dict_set (fst e) ca cl))"
      by (simp add: fill_cluster_def)
    with Cons.prems(1) obtain ca where ca: "idle_entry env spec reg prev e = Inr ca"
      and f: "foldE (fill_cluster env spec reg prev) (dict_set (fst e) ca cl) es = Inr cl'"
      by (auto simp: bindE_eq_Inr)
    from Cons.IH [OF f] Cons.prems(2) obtain new where new: "cl' = dict_set (fst e) ca cl @ new" "dict_ok cl'"
      "fst ` set cl' = insert (fst e) (fst ` set cl) \<union> fst ` set es"
      "\<forall>(k, ca) \<in> set new. \<exists>c. (k, c) \<in> set es \<and> idle_entry env spec reg prev (k, c) = Inr ca" by auto
    show ?thesis
    proof (intro exI [of _ "(fst e, ca) # new"] conjI)
      show "cl' = cl @ (fst e, ca) # new" using new(1) None by (simp add: dict_set_new)
      show "\<forall>(k, ca) \<in> set ((fst e, ca) # new). \<exists>c. (k, c) \<in> set (e # es) \<and> idle_entry env spec reg prev (k, c) = Inr ca"
        using new(4) ca by (cases e) fastforce
    qed (use new(2,3) in auto)
  next
    case (Some x)
    then have "fst e \<in> fst ` set cl" using dict_get_in by force
    moreover have "fill_cluster env spec reg prev cl e = Inr cl" using Some by (simp add: fill_cluster_def)
    moreover from this Cons.prems have f: "foldE (fill_cluster env spec reg prev) cl es = Inr cl'" by simp
    from Cons.IH [OF f Cons.prems(2)] obtain new where new: "cl' = cl @ new" "dict_ok cl'"
      "fst ` set cl' = fst ` set cl \<union> fst ` set es"
      "\<forall>(k, ca) \<in> set new. \<exists>c. (k, c) \<in> set es \<and> idle_entry env spec reg prev (k, c) = Inr ca" by blast
    ultimately show ?thesis by (intro exI [of _ new] conjI) (auto simp del: map_append)
  qed
qed simp

lemma plan_cases:
  assumes "registry_ok reg" and "plan env spec reg gen previous = Inr a"
  obtains st budget prev new where "placing reg (if registry_eligible reg = [] then {#} else mset (fs_models spec)) st"
    and "previous_entries previous = Inr prev"
    and "as_clusters a = map (size_cluster spec budget st) (pl_models st) @ new" and "dict_ok (as_clusters a)"
    and "fst ` set (as_clusters a) = fst ` set (pl_models st) \<union> fst ` set (rg_clusters (pl_reg st))"
    and "\<forall>(k, ca) \<in> set new. \<exists>c. (k, c) \<in> set (rg_clusters (pl_reg st)) \<and> idle_entry env spec reg prev (k, c) = Inr ca"
    and "registry_fresh reg \<noteq> [] \<or> fs_models spec = []"
    and "as_generation a = gen" and "as_schema a = SCHEMA_VERSION"
proof -
  from assms(2) obtain sel st weights budget prev cl where
    c: "check_policy spec (map (pc_name \<circ> snd) (registry_eligible reg)) = Inr ()"
    and st: "place_models env spec sel (eligible_names reg) reg = Inr st" and prev: "previous_entries previous = Inr prev"
    and f: "foldE (fill_cluster env spec reg prev) (map (size_cluster spec budget st) (pl_models st)) (rg_clusters (pl_reg st)) = Inr cl"
    and a: "as_clusters a = cl" "registry_fresh reg \<noteq> [] \<or> fs_models spec = []" "as_generation a = gen" "as_schema a = SCHEMA_VERSION"
    by (auto simp: plan_def Let_def bindE_eq_Inr split: if_splits)
  note p = place_models_placing [OF assms(1) c st]
  have keys: "map fst (map (size_cluster spec budget st) (pl_models st)) = map fst (pl_models st)"
    by (simp add: size_cluster_def Let_def comp_def)
  have "dict_ok (map (size_cluster spec budget st) (pl_models st))" unfolding keys using p by (simp add: placing_def)
  from foldE_fill [OF f this] obtain new where new: "cl = map (size_cluster spec budget st) (pl_models st) @ new" "dict_ok cl"
    "fst ` set cl = fst ` set (map (size_cluster spec budget st) (pl_models st)) \<union> fst ` set (rg_clusters (pl_reg st))"
    "\<forall>(k, ca) \<in> set new. \<exists>c. (k, c) \<in> set (rg_clusters (pl_reg st)) \<and> idle_entry env spec reg prev (k, c) = Inr ca" by blast
  have "fst ` set (map (size_cluster spec budget st) (pl_models st)) = fst ` set (pl_models st)"
    using keys by (metis set_map)
  with new(3) have "fst ` set cl = fst ` set (pl_models st) \<union> fst ` set (rg_clusters (pl_reg st))" by simp
  then show thesis using that [OF p prev _ _ _ new(4) a(2-4)] new(1,2) unfolding a(1) by blast
qed

text \<open>The pools of a plan that it places itself, as opposed to those it carries over.\<close>

definition live_pools :: "(string, cluster_assignment) dict \<Rightarrow> assignment_pool list" where
  "live_pools cl = concat (map (\<lambda>(k, ca). if ca_stale_since ca = None then ca_pools ca else []) cl)"

lemma freeze_cluster_Inr:
  "freeze_cluster env c pools since0 = Inr ca \<Longrightarrow>
     mapE (pe_validate_pool env) pools = Inr (ca_pools ca)
     \<and> (\<exists>since. frozen_since env c since0 = JStr since \<and> ca_stale_since ca = Some since)"
  by (cases "frozen_since env c since0") (auto simp: freeze_cluster_def bindE_eq_Inr)

lemma idle_entry_live: "idle_entry env spec reg prev e = Inr ca \<Longrightarrow> ca_stale_since ca = None \<Longrightarrow> ca_pools ca = []"
  by (auto simp: idle_entry_def dest!: freeze_cluster_Inr split: prod.splits if_splits)

lemma live_pools_new:
  "\<forall>(k, ca) \<in> set new. \<exists>c. (k, c) \<in> S \<and> idle_entry env spec reg prev (k, c) = Inr ca \<Longrightarrow>
     live_pools (cl @ new) = live_pools cl"
  by (fastforce simp: live_pools_def dest: idle_entry_live)

lemma live_pools_sized:
  "map (\<lambda>p. (ap_image p, ap_template p)) (live_pools (map (size_cluster spec budget st) ml)) =
     map (\<lambda>m. (ms_image m, ms_template m)) (concat (map snd ml))"
  by (induction ml) (auto simp: live_pools_def size_cluster_def Let_def)

lemma validated_spec:
  "validate_spec s = Inr spec \<Longrightarrow> 0 < fs_max_pool spec \<and> 0 < fs_max_concurrent spec
     \<and> (\<forall>m \<in> set (fs_models spec). 0 < ms_tasks m \<and> template_name_ok (ms_template m))"
  by (auto simp: validate_spec_def list_all_iff validate_model_def split: if_splits)

lemma size_cluster_pool:
  assumes "p \<in> set (ca_pools (snd (size_cluster spec budget st (k, ms))))" and "0 < fs_max_pool spec"
    and "\<forall>m \<in> set ms. 0 < ms_tasks m \<and> template_name_ok (ms_template m)"
  shows "ap_warmpool p = warmpool_name (ap_template p) \<and> template_name_ok (ap_template p)
    \<and> 1 \<le> ap_replicas p \<and> ap_replicas p \<le> fs_max_pool spec"
proof -
  from assms(1) obtain m n mc where m: "m \<in> set ms" and p: "ap_template p = ms_template m"
    "ap_warmpool p = warmpool_name (ms_template m)" "ap_replicas p = compute_replicas (ms_tasks m) n mc (fs_max_pool spec) 0 False"
    by (auto simp: size_cluster_def Let_def)
  from m assms(3) have "0 < ms_tasks m" "template_name_ok (ms_template m)" by auto
  with p compute_replicas_bounds [of "ms_tasks m" "fs_max_pool spec" n mc 0 False] assms(2) show ?thesis by simp
qed

lemma plan_placed:
  assumes "registry_ok reg" and "validate_spec s = Inr spec" and "plan env spec reg gen previous = Inr a"
  shows "dict_ok (as_clusters a) \<and> fst ` set (as_clusters a) = fst ` set (rg_clusters reg)
    \<and> image_mset (\<lambda>p. (ap_image p, ap_template p)) (mset (live_pools (as_clusters a)))
        = image_mset (\<lambda>m. (ms_image m, ms_template m)) (if registry_eligible reg = [] then {#} else mset (fs_models spec))
    \<and> (\<forall>(k, ca) \<in> set (as_clusters a). ca_stale_since ca = None \<longrightarrow> ca_pools ca \<noteq> [] \<longrightarrow>
         (\<exists>c. (k, c) \<in> set (rg_clusters reg) \<and> pc_age c \<le> rg_max_age reg \<and> 0 < pc_weight c)
         \<and> (\<forall>p \<in> set (ca_pools ca). ap_warmpool p = warmpool_name (ap_template p) \<and> template_name_ok (ap_template p)
              \<and> 1 \<le> ap_replicas p \<and> ap_replicas p \<le> fs_max_pool spec))"
proof -
  let ?models = "if registry_eligible reg = [] then {#} else mset (fs_models spec)"
  obtain st budget prev new where p: "placing reg ?models st" and "previous_entries previous = Inr prev"
    and cl: "as_clusters a = map (size_cluster spec budget st) (pl_models st) @ new" and ok: "dict_ok (as_clusters a)"
    and keys: "fst ` set (as_clusters a) = fst ` set (pl_models st) \<union> fst ` set (rg_clusters (pl_reg st))"
    and new: "\<forall>(k, ca) \<in> set new. \<exists>c. (k, c) \<in> set (rg_clusters (pl_reg st)) \<and> idle_entry env spec reg prev (k, c) = Inr ca"
    by (rule plan_cases [OF assms(1,3)])
  have same: "same_clusters (pl_reg st) reg" and host: "\<And>k ms. (k, ms) \<in> set (pl_models st) \<Longrightarrow> can_host reg k"
    and all: "mset (concat (map snd (pl_models st))) = ?models" using p by (auto simp: placing_def)
  have reg: "fst ` set (rg_clusters (pl_reg st)) = fst ` set (rg_clusters reg)"
    using same unplanned_keys by (metis set_map)
  have in_reg: "fst ` set (pl_models st) \<subseteq> fst ` set (rg_clusters reg)"
    using host by (force simp: can_host_def registry_eligible_iff)
  have "image_mset (\<lambda>p. (ap_image p, ap_template p)) (mset (live_pools (as_clusters a)))
      = mset (map (\<lambda>m. (ms_image m, ms_template m)) (concat (map snd (pl_models st))))"
    unfolding cl live_pools_new [OF new] mset_map [symmetric] live_pools_sized ..
  then have placed: "image_mset (\<lambda>p. (ap_image p, ap_template p)) (mset (live_pools (as_clusters a)))
      = image_mset (\<lambda>m. (ms_image m, ms_template m)) ?models" by (simp only: mset_map all)
  have each: "(\<exists>c. (k, c) \<in> set (rg_clusters reg) \<and> pc_age c \<le> rg_max_age reg \<and> 0 < pc_weight c)
      \<and> (\<forall>p \<in> set (ca_pools ca). ap_warmpool p = warmpool_name (ap_template p) \<and> template_name_ok (ap_template p)
           \<and> 1 \<le> ap_replicas p \<and> ap_replicas p \<le> fs_max_pool spec)"
    if ca: "(k, ca) \<in> set (as_clusters a)" "ca_stale_since ca = None" "ca_pools ca \<noteq> []" for k ca
  proof -
    have "(k, ca) \<notin> set new" using new ca(2,3) idle_entry_live by fastforce
    then obtain ms where ms: "(k, ms) \<in> set (pl_models st)" "(k, ca) = size_cluster spec budget st (k, ms)"
      using ca(1) by (auto simp: cl size_cluster_def Let_def)
    have "set ms \<subseteq> set (concat (map snd (pl_models st)))" using ms(1) by force
    also have "\<dots> \<subseteq> set (fs_models spec)" using arg_cong [OF all, of set_mset] by (auto split: if_splits)
    finally have "\<forall>m \<in> set ms. 0 < ms_tasks m \<and> template_name_ok (ms_template m)"
      using validated_spec [OF assms(2)] by blast
    with size_cluster_pool [of _ spec budget st k ms] validated_spec [OF assms(2)] host [OF ms(1)] show ?thesis
      by (auto simp: ms(2) [symmetric] can_host_def registry_eligible_iff)
  qed
  have "fst ` set (as_clusters a) = fst ` set (rg_clusters reg)" by (simp only: keys reg Un_absorb1 [OF in_reg])
  moreover have "\<forall>(k, ca) \<in> set (as_clusters a). ca_stale_since ca = None \<longrightarrow> ca_pools ca \<noteq> [] \<longrightarrow>
         (\<exists>c. (k, c) \<in> set (rg_clusters reg) \<and> pc_age c \<le> rg_max_age reg \<and> 0 < pc_weight c)
         \<and> (\<forall>p \<in> set (ca_pools ca). ap_warmpool p = warmpool_name (ap_template p) \<and> template_name_ok (ap_template p)
              \<and> 1 \<le> ap_replicas p \<and> ap_replicas p \<le> fs_max_pool spec)"
    using each by auto
  ultimately show ?thesis using ok placed by (simp only: simp_thms)
qed

text \<open>(C3) A plan places every model of the specification exactly once (none when every reporting cluster is
  drained), and only on clusters that report and are not drained; every pool it places is named after
  its template, has a valid name, and has between one and \<^verbatim>\<open>max_pool\<close> replicas; and the plan has one entry for
  each cluster of the registry.\<close>

theorem plan_places_models:
  assumes "registry_ok reg" and "validate_spec s = Inr spec" and "plan env spec reg gen previous = Inr a"
  shows "dict_ok (as_clusters a) \<and> fst ` set (as_clusters a) = fst ` set (rg_clusters reg)
    \<and> image_mset (\<lambda>p. (ap_image p, ap_template p)) (mset (live_pools (as_clusters a)))
        = image_mset (\<lambda>m. (ms_image m, ms_template m)) (if registry_eligible reg = [] then {#} else mset (fs_models spec))
    \<and> (\<forall>(k, ca) \<in> set (as_clusters a). ca_stale_since ca = None \<longrightarrow> ca_pools ca \<noteq> [] \<longrightarrow>
         (\<exists>c. (k, c) \<in> set (rg_clusters reg) \<and> pc_age c \<le> rg_max_age reg \<and> 0 < pc_weight c)
         \<and> (\<forall>p \<in> set (ca_pools ca). ap_warmpool p = warmpool_name (ap_template p) \<and> template_name_ok (ap_template p)
              \<and> 1 \<le> ap_replicas p \<and> ap_replicas p \<le> fs_max_pool spec))"
  by (rule plan_placed [OF assms])

section \<open>Silent clusters keep what they have\<close>

lemma foldE_collect:
  "(\<And>kv. kv \<in> set kvs \<Longrightarrow> f (snd kv) = Inr (g (snd kv))) \<Longrightarrow>
     foldE (\<lambda>out kv. bindE (f (snd kv)) (\<lambda>e. Inr (dict_set (fst kv) e out))) d kvs
       = Inr (foldl (\<lambda>out kv. dict_set (fst kv) (g (snd kv)) out) d kvs)"
  by (induction kvs arbitrary: d) auto

lemma foldl_collect:
  "distinct (map fst kvs) \<Longrightarrow>
     dict_get (foldl (\<lambda>out kv. dict_set (fst kv) (g (snd kv)) out) d kvs) k =
       (case dict_get kvs k of None \<Rightarrow> dict_get d k | Some v \<Rightarrow> Some (g v))"
  by (induction kvs arbitrary: d) (force split: option.splits dest: dict_get_in)+

lemma sort_keys_opt [simp]: "sort_keys (opt_json s) = opt_json s"
  by (simp add: opt_json_def split: option.splits)

lemma previous_entry_published:
  "previous_entry (sort_keys (cluster_json ca)) = Inr (map (sort_keys \<circ> pool_json) (ca_pools ca), opt_json (ca_stale_since ca))"
proof -
  have "jor (sort_keys (cluster_json ca)) (JObj []) = sort_keys (cluster_json ca)" by (simp add: cluster_json_def jor_def)
  then show ?thesis
    unfolding previous_entry_def Let_def cluster_json_def by (auto simp add: sort_keys_lookup jor_def simp del: sort_keys.simps(2))
qed

lemma previous_entries_published:
  assumes "dict_ok (as_clusters a)"
  obtains prev where "previous_entries (Some (sort_keys (assignments_json a))) = Inr prev"
    and "\<forall>k. dict_get prev k =
      map_option (\<lambda>ca. (map (sort_keys \<circ> pool_json) (ca_pools ca), opt_json (ca_stale_since ca))) (dict_get (as_clusters a) k)"
proof -
  let ?kvs = "sort_key fst (map (\<lambda>kv. (fst kv, sort_keys (snd kv))) (map (\<lambda>(k, ca). (k, cluster_json ca)) (as_clusters a)))"
  let ?g = "\<lambda>j. the (case previous_entry j of Inr e \<Rightarrow> Some e | Inl _ \<Rightarrow> None)"
  have j: "jget (sort_keys (assignments_json a)) ''clusters'' = Inr (JObj ?kvs)"
    unfolding assignments_json_def by (subst sort_keys_lookup) simp_all
  have k: "jor (JObj ?kvs) (JObj []) = JObj ?kvs" by (simp add: jor_def)
  have f: "previous_entry (snd kv) = Inr (?g (snd kv))" if "kv \<in> set ?kvs" for kv
    using that by (auto simp: previous_entry_published)
  have "foldE (\<lambda>out kv. bindE (previous_entry (snd kv)) (\<lambda>e. Inr (dict_set (fst kv) e out))) [] ?kvs
      = Inr (foldl (\<lambda>out kv. dict_set (fst kv) (?g (snd kv)) out) [] ?kvs)"
    by (rule foldE_collect) (rule f)
  then have e: "previous_entries (Some (sort_keys (assignments_json a)))
      = Inr (foldl (\<lambda>out kv. dict_set (fst kv) (?g (snd kv)) out) [] ?kvs)"
    by (simp only: previous_entries_def option.case bindE_simps json.case j k)
  have d: "distinct (map fst (map (\<lambda>kv. (fst kv, sort_keys (snd kv))) (map (\<lambda>(k, ca). (k, cluster_json ca)) (as_clusters a))))"
    using assms by (simp add: comp_def split_def)
  have "distinct (map fst ?kvs)" by (rule dict_ok_sort_key [OF d])
  note c = foldl_collect [OF this, where d = "[]" and g = ?g]
  have "dict_get ?kvs k = map_option (\<lambda>ca. sort_keys (cluster_json ca)) (dict_get (as_clusters a) k)" for k
    unfolding map_of_sort_key [OF d] by (simp add: comp_def split_def dict_get_map [where f = "\<lambda>ca. sort_keys (cluster_json ca)"])
  then show thesis using that [OF e] c by (simp add: previous_entry_published split: option.splits)
qed

lemma mapE_all: "(\<And>x. f (g x) = Inr x) \<Longrightarrow> mapE f (map g xs) = Inr xs"
  by (induction xs) auto

text \<open>The pools that a published payload gives to a cluster.\<close>

definition published_pools :: "assignments \<Rightarrow> string \<Rightarrow> assignment_pool list" where
  "published_pools a k = (case dict_get (as_clusters a) k of None \<Rightarrow> [] | Some ca \<Rightarrow> ca_pools ca)"

lemma idle_entry_published:
  assumes "\<And>k. dict_get prev k = map_option (\<lambda>ca. (map (sort_keys \<circ> pool_json) (ca_pools ca), opt_json (ca_stale_since ca)))
      (dict_get (as_clusters a) k)"
    and "\<And>p. pe_validate_pool env (sort_keys (pool_json p)) = Inr p"
    and "idle_entry env spec reg prev (k, c) = Inr ca"
  shows "if is_stale reg c \<and> 0 < pc_weight c \<and> fs_models spec \<noteq> [] \<and> published_pools a k \<noteq> [] \<and> \<not> past_window spec c
    then ca_pools ca = published_pools a k \<and> ca_stale_since ca \<noteq> None
    else ca = \<lparr>ca_pools = [], ca_stale_since = None\<rparr>"
proof -
  have v: "mapE (pe_validate_pool env) (map (sort_keys \<circ> pool_json) ps) = Inr ps" for ps
    by (rule mapE_all) (simp add: assms(2))
  show ?thesis
  proof (cases "dict_get (as_clusters a) k")
    case None
    with assms(1,3) show ?thesis by (simp add: idle_entry_def freezes_def published_pools_def)
  next
    case (Some e)
    with assms(1,3) v show ?thesis
      by (auto simp: idle_entry_def freezes_def published_pools_def split: if_splits dest!: freeze_cluster_Inr)
  qed
qed

text \<open>(C13) A cluster that falls silent keeps its pools. In a plan made from the published one, a cluster that does
  not report, is not drained, has pools, and has not been silent for longer than the teardown window
  (or has lost its report altogether) is given exactly the pools it had, marked as stale; every other
  cluster that cannot take work is emptied; and when no cluster reports at all, there is no plan,
  unless the specification has no models.\<close>

theorem plan_freezes_silent:
  assumes "registry_ok reg" and "plan env spec reg gen (Some (sort_keys (assignments_json old))) = Inr a"
    and "dict_ok (as_clusters old)" and "\<forall>p. pe_validate_pool env (sort_keys (pool_json p)) = Inr p"
    and "(k, c) \<in> set (rg_clusters reg)" and "is_stale reg c \<or> pc_weight c \<le> 0"
  shows "(registry_fresh reg \<noteq> [] \<or> fs_models spec = [])
    \<and> (\<exists>ca. dict_get (as_clusters a) k = Some ca
        \<and> (if is_stale reg c \<and> 0 < pc_weight c \<and> fs_models spec \<noteq> [] \<and> published_pools old k \<noteq> [] \<and> \<not> past_window spec c
           then ca_pools ca = published_pools old k \<and> ca_stale_since ca \<noteq> None
           else ca = \<lparr>ca_pools = [], ca_stale_since = None\<rparr>))"
proof -
  obtain st budget prev new where p: "placing reg (if registry_eligible reg = [] then {#} else mset (fs_models spec)) st"
    and prev: "previous_entries (Some (sort_keys (assignments_json old))) = Inr prev"
    and cl: "as_clusters a = map (size_cluster spec budget st) (pl_models st) @ new" and ok: "dict_ok (as_clusters a)"
    and keys: "fst ` set (as_clusters a) = fst ` set (pl_models st) \<union> fst ` set (rg_clusters (pl_reg st))"
    and new: "\<forall>(k, ca) \<in> set new. \<exists>c. (k, c) \<in> set (rg_clusters (pl_reg st)) \<and> idle_entry env spec reg prev (k, c) = Inr ca"
    and some: "registry_fresh reg \<noteq> [] \<or> fs_models spec = []"
    by (rule plan_cases [OF assms(1,2)])
  have same: "same_clusters (pl_reg st) reg" and host: "\<And>k ms. (k, ms) \<in> set (pl_models st) \<Longrightarrow> can_host reg k"
    using p by (auto simp: placing_def)
  have unique: "c' = c" if "(k, c') \<in> set (rg_clusters reg)" for c'
    using that assms(1,5) by (auto simp: registry_ok_def dest: eq_key_imp_eq_value)
  have "\<not> can_host reg k" using unique assms(6) by (auto simp: can_host_def registry_eligible_iff is_stale_def)
  then have "k \<notin> fst ` set (pl_models st)" using host by auto
  moreover have "k \<in> fst ` set (as_clusters a)"
    using assms(5) same unplanned_keys unfolding keys by (metis UnI2 fst_conv image_eqI set_map)
  ultimately obtain ca where ca: "(k, ca) \<in> set new" by (force simp: cl size_cluster_def Let_def)
  with new obtain d where d: "(k, d) \<in> set (rg_clusters (pl_reg st))" "idle_entry env spec reg prev (k, d) = Inr ca" by blast
  from same d(1) obtain c' where c': "(k, c') \<in> set (rg_clusters reg)" "pc_weight c' = pc_weight d" "pc_age c' = pc_age d"
    by (rule same_clusters_entry)
  have cd: "is_stale reg d = is_stale reg c" "pc_weight d = pc_weight c" "past_window spec d = past_window spec c"
    using c' unique by (simp_all add: is_stale_def past_window_def)
  obtain prev' where "previous_entries (Some (sort_keys (assignments_json old))) = Inr prev'"
    "\<forall>k. dict_get prev' k = map_option (\<lambda>ca. (map (sort_keys \<circ> pool_json) (ca_pools ca), opt_json (ca_stale_since ca)))
      (dict_get (as_clusters old) k)" by (rule previous_entries_published [OF assms(3)])
  with prev idle_entry_published [of prev old env spec reg k d ca] assms(4) d(2) cd
  have "if is_stale reg c \<and> 0 < pc_weight c \<and> fs_models spec \<noteq> [] \<and> published_pools old k \<noteq> [] \<and> \<not> past_window spec c
    then ca_pools ca = published_pools old k \<and> ca_stale_since ca \<noteq> None
    else ca = \<lparr>ca_pools = [], ca_stale_since = None\<rparr>" by simp
  moreover have "dict_get (as_clusters a) k = Some ca" by (rule dict_in_get [OF ok]) (simp add: cl ca)
  ultimately show ?thesis using some by blast
qed

section \<open>A plan, worked out\<close>

text \<open>Cluster \<open>a\<close> reports, \<open>b\<close> is drained and \<open>c\<close> has been silent for 200 seconds with one pool.\<close>

definition sim_validate_pool :: "json \<Rightarrow> assignment_pool res" where
  "sim_validate_pool j =
     bindE (jget j ''image'') (\<lambda>i. bindE (jget j ''template'') (\<lambda>t. bindE (jget j ''warmpool'') (\<lambda>w. bindE (jget j ''replicas'') (\<lambda>r.
       case (t, w, r) of
         (JStr t', JStr w', JInt r') \<Rightarrow>
           Inr \<lparr>ap_image = (case i of JStr s \<Rightarrow> Some s | _ \<Rightarrow> None), ap_template = t', ap_warmpool = w', ap_replicas = r'\<rparr>
       | _ \<Rightarrow> Inl ValueError))))"

definition sim_plan_env :: planner_env where
  "sim_plan_env = \<lparr>pe_fsum = left_sum, pe_md5 = length, pe_now_iso = ''now'', pe_iso_before = (\<lambda>_. ''then''),
     pe_validate_pool = sim_validate_pool\<rparr>"

lemma sim_validates: "pe_validate_pool sim_plan_env (sort_keys (pool_json p)) = Inr p"
  unfolding sim_plan_env_def sim_validate_pool_def pool_json_def
  by (simp add: sort_keys_lookup opt_json_def split: option.splits del: sort_keys.simps(2))

definition sim_plan_spec :: fleet_spec where
  "sim_plan_spec = \<lparr>fs_schema = 1, fs_generation = None, fs_max_concurrent = 100, fs_max_pool = 50,
     fs_policy = ''least-loaded'', fs_weights = [(''b'', Finite 0)],
     fs_models = [\<lparr>ms_image = None, ms_template = ''x'', ms_tasks = 5, ms_cluster = None\<rparr>,
                  \<lparr>ms_image = None, ms_template = ''y'', ms_tasks = 5, ms_cluster = None\<rparr>],
     fs_min_clusters = 0, fs_stale_window = 900\<rparr>"

definition sim_plan_registry :: planner_registry where
  "sim_plan_registry = \<lparr>rg_clusters = [(''a'', (new_cluster ''a'' 1)\<lparr>pc_age := 10\<rparr>), (''b'', (new_cluster ''b'' 0)\<lparr>pc_age := 10\<rparr>),
     (''c'', (new_cluster ''c'' 1)\<lparr>pc_age := 200\<rparr>)], rg_max_age = 90\<rparr>"

definition sim_old_plan :: assignments where
  "sim_old_plan = \<lparr>as_schema = 1, as_generation = 6, as_updated_at = ''before'',
     as_clusters = [(''c'', \<lparr>ca_pools = [\<lparr>ap_image = None, ap_template = ''x'', ap_warmpool = ''x-pool'', ap_replicas = 3\<rparr>],
                             ca_stale_since = None\<rparr>)]\<rparr>"

lemma sim_plan_inputs:
  "registry_ok sim_plan_registry" "validate_spec sim_plan_spec = Inr sim_plan_spec" "dict_ok (as_clusters sim_old_plan)"
proof -
  have "re_fullmatch DNS1123_SUBDOMAIN_RE ''x-pool''" "re_fullmatch DNS1123_SUBDOMAIN_RE ''y-pool''"
    unfolding subdomain_re_iff by (simp_all add: dns1123_label_def lower_alnum_def is_lower_def is_digit_def)
  then show "validate_spec sim_plan_spec = Inr sim_plan_spec"
    by (simp add: validate_spec_def sim_plan_spec_def validate_model_def template_name_ok_def warmpool_name_def re_match_def
        SCHEMA_VERSION_def weight_ok_def)
qed (simp_all add: registry_ok_def sim_plan_registry_def sim_old_plan_def)

lemma sim_plan: "\<exists>a. plan sim_plan_env sim_plan_spec sim_plan_registry 7 (Some (sort_keys (assignments_json sim_old_plan))) = Inr a"
proof -
  obtain prev where prev: "previous_entries (Some (sort_keys (assignments_json sim_old_plan))) = Inr prev"
    "\<forall>k. dict_get prev k = map_option (\<lambda>ca. (map (sort_keys \<circ> pool_json) (ca_pools ca), opt_json (ca_stale_since ca)))
      (dict_get (as_clusters sim_old_plan) k)"
    by (rule previous_entries_published [OF sim_plan_inputs(3)])
  let ?a = "(new_cluster ''a'' 1)\<lparr>pc_age := 10\<rparr>"
  have v: "pe_validate_pool sim_plan_env (sort_keys (pool_json p)) = Inr p" for p by (rule sim_validates)
  have e: "registry_eligible sim_plan_registry = [(''a'', ?a)]" "eligible_names sim_plan_registry = [''a'']"
    "registry_fresh sim_plan_registry \<noteq> []"
    by (simp_all add: eligible_names_def registry_eligible_def registry_fresh_def sim_plan_registry_def new_cluster_def)
  have "\<exists>ms. place_models sim_plan_env sim_plan_spec LeastLoaded [''a''] sim_plan_registry = Inr
      \<lparr>pl_reg = sim_plan_registry\<lparr>rg_clusters := dict_set ''a'' (?a\<lparr>pc_planned := 2\<rparr>) (rg_clusters sim_plan_registry)\<rparr>,
       pl_tasks = [(''a'', 10)], pl_models = [(''a'', ms)]\<rparr>"
    by (simp add: place_models_def sim_plan_spec_def Let_def place_def registry_get_def sim_plan_registry_def new_cluster_def
        select_def select_least_loaded_def with_capacity_def registry_eligible_def registry_fresh_def has_capacity_def min_by_def)
  then obtain ms where p: "place_models sim_plan_env sim_plan_spec LeastLoaded [''a''] sim_plan_registry = Inr
      \<lparr>pl_reg = sim_plan_registry\<lparr>rg_clusters := dict_set ''a'' (?a\<lparr>pc_planned := 2\<rparr>) (rg_clusters sim_plan_registry)\<rparr>,
       pl_tasks = [(''a'', 10)], pl_models = [(''a'', ms)]\<rparr>" by (rule exE)
  have g: "get_placement (fs_policy sim_plan_spec) = Inr LeastLoaded" "check_policy sim_plan_spec ns = Inr ()" for ns
    by (simp_all add: get_placement_def sim_plan_spec_def check_policy_def)
  show ?thesis
    by (simp add: plan_def Let_def prev(1) e p g hamilton_split_def registry_get_def weight_ok_def)
       (simp add: sim_plan_registry_def new_cluster_def fill_cluster_def idle_entry_def size_cluster_def Let_def prev(2) sim_old_plan_def
          freezes_def is_stale_def past_window_def STALE_AGE_S_def sim_plan_spec_def freeze_cluster_def v frozen_since_def opt_json_def)
qed

theorem plan_places_models_witness:
  "\<exists>a. plan sim_plan_env sim_plan_spec sim_plan_registry 7 (Some (sort_keys (assignments_json sim_old_plan))) = Inr a
     \<and> fst ` set (as_clusters a) = {''a'', ''b'', ''c''}
     \<and> image_mset (\<lambda>p. (ap_image p, ap_template p)) (mset (live_pools (as_clusters a))) = {#(None, ''x''), (None, ''y'')#}"
proof -
  obtain a where a: "plan sim_plan_env sim_plan_spec sim_plan_registry 7 (Some (sort_keys (assignments_json sim_old_plan))) = Inr a"
    using sim_plan by blast
  have "registry_eligible sim_plan_registry \<noteq> []" "fst ` set (rg_clusters sim_plan_registry) = {''a'', ''b'', ''c''}"
    by (auto simp: registry_eligible_def registry_fresh_def sim_plan_registry_def new_cluster_def)
  with plan_places_models [OF sim_plan_inputs(1,2) a] a show ?thesis by (simp add: sim_plan_spec_def)
qed

theorem plan_freezes_silent_witness:
  "\<exists>a ca. plan sim_plan_env sim_plan_spec sim_plan_registry 7 (Some (sort_keys (assignments_json sim_old_plan))) = Inr a
     \<and> dict_get (as_clusters a) ''c'' = Some ca
     \<and> ca_pools ca = [\<lparr>ap_image = None, ap_template = ''x'', ap_warmpool = ''x-pool'', ap_replicas = 3\<rparr>] \<and> ca_stale_since ca \<noteq> None"
proof -
  let ?c = "(new_cluster ''c'' 1)\<lparr>pc_age := 200\<rparr>"
  obtain a where a: "plan sim_plan_env sim_plan_spec sim_plan_registry 7 (Some (sort_keys (assignments_json sim_old_plan))) = Inr a"
    using sim_plan by blast
  have c: "(''c'', ?c) \<in> set (rg_clusters sim_plan_registry)" "is_stale sim_plan_registry ?c" "\<not> past_window sim_plan_spec ?c"
    "pc_weight ?c = 1" "fs_models sim_plan_spec \<noteq> []"
    "published_pools sim_old_plan ''c'' = [\<lparr>ap_image = None, ap_template = ''x'', ap_warmpool = ''x-pool'', ap_replicas = 3\<rparr>]"
    by (simp_all add: sim_plan_registry_def is_stale_def past_window_def sim_plan_spec_def new_cluster_def published_pools_def
        sim_old_plan_def)
  from plan_freezes_silent [OF sim_plan_inputs(1) a sim_plan_inputs(3) _ c(1)] c(2-) sim_validates a show ?thesis by simp
qed

end
