(* ===== verification/Fleet_Member.thy ===== *)
theory Fleet_Member
  imports Fleet_Planner
begin

text \<open>
  The agent that runs in every member cluster (\<^verbatim>\<open>fleet_member.py\<close>): fetching and parsing the plan, the
  reconcile pass that makes the warm pools match it, and the capacity report. The custom-object API of
  the cluster is a record of requests; MD5, the clocks and float parsing are arguments. The fields of
  a parsed pool keep their JSON values, as the dataclass does not check them.
\<close>

section \<open>The parsed plan\<close>

record member_pool =
  mp_template :: json
  mp_warmpool :: json
  mp_replicas :: json
  mp_image :: json

record member_entry =
  me_pools :: "member_pool list"
  me_stale_since :: json

record member_plan =
  mq_schema :: json
  mq_generation :: json
  mq_updated_at :: json
  mq_clusters :: "(string, member_entry) dict"

text \<open>The keys that a JSON value can be: a list or an object has no hash.\<close>

definition hashable :: "json \<Rightarrow> bool" where
  "hashable j = (case j of JList _ \<Rightarrow> False | JObj _ \<Rightarrow> False | _ \<Rightarrow> True)"

definition pool_from_json :: "json \<Rightarrow> member_pool res" where
  "pool_from_json obj =
     (case obj of
        JObj kvs \<Rightarrow>
          (case (dict_get kvs ''template'', dict_get kvs ''warmpool'', dict_get kvs ''replicas'') of
             (Some t, Some p, Some r) \<Rightarrow>
               Inr \<lparr>mp_template = t, mp_warmpool = p, mp_replicas = r,
                    mp_image = (case dict_get kvs ''image'' of None \<Rightarrow> JNull | Some i \<Rightarrow> i)\<rparr>
           | _ \<Rightarrow> Inl TypeError)
      | JStr _ \<Rightarrow> Inl AttributeError
      | JList ks \<Rightarrow> Inl (if list_all hashable ks then AttributeError else TypeError)
      | _ \<Rightarrow> Inl TypeError)"

definition entry_from_json :: "json \<Rightarrow> member_entry res" where
  "entry_from_json body =
     bindE (jget_dflt body ''pools'' (JList [])) (\<lambda>pools.
     bindE (jiter pools) (\<lambda>ps.
     bindE (mapE pool_from_json ps) (\<lambda>mps.
     bindE (jget body ''stale_since'') (\<lambda>since.
       Inr \<lparr>me_pools = mps, me_stale_since = since\<rparr>))))"

definition clusters_from_json :: "json \<Rightarrow> (string, member_entry) dict res" where
  "clusters_from_json cs =
     (case cs of
        JObj kvs \<Rightarrow> mapE (\<lambda>kv. bindE (entry_from_json (snd kv)) (\<lambda>e. Inr (fst kv, e))) kvs
      | _ \<Rightarrow> Inl AttributeError)"

text \<open>\<^verbatim>\<open>version not in SUPPORTED_SCHEMA_VERSIONS\<close>: a list or an object is not hashable.\<close>

definition supported_schema :: "json \<Rightarrow> bool res" where
  "supported_schema v = (case v of JList _ \<Rightarrow> Inl TypeError | JObj _ \<Rightarrow> Inl TypeError | _ \<Rightarrow> Inr (known_schema v))"

section \<open>The state and the cluster\<close>

record member_state =
  st_last_etag :: string
  st_last :: "member_plan option"
  st_retry :: bool
  st_capacity_ok :: "rat option"

definition initial_member :: member_state where
  "initial_member = \<lparr>st_last_etag = [], st_last = None, st_retry = False, st_capacity_ok = None\<rparr>"

record 'w cluster_api =
  co_get :: "string \<Rightarrow> json \<Rightarrow> ('w, json) request"
  co_create :: "string \<Rightarrow> json \<Rightarrow> ('w, unit) request"
  co_replace :: "string \<Rightarrow> json \<Rightarrow> json \<Rightarrow> ('w, unit) request"
  co_delete :: "string \<Rightarrow> json \<Rightarrow> ('w, unit) request"
  co_list :: "string \<Rightarrow> string \<Rightarrow> json \<Rightarrow> ('w, json) request"

text \<open>What the node-pressure score reads of nodes and pods: the CPU and memory quantities.\<close>

record node_info =
  ni_name :: string
  ni_unschedulable :: bool
  ni_cpu :: "string option"
  ni_mem :: "string option"

record pod_info =
  pi_node :: "string option"
  pi_requests :: "(string option \<times> string option) list"

text \<open>\<open>mc_pages\<close> bounds the pages of one paged walk; \<open>mc_claims\<close> is the length of the SDK's
  \<^verbatim>\<open>list_all_sandboxes\<close>.\<close>

record 'w member_config =
  mc_cluster :: string
  mc_namespace :: string
  mc_paths :: fleet_paths
  mc_bucket :: "'w bucket"
  mc_api :: "'w cluster_api"
  mc_nodes :: "('w, node_info list) request"
  mc_pods :: "string option \<Rightarrow> ('w, pod_info list \<times> string option) request"
  mc_claims :: "('w, nat) request"
  mc_hub :: "(json \<Rightarrow> ('w, unit) request) option"
  mc_full_detail :: bool
  mc_md5hex :: "string \<Rightarrow> string"
  mc_env :: inventory_env
  mc_pages :: nat

section \<open>Fetching the plan\<close>

type_synonym 'w fetched = "(member_plan option \<times> bool) res \<times> member_state \<times> 'w"

definition parse_plan :: "json \<Rightarrow> json \<Rightarrow> member_plan res" where
  "parse_plan version raw =
     bindE (jget_dflt raw ''clusters'' (JObj [])) (\<lambda>cs.
     bindE (clusters_from_json cs) (\<lambda>clusters.
     bindE (jget_dflt raw ''generation'' (JInt 0)) (\<lambda>gen.
     bindE (jget_dflt raw ''updated_at'' (JStr [])) (\<lambda>upd.
       Inr \<lparr>mq_schema = version, mq_generation = gen, mq_updated_at = upd, mq_clusters = clusters\<rparr>))))"

definition accept_plan :: "member_state \<Rightarrow> string \<Rightarrow> json \<Rightarrow> (member_plan option \<times> bool) res \<times> member_state" where
  "accept_plan st etag raw =
     (case bindE (jget_dflt raw ''schema_version'' (JInt SCHEMA_VERSION)) (\<lambda>v.
             bindE (supported_schema v) (\<lambda>ok. Inr (v, ok))) of
        Inl e \<Rightarrow> (Inl e, st)
      | Inr (version, ok) \<Rightarrow>
          if \<not> ok then (Inr (st_last st, False), st)
          else (case parse_plan version raw of
                  Inl e \<Rightarrow> (Inl e, st)
                | Inr p \<Rightarrow> (Inr (Some p, True), st\<lparr>st_last_etag := etag\<rparr>)))"

definition fetch_assignments :: "'w member_config \<Rightarrow> member_state \<Rightarrow> 'w \<Rightarrow> 'w fetched" where
  "fetch_assignments cfg st w =
     (case get_with_etag (mc_bucket cfg) (fp_assignments (mc_paths cfg)) w of
        (Inl e, w1) \<Rightarrow>
          if e = FileNotFoundError then (Inr (st_last st, False), st\<lparr>st_last_etag := []\<rparr>, w1) else (Inl e, st, w1)
      | (Inr (bytes, etag), w1) \<Rightarrow>
          if etag = st_last_etag st then (Inr (st_last st, False), st, w1)
          else (case json_loads bytes of
                  Inl e \<Rightarrow> (Inl e, st, w1)
                | Inr raw \<Rightarrow> (case accept_plan st etag raw of (r, st1) \<Rightarrow> (r, st1, w1))))"

section \<open>Pools\<close>

definition POOL_PLURAL :: string where "POOL_PLURAL = ''sandboxwarmpools''"
definition TEMPLATE_PLURAL :: string where "TEMPLATE_PLURAL = ''sandboxtemplates''"
definition MANAGED_LABEL :: string where "MANAGED_LABEL = ''fleet.agent-sandbox.io/managed''"
definition POOL_NAME_LABEL :: string where "POOL_NAME_LABEL = ''fleet.agent-sandbox.io/pool''"
definition GENERATION_ANNOTATION :: string where
  "GENERATION_ANNOTATION = ''fleet.agent-sandbox.io/assignment-generation''"
definition CAPACITY_STALENESS_S :: rat where "CAPACITY_STALENESS_S = 90"

definition label_value :: "(string \<Rightarrow> string) \<Rightarrow> string \<Rightarrow> string" where
  "label_value md5hex name = (if length name \<le> 63 then name else take 50 name @ ''-'' @ take 12 (md5hex name))"

definition template_exists :: "'w member_config \<Rightarrow> json \<Rightarrow> ('w, bool) request" where
  "template_exists cfg name w =
     (case co_get (mc_api cfg) TEMPLATE_PLURAL name w of
        (Inr _, w1) \<Rightarrow> (Inr True, w1)
      | (Inl e, w1) \<Rightarrow> (if e = ApiException 404 then Inr False else Inl e, w1))"

definition pool_body :: "'w member_config \<Rightarrow> string \<Rightarrow> member_pool \<Rightarrow> (string, json) dict res" where
  "pool_body cfg generation pool =
     bindE (case mp_warmpool pool of JStr s \<Rightarrow> Inr (label_value (mc_md5hex cfg) s) | _ \<Rightarrow> Inl TypeError) (\<lambda>label.
     bindE (py_int (mp_replicas pool)) (\<lambda>n.
       Inr [(''apiVersion'', JStr ''extensions.agents.x-k8s.io/v1beta1''), (''kind'', JStr ''SandboxWarmPool''),
            (''metadata'', JObj [(''name'', mp_warmpool pool), (''namespace'', JStr (mc_namespace cfg)),
               (''labels'', JObj [(MANAGED_LABEL, JStr ''true''), (POOL_NAME_LABEL, JStr label)]),
               (''annotations'', JObj [(GENERATION_ANNOTATION, JStr generation)])]),
            (''spec'', JObj [(''sandboxTemplateRef'', JObj [(''name'', mp_template pool)]), (''replicas'', JInt n)])]))"

text \<open>Labels or annotations of the live object with ours written over them.\<close>

definition merge_meta :: "json \<Rightarrow> json \<Rightarrow> json res" where
  "merge_meta theirs ours =
     (case (jor theirs (JObj []), ours) of
        (JObj a, JObj b) \<Rightarrow> Inr (JObj (foldl (\<lambda>d kv. dict_set (fst kv) (snd kv) d) a b))
      | _ \<Rightarrow> Inl TypeError)"

definition merged_body :: "json \<Rightarrow> (string, json) dict \<Rightarrow> json res" where
  "merged_body existing body =
     bindE (jindex existing ''metadata'') (\<lambda>md.
     bindE (jindex md ''resourceVersion'') (\<lambda>rv.
     bindE (jindex (JObj body) ''metadata'') (\<lambda>mine.
     bindE (jget md ''labels'') (\<lambda>l. bindE (jindex mine ''labels'') (\<lambda>ml. bindE (merge_meta l ml) (\<lambda>labels.
     bindE (jget md ''annotations'') (\<lambda>a. bindE (jindex mine ''annotations'') (\<lambda>ma. bindE (merge_meta a ma) (\<lambda>annotations.
       case mine of
         JObj kvs \<Rightarrow>
           Inr (JObj (dict_set ''metadata'' (JObj (dict_set ''annotations'' annotations (dict_set ''labels'' labels
             (dict_set ''resourceVersion'' rv kvs)))) body))
       | _ \<Rightarrow> Inl TypeError)))))))))"

definition create_or_update :: "'w member_config \<Rightarrow> json \<Rightarrow> (string, json) dict \<Rightarrow> ('w, unit) request" where
  "create_or_update cfg name body w =
     (case co_get (mc_api cfg) POOL_PLURAL name w of
        (Inl e, w1) \<Rightarrow> if e = ApiException 404 then co_create (mc_api cfg) POOL_PLURAL (JObj body) w1 else (Inl e, w1)
      | (Inr existing, w1) \<Rightarrow>
          (case merged_body existing body of
             Inl e \<Rightarrow> (Inl e, w1)
           | Inr b \<Rightarrow> co_replace (mc_api cfg) POOL_PLURAL name b w1))"

definition ensure_warmpool :: "'w member_config \<Rightarrow> string \<Rightarrow> member_pool \<Rightarrow> ('w, unit) request" where
  "ensure_warmpool cfg generation pool w =
     (case pool_body cfg generation pool of
        Inl e \<Rightarrow> (Inl e, w)
      | Inr body \<Rightarrow> create_or_update cfg (mp_warmpool pool) body w)"

text \<open>One page of the managed pools, and the pages from a continuation token on.\<close>

definition page_of :: "json \<Rightarrow> (json list \<times> json option) res" where
  "page_of resp =
     bindE (jget_dflt resp ''items'' (JList [])) (\<lambda>items.
     bindE (jiter items) (\<lambda>pools.
     bindE (jget resp ''metadata'') (\<lambda>md.
     bindE (jget (jor md (JObj [])) ''continue'') (\<lambda>c.
       Inr (pools, if truthy c then Some c else None)))))"

fun managed_pools :: "'w member_config \<Rightarrow> nat \<Rightarrow> json \<Rightarrow> 'w \<Rightarrow> (json list res \<times> 'w) option" where
  "managed_pools cfg 0 cont w = None"
| "managed_pools cfg (Suc n) cont w =
     (case co_list (mc_api cfg) POOL_PLURAL (MANAGED_LABEL @ ''=true'') cont w of
        (Inl e, w1) \<Rightarrow> Some (Inl e, w1)
      | (Inr resp, w1) \<Rightarrow>
          (case page_of resp of
             Inl e \<Rightarrow> Some (Inl e, w1)
           | Inr (items, None) \<Rightarrow> Some (Inr items, w1)
           | Inr (items, Some c) \<Rightarrow>
               (case managed_pools cfg n c w1 of
                  None \<Rightarrow> None
                | Some (Inl e, w2) \<Rightarrow> Some (Inl e, w2)
                | Some (Inr rest, w2) \<Rightarrow> Some (Inr (items @ rest), w2))))"

definition managed_pool_names :: "'w member_config \<Rightarrow> 'w \<Rightarrow> (json list res \<times> 'w) option" where
  "managed_pool_names cfg w =
     (case managed_pools cfg (mc_pages cfg) JNull w of
        None \<Rightarrow> None
      | Some (Inl e, w1) \<Rightarrow> Some (Inl e, w1)
      | Some (Inr pools, w1) \<Rightarrow>
          Some (mapE (\<lambda>p. bindE (jindex p ''metadata'') (\<lambda>m. jindex m ''name'')) pools, w1))"

section \<open>The reconcile pass\<close>

definition desired_pools :: "member_pool list \<Rightarrow> (json, member_pool) dict res" where
  "desired_pools pools =
     (if list_all (hashable \<circ> mp_warmpool) pools
      then Inr (foldl (\<lambda>d p. dict_set (mp_warmpool p) p d) [] pools) else Inl TypeError)"

text \<open>The number of pools that could not be applied.\<close>

fun apply_pools :: "'w member_config \<Rightarrow> string \<Rightarrow> member_pool list \<Rightarrow> ('w, nat) request" where
  "apply_pools cfg generation [] w = (Inr 0, w)"
| "apply_pools cfg generation (p # ps) w =
     (case template_exists cfg (mp_template p) w of
        (Inl e, w1) \<Rightarrow> (Inl e, w1)
      | (Inr False, w1) \<Rightarrow>
          (case apply_pools cfg generation ps w1 of (Inl e, w2) \<Rightarrow> (Inl e, w2) | (Inr n, w2) \<Rightarrow> (Inr (Suc n), w2))
      | (Inr True, w1) \<Rightarrow>
          (case ensure_warmpool cfg generation p w1 of
             (Inr _, w2) \<Rightarrow> apply_pools cfg generation ps w2
           | (Inl (ApiException _), w2) \<Rightarrow>
               (case apply_pools cfg generation ps w2 of (Inl e, w3) \<Rightarrow> (Inl e, w3) | (Inr n, w3) \<Rightarrow> (Inr (Suc n), w3))
           | (Inl e, w2) \<Rightarrow> (Inl e, w2)))"

fun delete_orphans :: "'w member_config \<Rightarrow> (json, member_pool) dict \<Rightarrow> json list \<Rightarrow> ('w, unit) request" where
  "delete_orphans cfg desired [] w = (Inr (), w)"
| "delete_orphans cfg desired (n # ns) w =
     (if dict_get desired n \<noteq> None then delete_orphans cfg desired ns w
      else (case co_delete (mc_api cfg) POOL_PLURAL n w of
              (Inr _, w1) \<Rightarrow> delete_orphans cfg desired ns w1
            | (Inl (ApiException _), w1) \<Rightarrow> delete_orphans cfg desired ns w1
            | (Inl e, w1) \<Rightarrow> (Inl e, w1)))"

text \<open>Bringing the cluster in line with the pools of its entry: the pools that were skipped.\<close>

definition apply_entry :: "'w member_config \<Rightarrow> string \<Rightarrow> member_pool list \<Rightarrow> 'w \<Rightarrow> (nat res \<times> 'w) option" where
  "apply_entry cfg generation pools w =
     (case desired_pools pools of
        Inl e \<Rightarrow> Some (Inl e, w)
      | Inr desired \<Rightarrow>
          (case apply_pools cfg generation (map snd desired) w of
             (Inl e, w1) \<Rightarrow> Some (Inl e, w1)
           | (Inr skipped, w1) \<Rightarrow>
               (case managed_pool_names cfg w1 of
                  None \<Rightarrow> None
                | Some (Inl e, w2) \<Rightarrow> Some (Inl e, w2)
                | Some (Inr names, w2) \<Rightarrow>
                    (case delete_orphans cfg desired names w2 of
                       (Inl e, w3) \<Rightarrow> Some (Inl e, w3)
                     | (Inr _, w3) \<Rightarrow> Some (Inr skipped, w3)))))"

definition publishes_stale :: "rat \<Rightarrow> member_state \<Rightarrow> bool" where
  "publishes_stale now st =
     (case st_capacity_ok st of None \<Rightarrow> True | Some t \<Rightarrow> CAPACITY_STALENESS_S < fl (now - t))"

definition reconcile_plan :: "'w member_config \<Rightarrow> rat \<Rightarrow> member_plan \<Rightarrow> member_state \<Rightarrow> 'w \<Rightarrow> (unit res \<times> member_state \<times> 'w) option" where
  "reconcile_plan cfg now a st w =
     (let entry = dict_get (mq_clusters a) (mc_cluster cfg) in
      if entry = None \<and> mq_clusters a \<noteq> [] then Some (Inr (), st\<lparr>st_last_etag := []\<rparr>, w)
      else if entry \<noteq> None \<and> me_pools (the entry) = [] \<and> publishes_stale now st
      then Some (Inr (), st\<lparr>st_last_etag := []\<rparr>, w)
      else let st1 = st\<lparr>st_retry := True, st_last := Some a\<rparr>;
               pools = (case entry of None \<Rightarrow> [] | Some e \<Rightarrow> me_pools e) in
        (case apply_entry cfg (py_str (mc_env cfg) (mq_generation a)) pools w of
           None \<Rightarrow> None
         | Some (Inl e, w1) \<Rightarrow> Some (Inl e, st1, w1)
         | Some (Inr skipped, w1) \<Rightarrow> Some (Inr (), st1\<lparr>st_retry := 0 < skipped\<rparr>, w1)))"

definition reconcile_once :: "'w member_config \<Rightarrow> rat \<Rightarrow> member_state \<Rightarrow> 'w \<Rightarrow> (unit res \<times> member_state \<times> 'w) option" where
  "reconcile_once cfg now st w =
     (case fetch_assignments cfg st w of
        (Inl e, st1, w1) \<Rightarrow> Some (Inl e, st1, w1)
      | (Inr (None, _), st1, w1) \<Rightarrow> Some (Inr (), st1, w1)
      | (Inr (Some a, changed), st1, w1) \<Rightarrow>
          if \<not> changed \<and> st_last st1 \<noteq> None \<and> \<not> st_retry st1 then Some (Inr (), st1, w1)
          else reconcile_plan cfg now a st1 w1)"

section \<open>Quantities and node pressure\<close>

definition int_of_float :: "float_value \<Rightarrow> int res" where
  "int_of_float v = py_int (JFloat v)"

definition scale :: "rat \<Rightarrow> float_value \<Rightarrow> float_value" where
  "scale k v = (case v of Finite r \<Rightarrow> Finite (fl (r * k)) | _ \<Rightarrow> v)"

definition endswith :: "string \<Rightarrow> string \<Rightarrow> bool" where
  "endswith s suf = startswith (rev s) (rev suf)"

definition strip_suffix :: "string \<Rightarrow> string \<Rightarrow> string" where
  "strip_suffix s suf = take (length s - length suf) s"

definition parse_cpu_milli :: "inventory_env \<Rightarrow> string option \<Rightarrow> int res" where
  "parse_cpu_milli env q =
     (case q of
        None \<Rightarrow> Inr 0
      | Some s0 \<Rightarrow>
          if s0 = [] then Inr 0
          else let s = py_strip s0 in
            if endswith s ''m''
            then (case ie_float env (strip_suffix s ''m'') of None \<Rightarrow> Inl ValueError | Some v \<Rightarrow> int_of_float v)
            else (case ie_float env s of
                    None \<Rightarrow> Inr 0
                  | Some v \<Rightarrow> (case int_of_float (scale 1000 v) of Inl ValueError \<Rightarrow> Inr 0 | r \<Rightarrow> r)))"

definition MEM_SUFFIX :: "(string \<times> rat) list" where
  "MEM_SUFFIX = [(''Ki'', 1024), (''Mi'', 1048576), (''Gi'', 1073741824), (''Ti'', 1099511627776),
     (''K'', 1000), (''M'', 1000000), (''G'', 1000000000), (''T'', 1000000000000)]"

definition parse_mem_bytes :: "inventory_env \<Rightarrow> string option \<Rightarrow> int res" where
  "parse_mem_bytes env q =
     (case q of
        None \<Rightarrow> Inr 0
      | Some s0 \<Rightarrow>
          if s0 = [] then Inr 0
          else let s = py_strip s0;
                   (body, k) = (case find (\<lambda>(suf, _). endswith s suf) MEM_SUFFIX of
                     None \<Rightarrow> (s, None) | Some (suf, k) \<Rightarrow> (strip_suffix s suf, Some k)) in
            (case ie_float env body of
               None \<Rightarrow> Inr 0
             | Some v \<Rightarrow> (case int_of_float (case k of None \<Rightarrow> v | Some k' \<Rightarrow> scale k' v) of Inl ValueError \<Rightarrow> Inr 0 | r \<Rightarrow> r)))"

definition add_pod :: "inventory_env \<Rightarrow> (string, int \<times> int) dict \<Rightarrow> pod_info \<Rightarrow> (string, int \<times> int) dict res" where
  "add_pod env req p =
     (case pi_node p of
        Some (c # cs) \<Rightarrow>
          bindE (foldE (\<lambda>(cpu, mem) (qc, qm).
                   bindE (parse_cpu_milli env qc) (\<lambda>c'. bindE (parse_mem_bytes env qm) (\<lambda>m'. Inr (cpu + c', mem + m'))))
                 (case dict_get req (c # cs) of None \<Rightarrow> (0, 0) | Some u \<Rightarrow> u) (pi_requests p))
            (\<lambda>used. Inr (dict_set (c # cs) used req))
      | _ \<Rightarrow> Inr req)"

fun walk_pods :: "'w member_config \<Rightarrow> nat \<Rightarrow> string option \<Rightarrow> (string, int \<times> int) dict \<Rightarrow> 'w
  \<Rightarrow> ((string, int \<times> int) dict res \<times> 'w) option"
where
  "walk_pods cfg 0 cont req w = None"
| "walk_pods cfg (Suc n) cont req w =
     (case mc_pods cfg cont w of
        (Inl e, w1) \<Rightarrow> Some (Inl e, w1)
      | (Inr (pods, next), w1) \<Rightarrow>
          (case foldE (add_pod (mc_env cfg)) req pods of
             Inl e \<Rightarrow> Some (Inl e, w1)
           | Inr req' \<Rightarrow> (case next of Some (c # cs) \<Rightarrow> walk_pods cfg n (Some (c # cs)) req' w1 | _ \<Rightarrow> Some (Inr req', w1))))"

text \<open>One attempt: nothing when there are no nodes, else the nodes and the requests on them.\<close>

definition measure_pods :: "'w member_config \<Rightarrow> 'w \<Rightarrow> ((node_info list \<times> (string, int \<times> int) dict) option res \<times> 'w) option" where
  "measure_pods cfg w =
     (case mc_nodes cfg w of
        (Inl e, w1) \<Rightarrow> Some (Inl e, w1)
      | (Inr nodes, w1) \<Rightarrow>
          if nodes = [] then Some (Inr None, w1)
          else (case walk_pods cfg (mc_pages cfg) None [] w1 of
                  None \<Rightarrow> None
                | Some (Inl e, w2) \<Rightarrow> Some (Inl e, w2)
                | Some (Inr req, w2) \<Rightarrow> Some (Inr (Some (nodes, req)), w2)))"

definition used_ratio :: "int \<Rightarrow> int \<Rightarrow> rat" where
  "used_ratio used alloc = (if alloc = 0 then 0 else min 1 (max 0 (fl (of_int used / of_int alloc))))"

definition add_node :: "inventory_env \<Rightarrow> (string, int \<times> int) dict \<Rightarrow> rat \<times> nat \<Rightarrow> node_info \<Rightarrow> (rat \<times> nat) res" where
  "add_node env req acc n =
     (if ni_unschedulable n then Inr acc
      else bindE (parse_cpu_milli env (ni_cpu n)) (\<lambda>alloc_cpu.
           bindE (parse_mem_bytes env (ni_mem n)) (\<lambda>alloc_mem.
             if alloc_cpu = 0 \<and> alloc_mem = 0 then Inr acc
             else let (used_cpu, used_mem) = (case dict_get req (ni_name n) of None \<Rightarrow> (0, 0) | Some u \<Rightarrow> u);
                      cpu_r = used_ratio used_cpu alloc_cpu; mem_r = used_ratio used_mem alloc_mem in
               Inr (fl (fst acc + fl (fl (cpu_r + mem_r) / 2)), Suc (snd acc)))))"

definition pressure_of :: "inventory_env \<Rightarrow> node_info list \<Rightarrow> (string, int \<times> int) dict \<Rightarrow> rat option res" where
  "pressure_of env nodes req =
     bindE (foldE (add_node env req) (0, 0) nodes) (\<lambda>(acc, counted).
       Inr (if counted = 0 then None else Some (fl (acc / of_nat counted))))"

definition node_pressure :: "'w member_config \<Rightarrow> 'w \<Rightarrow> (rat option res \<times> 'w) option" where
  "node_pressure cfg w =
     (let finish = (\<lambda>r. case r of
            None \<Rightarrow> None
          | Some (Inl (ApiException _), w1) \<Rightarrow> Some (Inr None, w1)
          | Some (Inl e, w1) \<Rightarrow> Some (Inl e, w1)
          | Some (Inr None, w1) \<Rightarrow> Some (Inr None, w1)
          | Some (Inr (Some (nodes, req)), w1) \<Rightarrow> Some (pressure_of (mc_env cfg) nodes req, w1)) in
      case measure_pods cfg w of
        Some (Inl e, w1) \<Rightarrow> if e = ApiException 410 then finish (measure_pods cfg w1) else finish (Some (Inl e, w1))
      | r \<Rightarrow> finish r)"

section \<open>The capacity report\<close>

record capacity_report =
  cr_cluster :: string
  cr_updated_at :: string
  cr_generation :: int
  cr_depth :: int
  cr_ready :: int
  cr_claims :: "nat option"
  cr_pressure :: "rat option"
  cr_pools :: "string list"

definition add_pool_status :: "capacity_report \<Rightarrow> json \<Rightarrow> capacity_report res" where
  "add_pool_status rep pool =
     bindE (jindex pool ''metadata'') (\<lambda>md.
     bindE (bindE (jindex md ''name'') (\<lambda>n. case n of JStr s \<Rightarrow> Inr s | _ \<Rightarrow> Inl TypeError)) (\<lambda>name.
     bindE (jget pool ''status'') (\<lambda>st0.
     let status = jor st0 (JObj []) in
     bindE (jget_dflt status ''replicas'' (JInt 0)) (\<lambda>r.
     bindE (py_int (jor r (JInt 0))) (\<lambda>depth.
     bindE (jget_dflt status ''readyReplicas'' (JInt 0)) (\<lambda>rr.
     bindE (py_int (jor rr (JInt 0))) (\<lambda>ready.
     bindE (jget md ''annotations'') (\<lambda>an.
     bindE (jget (jor an (JObj [])) GENERATION_ANNOTATION) (\<lambda>g.
     bindE (if truthy g then (case py_int g of Inl ValueError \<Rightarrow> Inr 0 | q \<Rightarrow> q) else Inr 0) (\<lambda>gen.
       Inr (rep\<lparr>cr_pools := cr_pools rep @ [name], cr_depth := cr_depth rep + depth,
                cr_ready := cr_ready rep + ready, cr_generation := max (cr_generation rep) gen\<rparr>)))))))))))"

definition collect_capacity :: "'w member_config \<Rightarrow> string \<Rightarrow> 'w \<Rightarrow> (capacity_report res \<times> 'w) option" where
  "collect_capacity cfg now_iso w =
     (case managed_pools cfg (mc_pages cfg) JNull w of
        None \<Rightarrow> None
      | Some (Inl e, w1) \<Rightarrow> Some (Inl e, w1)
      | Some (Inr pools, w1) \<Rightarrow>
          (case foldE add_pool_status \<lparr>cr_cluster = mc_cluster cfg, cr_updated_at = now_iso, cr_generation = 0, cr_depth = 0,
                  cr_ready = 0, cr_claims = None, cr_pressure = None, cr_pools = []\<rparr> pools of
             Inl e \<Rightarrow> Some (Inl e, w1)
           | Inr rep0 \<Rightarrow>
               let rep = rep0\<lparr>cr_pools := sort (cr_pools rep0)\<rparr> in
               if \<not> mc_full_detail cfg then Some (Inr rep, w1)
               else (case mc_claims cfg w1 of (claims, w2) \<Rightarrow>
                 (case node_pressure cfg w2 of
                    None \<Rightarrow> None
                  | Some (Inl e, w3) \<Rightarrow> Some (Inl e, w3)
                  | Some (Inr p, w3) \<Rightarrow>
                      Some (Inr (rep\<lparr>cr_claims := (case claims of Inl _ \<Rightarrow> None | Inr n \<Rightarrow> Some n), cr_pressure := p\<rparr>), w3)))))"

definition report_json :: "capacity_report \<Rightarrow> json" where
  "report_json r = JObj [(''cluster'', JStr (cr_cluster r)), (''updated_at'', JStr (cr_updated_at r)),
     (''generation_observed'', JInt (cr_generation r)), (''warmpool_depth'', JInt (cr_depth r)),
     (''warmpool_ready'', JInt (cr_ready r)),
     (''active_claims'', case cr_claims r of None \<Rightarrow> JNull | Some n \<Rightarrow> JInt (int n)), (''claim_p90_ms'', JNull),
     (''node_pressure_score'', case cr_pressure r of None \<Rightarrow> JNull | Some p \<Rightarrow> JFloat (Finite p)),
     (''reported_pools'', JList (map JStr (cr_pools r)))]"

definition capacity_once :: "'w member_config \<Rightarrow> string \<Rightarrow> rat \<Rightarrow> member_state \<Rightarrow> 'w \<Rightarrow> (unit res \<times> member_state \<times> 'w) option" where
  "capacity_once cfg now_iso now st w =
     (case collect_capacity cfg now_iso w of
        None \<Rightarrow> None
      | Some (Inl e, w1) \<Rightarrow> Some (Inl e, st, w1)
      | Some (Inr rep, w1) \<Rightarrow>
          let payload = report_json rep;
              (gcs, w2) = put_json (mc_bucket cfg) (capacity_path (mc_paths cfg) (mc_cluster cfg)) payload None w1;
              (hub, w3) = (case mc_hub cfg of None \<Rightarrow> (Inl RuntimeError, w2) | Some pub \<Rightarrow> pub payload w2) in
          Some (Inr (), if gcs = Inr () \<or> hub = Inr () then st\<lparr>st_capacity_ok := Some now\<rparr> else st, w3))"

section \<open>The member acts only on orders\<close>

text \<open>What the member remembers: an etag stands for a plan that has been taken up.\<close>

definition member_ok :: "member_state \<Rightarrow> bool" where
  "member_ok st \<longleftrightarrow> (st_last_etag st \<noteq> [] \<longrightarrow> st_last st \<noteq> None) \<and> (st_retry st \<longrightarrow> st_last st \<noteq> None)"

lemma accept_plan_cases:
  "accept_plan st etag raw = (r, st1) \<Longrightarrow>
     (st1 = st \<and> (r = Inr (st_last st, False) \<or> (\<exists>e. r = Inl e)))
     \<or> (\<exists>v p. st1 = st\<lparr>st_last_etag := etag\<rparr> \<and> r = Inr (Some p, True) \<and> parse_plan v raw = Inr p)"
  by (auto simp: accept_plan_def split: sum.splits prod.splits if_splits)

lemma fetch_cases:
  assumes "fetch_assignments cfg st w = (r, st1, w1)"
  obtains (kept) "st1 = st \<or> st1 = st\<lparr>st_last_etag := []\<rparr>" and "r = Inr (st_last st, False) \<or> (\<exists>e. r = Inl e)"
    | (new) etag v p raw where "st1 = st\<lparr>st_last_etag := etag\<rparr>" and "r = Inr (Some p, True)" and "parse_plan v raw = Inr p"
proof (cases "get_with_etag (mc_bucket cfg) (fp_assignments (mc_paths cfg)) w")
  case (Pair q w')
  show thesis
  proof (cases q)
    case (Inl e)
    then show thesis using assms Pair kept by (auto simp: fetch_assignments_def split: if_splits)
  next
    case (Inr be)
    obtain bytes etag where be: "be = (bytes, etag)" by fastforce
    show thesis
    proof (cases "etag = st_last_etag st \<or> (\<exists>e. json_loads bytes = Inl e)")
      case True
      then show thesis using assms Pair Inr be kept by (auto simp: fetch_assignments_def split: if_splits)
    next
      case False
      then obtain raw where raw: "json_loads bytes = Inr raw" by (cases "json_loads bytes") auto
      obtain r' st' where a: "accept_plan st etag raw = (r', st')" by fastforce
      then have "r = r'" "st1 = st'" using assms Pair Inr be False raw by (auto simp: fetch_assignments_def)
      with accept_plan_cases [OF a] kept new show thesis by blast
    qed
  qed
qed

lemma reconcile_plan_ok:
  "reconcile_plan cfg now a st w = Some (r, st', w') \<Longrightarrow> st_retry st \<longrightarrow> st_last st \<noteq> None \<Longrightarrow> member_ok st'"
  by (auto simp: reconcile_plan_def member_ok_def Let_def split: if_splits option.splits sum.splits prod.splits)

lemma reconcile_once_ok:
  assumes "member_ok st" and "reconcile_once cfg now st w = Some (r, st', w')"
  shows "member_ok st'"
proof (cases "fetch_assignments cfg st w")
  case (fields q st1 w1)
  then show ?thesis
  proof (cases rule: fetch_cases)
    case kept
    then have "member_ok st1" using assms(1) by (auto simp: member_ok_def)
    then show ?thesis using assms(2) fields
      by (auto simp: reconcile_once_def member_ok_def split: sum.splits option.splits if_splits dest!: reconcile_plan_ok)
  next
    case (new etag v p raw)
    then show ?thesis using assms fields
      by (auto simp: reconcile_once_def member_ok_def dest!: reconcile_plan_ok split: if_splits)
  qed
qed

text \<open>The two loops of a member take turns; between their passes anything may change outside.\<close>

inductive member_reach :: "'w member_config \<Rightarrow> member_state \<times> 'w \<Rightarrow> bool" for cfg where
  start: "member_reach cfg (initial_member, w)"
| reconcile: "member_reach cfg (st, w) \<Longrightarrow> reconcile_once cfg now st w = Some (r, st', w') \<Longrightarrow> member_reach cfg (st', w')"
| capacity: "member_reach cfg (st, w) \<Longrightarrow> capacity_once cfg now_iso now st w = Some (r, st', w') \<Longrightarrow> member_reach cfg (st', w')"
| outside: "member_reach cfg (st, w) \<Longrightarrow> member_reach cfg (st, w')"

lemma capacity_once_ok: "capacity_once cfg now_iso now st w = Some (r, st', w') \<Longrightarrow> member_ok st \<Longrightarrow> member_ok st'"
  by (auto simp: capacity_once_def member_ok_def Let_def split: option.splits sum.splits prod.splits if_splits)

lemma member_reach_ok: "member_reach cfg c \<Longrightarrow> member_ok (fst c)"
  by (induction rule: member_reach.induct)
     (auto simp: initial_member_def member_ok_def [of "initial_member"] dest: reconcile_once_ok capacity_once_ok,
      simp add: member_ok_def)


end
