(* ===== verification/Fleet_Publish.thy ===== *)
theory Fleet_Publish
  imports Fleet_Planner
begin

text \<open>
  Several administrators applying specifications at once. One \<^verbatim>\<open>apply\<close> is cut into the requests it makes
  of the object store, and the requests of all of them, and writes of other objects, interleave in
  any order. \<open>apply_spec_runs\<close> shows that the requests of one apply, uninterrupted, are \<open>apply_spec\<close>.
\<close>

section \<open>One request at a time\<close>

record 'w apply_job =
  aj_env :: planner_env
  aj_load :: "(string, rat) dict \<Rightarrow> ('w, planner_registry) request"
  aj_spec :: fleet_spec
  aj_generation :: "int option"

text \<open>The local variables of \<^verbatim>\<open>apply\<close> between two requests: the attempts left and the generation of the metadata
  while reading, then \<^verbatim>\<open>previous\<close> and \<^verbatim>\<open>store_gen\<close>, then the plan.\<close>

datatype apply_state =
    Reading nat
  | Fetching nat int
  | Loaded "json option" int
  | Ready "json option" assignments int
  | Published assignments
  | Finished "assignments res"

definition after_read :: "json option \<Rightarrow> int \<Rightarrow> apply_state" where
  "after_read raw g =
     (if raw = None \<or> raw = Some JNull then Loaded None 0
      else case jget_dflt (the raw) ''schema_version'' (JInt SCHEMA_VERSION) of
        Inl e \<Rightarrow> Finished (Inl e)
      | Inr v \<Rightarrow> if known_schema v then Loaded raw g else Finished (Inl ValueError))"

fun apply_next :: "'w bucket \<Rightarrow> fleet_paths \<Rightarrow> 'w apply_job \<Rightarrow> apply_state \<Rightarrow> 'w \<Rightarrow> apply_state \<times> 'w" where
  "apply_next api paths job (Reading 0) w = (Finished (Inl RuntimeError), w)"
| "apply_next api paths job (Reading (Suc n)) w =
     (case gb_get_blob api (fp_assignments paths) w of
        (Inl e, w1) \<Rightarrow> (Finished (Inl e), w1)
      | (Inr None, w1) \<Rightarrow> (after_read None 0, w1)
      | (Inr (Some m), w1) \<Rightarrow> (Fetching n (bm_generation m), w1))"
| "apply_next api paths job (Fetching n g) w =
     (case gb_download api (fp_assignments paths) (Some g) w of
        (Inr d, w1) \<Rightarrow> (case json_loads d of Inl e \<Rightarrow> Finished (Inl e) | Inr j \<Rightarrow> after_read (Some j) g, w1)
      | (Inl e, w1) \<Rightarrow>
          (if e = GoogleAPIError 404 then after_read None 0
           else if e = GoogleAPIError 412 then Reading n
           else Finished (Inl e), w1))"
| "apply_next api paths job (Loaded previous store_gen) w =
     (case bindE (published_generation previous) (\<lambda>g. next_generation g (aj_generation job)) of
        Inl e \<Rightarrow> (Finished (Inl e), w)
      | Inr gen \<Rightarrow>
          (case aj_load job (spec_weights (aj_spec job)) w of
             (Inl e, w1) \<Rightarrow> (Finished (Inl e), w1)
           | (Inr reg, w1) \<Rightarrow>
               (case plan (aj_env job) (aj_spec job) reg gen previous of
                  Inl e \<Rightarrow> (Finished (Inl e), w1)
                | Inr a \<Rightarrow> (Ready previous a store_gen, w1))))"
| "apply_next api paths job (Ready previous a store_gen) w =
     (case publish api paths a (Some store_gen) w of
        (Inl e, w1) \<Rightarrow> (Finished (Inl e), w1)
      | (Inr _, w1) \<Rightarrow> (Published a, w1))"
| "apply_next api paths job (Published a) w =
     (case archive_spec api paths (aj_spec job) (as_generation a) w of
        (Inl e, w1) \<Rightarrow> (Finished (Inl e), w1)
      | (Inr _, w1) \<Rightarrow> (Finished (Inr a), w1))"
| "apply_next api paths job (Finished r) w = (Finished r, w)"

inductive apply_moves :: "'w bucket \<Rightarrow> fleet_paths \<Rightarrow> 'w apply_job \<Rightarrow> apply_state \<times> 'w \<Rightarrow> apply_state \<times> 'w \<Rightarrow> bool"
  for api paths job
where
  stop: "apply_moves api paths job c c"
| move: "apply_next api paths job s w = c' \<Longrightarrow> apply_moves api paths job c' c'' \<Longrightarrow> apply_moves api paths job (s, w) c''"

lemma read_moves:
  "read_pinned api (fp_assignments paths) n w = (r, w') \<Longrightarrow>
     apply_moves api paths job
       (case r of Inl e \<Rightarrow> Finished (Inl e)
        | Inr None \<Rightarrow> after_read None 0
        | Inr (Some (d, g)) \<Rightarrow> (case json_loads d of Inl e \<Rightarrow> Finished (Inl e) | Inr j \<Rightarrow> after_read (Some j) g), w') c
     \<Longrightarrow> apply_moves api paths job (Reading n, w) c"
proof (induction n arbitrary: w)
  case 0
  then show ?case by (auto intro: apply_moves.intros)
next
  case (Suc n)
  obtain q w1 where q: "gb_get_blob api (fp_assignments paths) w = (q, w1)" by fastforce
  show ?case
  proof (cases "\<exists>m. q = Inr (Some m)")
    case True
    then obtain m where m: "q = Inr (Some m)" by blast
    have "apply_moves api paths job (Fetching n (bm_generation m), w1) c"
    proof (cases "gb_download api (fp_assignments paths) (Some (bm_generation m)) w1")
      case (Pair p w2)
      then show ?thesis using Suc q m by (auto split: sum.splits if_splits intro!: apply_moves.move)
    qed
    then show ?thesis using q m by (auto intro: apply_moves.move)
  next
    case False
    then show ?thesis using Suc.prems q by (auto split: sum.splits option.splits intro!: apply_moves.move)
  qed
qed

lemma plan_generation: "plan env spec reg gen previous = Inr a \<Longrightarrow> as_generation a = gen"
  by (auto simp: plan_def Let_def bindE_eq_Inr split: if_splits)

lemma move_once: "apply_next api paths job s w = c \<Longrightarrow> apply_moves api paths job (s, w) c"
  by (auto intro: apply_moves.intros)

lemma ready_moves:
  "(case publish api paths a (Some store_gen) w of
      (Inl e, w2) \<Rightarrow> (Inl e, w2)
    | (Inr _, w2) \<Rightarrow>
        (case archive_spec api paths (aj_spec job) (as_generation a) w2 of
           (Inl e, w3) \<Rightarrow> (Inl e, w3)
         | (Inr _, w3) \<Rightarrow> (Inr a, w3))) = (r, w') \<Longrightarrow>
   apply_moves api paths job (Ready previous a store_gen, w) (Finished r, w')"
proof (cases "publish api paths a (Some store_gen) w")
  case (Pair q w2)
  assume h: "(case publish api paths a (Some store_gen) w of
      (Inl e, w2) \<Rightarrow> (Inl e, w2)
    | (Inr _, w2) \<Rightarrow>
        (case archive_spec api paths (aj_spec job) (as_generation a) w2 of
           (Inl e, w3) \<Rightarrow> (Inl e, w3)
         | (Inr _, w3) \<Rightarrow> (Inr a, w3))) = (r, w')"
  show ?thesis
  proof (cases q)
    case Inl
    then show ?thesis using h Pair by (auto intro: move_once)
  next
    case Inr
    then have "apply_moves api paths job (Published a, w2) (Finished r, w')"
      using h Pair by (auto split: sum.splits prod.splits intro!: move_once)
    then show ?thesis using Pair Inr by (auto intro: apply_moves.move)
  qed
qed

lemma loaded_moves:
  assumes "apply_loaded api paths (aj_env job) (aj_load job) (aj_spec job) (aj_generation job) previous store_gen w = (r, w')"
  shows "apply_moves api paths job (Loaded previous store_gen, w) (Finished r, w')"
proof (cases "apply_next api paths job (Loaded previous store_gen) w")
  case (Pair s w1)
  show ?thesis
  proof (cases "\<exists>a. s = Ready previous a store_gen")
    case True
    then obtain a where a: "s = Ready previous a store_gen" by blast
    have "apply_moves api paths job (Ready previous a store_gen, w1) (Finished r, w')"
      by (rule ready_moves)
         (use assms Pair a in \<open>auto simp: apply_loaded_def dest: plan_generation plan_generation [OF sym] split: sum.splits prod.splits\<close>)
    then show ?thesis using Pair a by (auto intro: apply_moves.move)
  next
    case False
    then have "s = Finished r \<and> w1 = w'" using assms Pair by (auto simp: apply_loaded_def split: sum.splits prod.splits)
    then show ?thesis using Pair by (auto intro: move_once)
  qed
qed

lemma apply_spec_runs:
  assumes "apply_spec api paths (aj_env job) (aj_load job) (aj_spec job) (aj_generation job) w = (r, w')"
  shows "apply_moves api paths job (Reading 3, w) (Finished r, w')"
proof -
  obtain q w1 where q: "read_pinned api (fp_assignments paths) 3 w = (q, w1)" by fastforce
  have "apply_moves api paths job
       (case q of Inl e \<Rightarrow> Finished (Inl e)
        | Inr None \<Rightarrow> after_read None 0
        | Inr (Some (d, g)) \<Rightarrow> (case json_loads d of Inl e \<Rightarrow> Finished (Inl e) | Inr j \<Rightarrow> after_read (Some j) g), w1) (Finished r, w')"
    using assms q
    by (auto simp: apply_spec_def read_published_payload_def get_json_with_generation_def after_read_def
        split: sum.splits option.splits prod.splits if_splits intro: apply_moves.stop loaded_moves)
  with read_moves [OF q] show ?thesis by blast
qed

section \<open>Concurrent administrators\<close>

text \<open>A step of the fleet: the next request of one apply, or a write to some other object.\<close>

inductive fleet_step :: "'w bucket \<Rightarrow> fleet_paths \<Rightarrow> 'w apply_job list \<Rightarrow> 'w \<times> apply_state list \<Rightarrow> 'w \<times> apply_state list \<Rightarrow> bool"
  for api paths jobs
where
  request: "i < length ps \<Longrightarrow> apply_next api paths (jobs ! i) (ps ! i) w = (s', w') \<Longrightarrow>
    fleet_step api paths jobs (w, ps) (w', ps[i := s'])"
| other_write: "path \<noteq> fp_assignments paths \<Longrightarrow> gb_upload api path d ct m w = (r, w') \<Longrightarrow>
    fleet_step api paths jobs (w, ps) (w', ps)"

inductive fleet_reach :: "'w bucket \<Rightarrow> fleet_paths \<Rightarrow> 'w apply_job list \<Rightarrow> 'w \<times> apply_state list \<Rightarrow> bool"
  for api paths jobs
where
  start: "fleet_reach api paths jobs (w, replicate (length jobs) (Reading 3))"
| step: "fleet_reach api paths jobs c \<Longrightarrow> fleet_step api paths jobs c c' \<Longrightarrow> fleet_reach api paths jobs c'"

text \<open>The inventory only reads, and the archive of the specification is another object.\<close>

definition apply_setting :: "'w bucket \<Rightarrow> 'w view \<Rightarrow> fleet_paths \<Rightarrow> 'w apply_job list \<Rightarrow> bool" where
  "apply_setting api view paths jobs \<longleftrightarrow> cas_bucket api view \<and> fp_spec paths \<noteq> fp_assignments paths
     \<and> (\<forall>job \<in> set jobs. \<forall>ws w. view (snd (aj_load job ws w)) = view w)"

lemma read_reports_view: "cas_bucket api view \<Longrightarrow> view (snd (read_reports api ns w)) = view w"
proof (induction ns arbitrary: w)
  case (Cons n ns)
  obtain q w1 where q: "gb_download api n None w = (q, w1)" by fastforce
  have "view w1 = view w" using cas_download [OF Cons.prems q] by blast
  with q Cons.IH [OF Cons.prems, of w1] show ?case
    by (auto simp: get_json_def split: sum.splits prod.splits if_splits)
qed simp

lemma gcs_load_view:
  assumes "cas_bucket api view"
  shows "view (snd (gcs_load api paths env ws w)) = view w"
proof -
  obtain q w1 where q: "gb_list api (fp_capacity_prefix paths) w = (q, w1)" by fastforce
  with cas_list [OF assms q] read_reports_view [OF assms, of _ w1] show ?thesis
    by (auto simp: gcs_load_def list_prefix_def split: sum.splits prod.splits) (metis snd_conv)+
qed

text \<open>A payload and the generation it was read under, seen from a later moment.\<close>

definition based_on :: "'w view \<Rightarrow> string \<Rightarrow> 'w \<Rightarrow> json option \<Rightarrow> int \<Rightarrow> bool" where
  "based_on view path w previous g \<longleftrightarrow> g \<le> gen_of (view w path)
     \<and> (gen_of (view w path) = g \<longrightarrow> view w path = map_option (\<lambda>j. (g, JsonText j)) previous)"

definition derived :: "'w apply_job \<Rightarrow> json option \<Rightarrow> assignments \<Rightarrow> bool" where
  "derived job previous a \<longleftrightarrow> (\<exists>n reg. published_generation previous = Inr n \<and> n < as_generation a
     \<and> plan (aj_env job) (aj_spec job) reg (as_generation a) previous = Inr a)"

definition state_ok :: "'w view \<Rightarrow> string \<Rightarrow> 'w apply_job \<Rightarrow> 'w \<Rightarrow> apply_state \<Rightarrow> bool" where
  "state_ok view path job w s =
     (case s of
        Loaded previous g \<Rightarrow> based_on view path w previous g
      | Ready previous a g \<Rightarrow> based_on view path w previous g \<and> derived job previous a
      | _ \<Rightarrow> True)"

lemma based_on_later:
  assumes "based_on view path w previous g"
    and "view w' path = view w path \<or> gen_of (view w path) < gen_of (view w' path)"
  shows "based_on view path w' previous g"
  using assms(2)
proof
  assume "gen_of (view w path) < gen_of (view w' path)"
  moreover have "g \<le> gen_of (view w path)" using assms(1) by (simp add: based_on_def)
  ultimately show ?thesis by (simp add: based_on_def)
next
  assume same: "view w' path = view w path"
  show ?thesis using assms(1) unfolding based_on_def same .
qed

lemma state_ok_later:
  "state_ok view path job w s \<Longrightarrow> view w' path = view w path \<or> gen_of (view w path) < gen_of (view w' path) \<Longrightarrow>
     state_ok view path job w' s"
  unfolding state_ok_def by (cases s) (auto intro: based_on_later)

lemma next_generation_greater: "next_generation g override = Inr n \<Longrightarrow> g < n"
  by (auto simp: next_generation_def split: option.splits if_splits)

lemma derived_plan:
  assumes "published_generation previous = Inr n" and "next_generation n override = Inr gen"
    and "plan (aj_env job) (aj_spec job) reg gen previous = Inr a"
  shows "derived job previous a"
  using assms next_generation_greater [OF assms(2)] plan_generation [OF assms(3)] by (auto simp: derived_def)

lemma gen_of_simps [simp]: "gen_of None = 0" "gen_of (Some (g, d)) = g"
  by (simp_all add: gen_of_def)

lemma writtenD: "written v path d m v' \<Longrightarrow>
    gen_of (v path) < gen_of (v' path) \<and> (\<exists>g. v' path = Some (g, d)) \<and> (\<forall>q. q \<noteq> path \<longrightarrow> v' q = v q)
    \<and> (\<forall>g. m = Some g \<longrightarrow> g = gen_of (v path))"
  by (auto simp: written_def)

lemma after_read_ok:
  "cas_bucket api view \<Longrightarrow> view w path = map_option (\<lambda>j. (g, JsonText j)) raw \<Longrightarrow> state_ok view path job w (after_read raw g)"
  by (auto simp: after_read_def state_ok_def based_on_def dest: cas_gen_pos split: sum.splits)

lemma publish_view:
  assumes "cas_bucket api view" and "publish api paths a (Some g) w = (r, w')"
  shows "view w' (fp_assignments paths) = view w (fp_assignments paths)
    \<or> g = gen_of (view w (fp_assignments paths))
      \<and> (\<exists>g' > g. view w' (fp_assignments paths) = Some (g', JsonText (sort_keys (assignments_json a))))"
  using put_json_effect [OF assms(1) assms(2) [unfolded publish_def]]
  by (cases "r = Inr ()") (auto dest!: writtenD)

lemma archive_view:
  assumes "cas_bucket api view" and "fp_spec paths \<noteq> fp_assignments paths" and "archive_spec api paths spec gen w = (r, w')"
  shows "view w' (fp_assignments paths) = view w (fp_assignments paths)"
proof -
  from assms(3) obtain j where "put_json api (fp_spec paths) j None w = (r, w')" by (auto simp: archive_spec_def spec_json_def)
  from put_json_effect [OF assms(1) this] assms(2) show ?thesis by (cases "r = Inr ()") (auto dest!: writtenD)
qed

lemma apply_next_view:
  assumes "apply_setting api view paths jobs" and "job \<in> set jobs" and "apply_next api paths job s w = (s', w')"
  shows "view w' (fp_assignments paths) = view w (fp_assignments paths)
    \<or> (\<exists>previous a g. s = Ready previous a g \<and> g = gen_of (view w (fp_assignments paths))
      \<and> (\<exists>g' > g. view w' (fp_assignments paths) = Some (g', JsonText (sort_keys (assignments_json a)))))"
proof -
  have cas: "cas_bucket api view" and spec: "fp_spec paths \<noteq> fp_assignments paths"
    and load: "\<And>ws w. view (snd (aj_load job ws w)) = view w"
    using assms(1,2) by (auto simp: apply_setting_def)
  show ?thesis
  proof (cases s)
    case (Reading n)
    then show ?thesis using assms(3) cas_get_blob [OF cas]
      by (cases n) (auto split: sum.splits option.splits prod.splits)
  next
    case (Fetching n g)
    then show ?thesis using assms(3) cas_download [OF cas] by (auto split: sum.splits prod.splits)
  next
    case (Loaded previous g)
    then show ?thesis using assms(3) load [of "spec_weights (aj_spec job)" w] by (auto split: sum.splits prod.splits)
  next
    case (Ready previous a g)
    then show ?thesis using assms(3) publish_view [OF cas] by (fastforce split: sum.splits prod.splits)
  next
    case (Published a)
    then show ?thesis using assms(3) archive_view [OF cas spec] by (auto split: sum.splits prod.splits)
  qed (use assms(3) in simp)
qed

lemma apply_next_ok:
  assumes "apply_setting api view paths jobs" and "job \<in> set jobs" and "apply_next api paths job s w = (s', w')"
    and "state_ok view (fp_assignments paths) job w s"
  shows "state_ok view (fp_assignments paths) job w' s'"
proof -
  have cas: "cas_bucket api view" and load: "\<And>ws w. view (snd (aj_load job ws w)) = view w"
    using assms(1,2) by (auto simp: apply_setting_def)
  show ?thesis
  proof (cases s)
    case (Reading n)
    show ?thesis
    proof (cases n)
      case (Suc k)
      obtain q w1 where q: "gb_get_blob api (fp_assignments paths) w = (q, w1)" by fastforce
      show ?thesis using assms(3) q Reading Suc cas_get_blob [OF cas q] after_read_ok [OF cas, of w' _ _ None]
        by (auto simp: state_ok_def split: sum.splits option.splits)
    qed (use assms(3) Reading in \<open>auto simp: state_ok_def\<close>)
  next
    case (Fetching n g)
    obtain q w1 where q: "gb_download api (fp_assignments paths) (Some g) w = (q, w1)" by fastforce
    show ?thesis
    proof (cases q)
      case (Inl e)
      then show ?thesis using assms(3) q Fetching cas_download [OF cas q] after_read_ok [OF cas, of w' _ _ None]
        by (auto simp: state_ok_def split: if_splits)
    next
      case (Inr d)
      then have v: "view w' (fp_assignments paths) = Some (g, d)" using assms(3) q Fetching cas_download [OF cas q] by auto
      show ?thesis
      proof (cases d)
        case (JsonText j)
        then show ?thesis using assms(3) q Fetching Inr v after_read_ok [OF cas, of w' _ g "Some j"] by simp
      qed (use assms(3) q Fetching Inr in \<open>auto simp: state_ok_def\<close>)
    qed
  next
    case (Loaded previous g)
    then show ?thesis using assms(3,4) load [of "spec_weights (aj_spec job)" w]
      by (auto simp: state_ok_def based_on_def bindE_eq_Inr split: sum.splits prod.splits intro: derived_plan)
  next
    case (Ready previous a g)
    then show ?thesis using assms(3) by (auto simp: state_ok_def split: sum.splits prod.splits)
  next
    case (Published a)
    then show ?thesis using assms(3) by (auto simp: state_ok_def split: sum.splits prod.splits)
  qed (use assms(3) in \<open>auto simp: state_ok_def\<close>)
qed

lemma reach_ok:
  assumes "apply_setting api view paths jobs" and "fleet_reach api paths jobs c"
  shows "length (snd c) = length jobs \<and> (\<forall>i < length jobs. state_ok view (fp_assignments paths) (jobs ! i) (fst c) (snd c ! i))"
  using assms(2)
proof (induction rule: fleet_reach.induct)
  case (step c c')
  have cas: "cas_bucket api view" using assms(1) by (simp add: apply_setting_def)
  from step.hyps(2) show ?case
  proof (cases rule: fleet_step.cases)
    case (request i ps w s' w')
    have i: "i < length jobs" "jobs ! i \<in> set jobs" using request step.IH by simp_all
    note v = apply_next_view [OF assms(1) i(2) request(4)]
    have "state_ok view (fp_assignments paths) (jobs ! i) w' s'"
      by (rule apply_next_ok [OF assms(1) i(2) request(4)]) (use step.IH request i(1) in simp)
    moreover have later: "view w' (fp_assignments paths) = view w (fp_assignments paths)
        \<or> gen_of (view w (fp_assignments paths)) < gen_of (view w' (fp_assignments paths))" using v by auto
    ultimately show ?thesis using request step.IH state_ok_later [where view = view and w = w and w' = w' and path = "fp_assignments paths", OF _ later] by (auto simp: nth_list_update)
  next
    case (other_write path d ct m w r w' ps)
    have later: "view w' (fp_assignments paths) = view w (fp_assignments paths)"
      using cas_upload [OF cas other_write(4)] other_write(3) by (auto dest!: writtenD)
    show ?thesis using other_write step.IH state_ok_later [where view = view and w = w and w' = w' and path = "fp_assignments paths", OF _ disjI1 [OF later]] by auto
  qed
qed (auto simp: state_ok_def)

lemma published_generation_json:
  "published_generation (Some (sort_keys (assignments_json a))) = Inr (as_generation a)"
proof -
  have "truthy (sort_keys (assignments_json a))" by (simp add: assignments_json_def)
  moreover have "jget_dflt (sort_keys (assignments_json a)) ''generation'' (JInt 0) = Inr (JInt (as_generation a))"
    unfolding assignments_json_def by (simp add: map_of_sort_key)
  ultimately show ?thesis by (simp add: published_generation_def py_int_def)
qed

text \<open>(C2) No lost update. However the requests of concurrent applies and the writes of other objects
  interleave, the published assignments change only when an apply whose plan was computed from exactly
  the payload then published replaces it, and the generation in the payload grows: an apply that
  planned from anything older changes nothing.\<close>

theorem apply_no_lost_update:
  assumes "apply_setting api view paths jobs" and "fleet_reach api paths jobs (w, ps)"
    and "fleet_step api paths jobs (w, ps) (w', ps')"
    and "view w' (fp_assignments paths) \<noteq> view w (fp_assignments paths)"
  shows "\<exists>i previous a g g' n. i < length jobs \<and> ps ! i = Ready previous a g \<and> derived (jobs ! i) previous a
    \<and> view w (fp_assignments paths) = map_option (\<lambda>j. (g, JsonText j)) previous
    \<and> view w' (fp_assignments paths) = Some (g', JsonText (sort_keys (assignments_json a))) \<and> g < g'
    \<and> published_generation previous = Inr n
    \<and> published_generation (Some (sort_keys (assignments_json a))) = Inr (as_generation a) \<and> n < as_generation a"
  using assms(3)
proof (cases rule: fleet_step.cases)
  case (request i s')
  from reach_ok [OF assms(1,2)] request(2) have i: "i < length jobs" "jobs ! i \<in> set jobs"
    and ok: "state_ok view (fp_assignments paths) (jobs ! i) w (ps ! i)" by simp_all
  from apply_next_view [OF assms(1) i(2) request(3)] assms(4) obtain previous a g g' where
    r: "ps ! i = Ready previous a g" "g = gen_of (view w (fp_assignments paths))" "g < g'"
      "view w' (fp_assignments paths) = Some (g', JsonText (sort_keys (assignments_json a)))" by blast
  from ok r(1) have "based_on view (fp_assignments paths) w previous g" and d: "derived (jobs ! i) previous a"
    by (simp_all add: state_ok_def)
  then have "view w (fp_assignments paths) = map_option (\<lambda>j. (g, JsonText j)) previous" using r(2) unfolding based_on_def by blast
  moreover obtain n where "published_generation previous = Inr n" "n < as_generation a" using d by (auto simp: derived_def)
  ultimately show ?thesis using i(1) r(1,3,4) d published_generation_json by blast
next
  case (other_write path d ct m r)
  have "cas_bucket api view" using assms(1) by (simp add: apply_setting_def)
  from cas_upload [OF this other_write(3)] other_write(2) assms(4) show ?thesis by (auto dest!: writtenD)
qed

text \<open>Two administrators draining an empty fleet: both have planned from the absent payload, and the first
  one's write goes through.\<close>

definition drain_spec :: fleet_spec where
  "drain_spec = \<lparr>fs_schema = 1, fs_generation = None, fs_max_concurrent = 100, fs_max_pool = 50,
     fs_policy = ''least-loaded'', fs_weights = [], fs_models = [], fs_min_clusters = 0, fs_stale_window = 900\<rparr>"

definition drain_job :: "mem_bucket apply_job" where
  "drain_job = \<lparr>aj_env = sim_plan_env, aj_load = (\<lambda>_ w. (Inr empty_registry, w)), aj_spec = drain_spec, aj_generation = None\<rparr>"

definition drain_plan :: assignments where
  "drain_plan = \<lparr>as_schema = 1, as_generation = 1, as_updated_at = ''now'', as_clusters = []\<rparr>"

lemma drain_steps:
  "apply_next mem_api default_paths drain_job (Reading 3) [] = (Loaded None 0, [])"
  "apply_next mem_api default_paths drain_job (Loaded None 0) [] = (Ready None drain_plan 0, [])"
  "apply_next mem_api default_paths drain_job (Ready None drain_plan 0) [] =
     (Published drain_plan, [(''fleet/assignments.json'', 0, JsonText (sort_keys (assignments_json drain_plan)))])"
proof -
  show "apply_next mem_api default_paths drain_job (Reading 3) [] = (Loaded None 0, [])"
    by (simp add: numeral_3_eq_3 mem_api_def after_read_def)
  have "plan sim_plan_env drain_spec empty_registry 1 None = Inr drain_plan"
    by (simp add: plan_def drain_spec_def get_placement_def Let_def eligible_names_def registry_eligible_def
        registry_fresh_def empty_registry_def check_policy_def place_models_def hamilton_split_def previous_entries_def
        drain_plan_def SCHEMA_VERSION_def sim_plan_env_def)
  then show "apply_next mem_api default_paths drain_job (Loaded None 0) [] = (Ready None drain_plan 0, [])"
    by (simp add: published_generation_def next_generation_def drain_job_def)
  show "apply_next mem_api default_paths drain_job (Ready None drain_plan 0) [] =
     (Published drain_plan, [(''fleet/assignments.json'', 0, JsonText (sort_keys (assignments_json drain_plan)))])"
    by (simp add: publish_def put_json_def mem_api_def default_paths_def)
qed

lemma drain_setting: "apply_setting mem_api mem_view default_paths [drain_job, drain_job]"
  by (simp add: apply_setting_def mem_cas_bucket default_paths_def drain_job_def)

lemma drain_reach:
  "fleet_reach mem_api default_paths [drain_job, drain_job] ([], [Ready None drain_plan 0, Ready None drain_plan 0])"
proof -
  let ?reach = "fleet_reach mem_api default_paths [drain_job, drain_job]"
  have "?reach ([], [Reading 3, Reading 3])"
    using fleet_reach.start [of mem_api default_paths "[drain_job, drain_job]" "[]"] by (simp add: numeral_2_eq_2)
  from fleet_reach.step [OF this fleet_step.request [of 0]] drain_steps(1)
  have "?reach ([], [Loaded None 0, Reading 3])" by fastforce
  from fleet_reach.step [OF this fleet_step.request [of 1]] drain_steps(1)
  have "?reach ([], [Loaded None 0, Loaded None 0])" by fastforce
  from fleet_reach.step [OF this fleet_step.request [of 0]] drain_steps(2)
  have "?reach ([], [Ready None drain_plan 0, Loaded None 0])" by fastforce
  from fleet_reach.step [OF this fleet_step.request [of 1]] drain_steps(2) show ?thesis by fastforce
qed

theorem apply_no_lost_update_witness:
  "\<exists>w' ps'. fleet_step mem_api default_paths [drain_job, drain_job] ([], [Ready None drain_plan 0, Ready None drain_plan 0]) (w', ps')
     \<and> mem_view w' (fp_assignments default_paths) \<noteq> mem_view [] (fp_assignments default_paths)
     \<and> (\<exists>i previous a g g'. [Ready None drain_plan 0, Ready None drain_plan 0] ! i = Ready previous a g
          \<and> mem_view w' (fp_assignments default_paths) = Some (g', JsonText (sort_keys (assignments_json a))) \<and> g < g')"
proof -
  let ?w = "[(''fleet/assignments.json'', 0, JsonText (sort_keys (assignments_json drain_plan)))] :: mem_bucket"
  let ?ps = "[Ready None drain_plan 0, Ready None drain_plan 0]"
  have s: "fleet_step mem_api default_paths [drain_job, drain_job] ([], ?ps) (?w, ?ps[0 := Published drain_plan])"
    by (rule fleet_step.request) (simp_all add: drain_steps(3) del: apply_next.simps)
  have c: "mem_view ?w (fp_assignments default_paths) \<noteq> mem_view [] (fp_assignments default_paths)"
    by (simp add: mem_view_def default_paths_def)
  show ?thesis
    by (rule exI [of _ ?w], rule exI [of _ "?ps[0 := Published drain_plan]"])
       (use apply_no_lost_update [OF drain_setting drain_reach s c] s c in blast)
qed

end
