(* ===== verification/Fleet_Reconcile.thy ===== *)
theory Fleet_Reconcile
  imports Fleet_Member Fleet_Publish
begin

text \<open>
  What a reconcile pass achieves. The custom-object API of a cluster is assumed to store what it is
  given (\<open>cluster_laws\<close>): then a pass that reports nothing to retry has made the managed pools exactly
  those of the plan. A plan that was published is the plan that a member reads.
\<close>

section \<open>What the cluster promises\<close>

text \<open>The label, the template and the size of a pool object.\<close>

definition pool_facts :: "json \<Rightarrow> (bool \<times> json \<times> json) option" where
  "pool_facts obj =
     (case (bindE (jget obj ''metadata'') (\<lambda>m. bindE (jget m ''labels'') (\<lambda>l. jget l MANAGED_LABEL)),
            bindE (jget obj ''spec'') (\<lambda>s. bindE (jget s ''sandboxTemplateRef'') (\<lambda>r. jget r ''name'')),
            bindE (jget obj ''spec'') (\<lambda>s. jget s ''replicas'')) of
        (Inr m, Inr tm, Inr r) \<Rightarrow> Some (m = JStr ''true'', tm, r)
      | _ \<Rightarrow> None)"

definition is_managed :: "json option \<Rightarrow> bool" where
  "is_managed obj = (case obj of None \<Rightarrow> False | Some j \<Rightarrow> (case pool_facts j of Some (m, _) \<Rightarrow> m | None \<Rightarrow> False))"

definition object_name :: "json \<Rightarrow> json res" where
  "object_name obj = bindE (jindex obj ''metadata'') (\<lambda>m. jindex m ''name'')"

text \<open>
  \<open>pools w\<close> are the warm pools of the namespace by name. Reading changes nothing and tells the truth; a
  successful create or replace stores an object with the given label, template and size under its name and
  touches no other; a successful delete removes the object and a failed one leaves it; a complete
  paged listing has the managed pools and nothing else.
\<close>

definition stores :: "(json \<Rightarrow> json option) \<Rightarrow> json \<Rightarrow> json \<Rightarrow> (json \<Rightarrow> json option) \<Rightarrow> bool" where
  "stores v name body v' \<longleftrightarrow> (\<exists>obj. v' = v(name \<mapsto> obj) \<and> pool_facts obj = pool_facts body)"

definition cluster_laws :: "'w member_config \<Rightarrow> ('w \<Rightarrow> json \<Rightarrow> json option) \<Rightarrow> bool" where
  "cluster_laws cfg pools \<longleftrightarrow>
     (\<forall>plural n w. pools (snd (co_get (mc_api cfg) plural n w)) = pools w)
   \<and> (\<forall>body n w w'. co_create (mc_api cfg) POOL_PLURAL body w = (Inr (), w') \<longrightarrow> object_name body = Inr n \<longrightarrow>
        stores (pools w) n body (pools w'))
   \<and> (\<forall>n body w w'. co_replace (mc_api cfg) POOL_PLURAL n body w = (Inr (), w') \<longrightarrow> stores (pools w) n body (pools w'))
   \<and> (\<forall>n w r w'. co_delete (mc_api cfg) POOL_PLURAL n w = (r, w') \<longrightarrow>
        pools w' = (if r = Inr () then (pools w)(n := None) else pools w))
   \<and> (\<forall>w names w'. managed_pool_names cfg w = Some (Inr names, w') \<longrightarrow> pools w' = pools w
        \<and> set names = {n. is_managed (pools w n)})"

lemma cluster_lawsD:
  assumes "cluster_laws cfg pools"
  shows law_get: "\<And>plural n w. pools (snd (co_get (mc_api cfg) plural n w)) = pools w"
    and law_create: "\<And>body n w w'. co_create (mc_api cfg) POOL_PLURAL body w = (Inr (), w') \<Longrightarrow> object_name body = Inr n \<Longrightarrow>
        stores (pools w) n body (pools w')"
    and law_replace: "\<And>n body w w'. co_replace (mc_api cfg) POOL_PLURAL n body w = (Inr (), w') \<Longrightarrow> stores (pools w) n body (pools w')"
    and law_delete: "\<And>n w r w'. co_delete (mc_api cfg) POOL_PLURAL n w = (r, w') \<Longrightarrow>
        pools w' = (if r = Inr () then (pools w)(n := None) else pools w)"
    and law_list: "\<And>w names w'. managed_pool_names cfg w = Some (Inr names, w') \<Longrightarrow> pools w' = pools w
        \<and> set names = {n. is_managed (pools w n)}"
  using assms unfolding cluster_laws_def by blast+

section \<open>A pool is brought up to the plan\<close>

text \<open>The body that the member writes, and the one it merges with the live object.\<close>

lemma pool_body_facts:
  "pool_body cfg g p = Inr body \<Longrightarrow>
     (\<exists>n. py_int (mp_replicas p) = Inr n \<and> pool_facts (JObj body) = Some (True, mp_template p, JInt n))
     \<and> object_name (JObj body) = Inr (mp_warmpool p)"
  by (auto simp: pool_body_def bindE_eq_Inr pool_facts_def object_name_def jindex_def MANAGED_LABEL_def POOL_NAME_LABEL_def
      split: json.splits)

lemma merge_meta_managed:
  "merge_meta theirs (JObj [(MANAGED_LABEL, JStr ''true''), (POOL_NAME_LABEL, l)]) = Inr labels \<Longrightarrow>
     jget labels MANAGED_LABEL = Inr (JStr ''true'')"
  by (auto simp: merge_meta_def MANAGED_LABEL_def POOL_NAME_LABEL_def split: json.splits)

lemma merged_body_facts:
  assumes "pool_body cfg g p = Inr body" and "merged_body existing body = Inr b"
  shows "pool_facts b = pool_facts (JObj body)"
proof -
  from assms(1) obtain label n where body: "body = [(''apiVersion'', JStr ''extensions.agents.x-k8s.io/v1beta1''), (''kind'', JStr ''SandboxWarmPool''),
            (''metadata'', JObj [(''name'', mp_warmpool p), (''namespace'', JStr (mc_namespace cfg)),
               (''labels'', JObj [(MANAGED_LABEL, JStr ''true''), (POOL_NAME_LABEL, JStr label)]),
               (''annotations'', JObj [(GENERATION_ANNOTATION, JStr g)])]),
            (''spec'', JObj [(''sandboxTemplateRef'', JObj [(''name'', mp_template p)]), (''replicas'', JInt n)])]"
    by (auto simp: pool_body_def bindE_eq_Inr)
  from assms(2) obtain theirs labels annotations rv where l: "merge_meta theirs (JObj [(MANAGED_LABEL, JStr ''true''), (POOL_NAME_LABEL, JStr label)]) = Inr labels"
    and b: "b = JObj (dict_set ''metadata'' (JObj (dict_set ''annotations'' annotations (dict_set ''labels'' labels
             (dict_set ''resourceVersion'' rv [(''name'', mp_warmpool p), (''namespace'', JStr (mc_namespace cfg)),
               (''labels'', JObj [(MANAGED_LABEL, JStr ''true''), (POOL_NAME_LABEL, JStr label)]),
               (''annotations'', JObj [(GENERATION_ANNOTATION, JStr g)])])))) body)"
    by (auto simp: merged_body_def body jindex_def bindE_eq_Inr)
  show ?thesis using merge_meta_managed [OF l] by (simp add: b body pool_facts_def)
qed

lemma ensure_stores:
  assumes "cluster_laws cfg pools" and "ensure_warmpool cfg g p w = (Inr (), w')"
  shows "\<exists>n obj. py_int (mp_replicas p) = Inr n \<and> pools w' = (pools w)(mp_warmpool p \<mapsto> obj)
    \<and> pool_facts obj = Some (True, mp_template p, JInt n)"
proof -
  from assms(2) obtain body where body: "pool_body cfg g p = Inr body" and c: "create_or_update cfg (mp_warmpool p) body w = (Inr (), w')"
    by (auto simp: ensure_warmpool_def split: sum.splits)
  obtain q w1 where q: "co_get (mc_api cfg) POOL_PLURAL (mp_warmpool p) w = (q, w1)" by fastforce
  have w1: "pools w1 = pools w" using law_get [OF assms(1), of POOL_PLURAL "mp_warmpool p" w] q by simp
  note f = pool_body_facts [OF body]
  have "\<exists>b. pool_facts b = pool_facts (JObj body) \<and> stores (pools w1) (mp_warmpool p) b (pools w')"
  proof (cases q)
    case (Inl e)
    with c q have "co_create (mc_api cfg) POOL_PLURAL (JObj body) w1 = (Inr (), w')"
      by (auto simp: create_or_update_def split: if_splits)
    with law_create [OF assms(1) this] f show ?thesis by blast
  next
    case (Inr existing)
    with c q obtain b where "merged_body existing body = Inr b" "co_replace (mc_api cfg) POOL_PLURAL (mp_warmpool p) b w1 = (Inr (), w')"
      by (auto simp: create_or_update_def split: sum.splits)
    with law_replace [OF assms(1)] merged_body_facts [OF body] show ?thesis by blast
  qed
  with f w1 show ?thesis by (auto simp: stores_def)
qed

text \<open>The object of a pool is there, managed, with the template and the size of the plan.\<close>

definition in_place :: "(json \<Rightarrow> json option) \<Rightarrow> member_pool \<Rightarrow> bool" where
  "in_place v p \<longleftrightarrow> (\<exists>n obj. py_int (mp_replicas p) = Inr n \<and> v (mp_warmpool p) = Some obj
     \<and> pool_facts obj = Some (True, mp_template p, JInt n))"

lemma in_place_managed: "in_place v p \<Longrightarrow> is_managed (v (mp_warmpool p))"
  by (auto simp: in_place_def is_managed_def)

lemma apply_pools_all:
  assumes "cluster_laws cfg pools"
  shows "apply_pools cfg g ps w = (Inr 0, w') \<Longrightarrow> distinct (map mp_warmpool ps) \<Longrightarrow>
    (\<forall>p \<in> set ps. in_place (pools w') p) \<and> (\<forall>m. m \<notin> mp_warmpool ` set ps \<longrightarrow> pools w' m = pools w m)"
proof (induction ps arbitrary: w)
  case (Cons p ps)
  obtain q w1 where q: "co_get (mc_api cfg) TEMPLATE_PLURAL (mp_template p) w = (q, w1)" by fastforce
  have w1: "pools w1 = pools w" using law_get [OF assms, of TEMPLATE_PLURAL "mp_template p" w] q by simp
  from Cons.prems(1) q obtain w2 where e: "ensure_warmpool cfg g p w1 = (Inr (), w2)" and r: "apply_pools cfg g ps w2 = (Inr 0, w')"
    by (auto simp: template_exists_def split: sum.splits bool.splits prod.splits exn.splits if_splits)
  from ensure_stores [OF assms e] have s: "in_place (pools w2) p" "\<And>m. m \<noteq> mp_warmpool p \<Longrightarrow> pools w2 m = pools w m"
    by (auto simp: in_place_def w1)
  from Cons.IH [OF r] Cons.prems(2) have ih: "\<And>p. p \<in> set ps \<Longrightarrow> in_place (pools w') p"
    "\<And>m. m \<notin> mp_warmpool ` set ps \<Longrightarrow> pools w' m = pools w2 m" by auto
  have "pools w' (mp_warmpool p) = pools w2 (mp_warmpool p)" using ih(2) Cons.prems(2) by auto
  then have "in_place (pools w') p" using s(1) by (simp add: in_place_def)
  then show ?case using ih s(2) by auto
qed simp

text \<open>The deletion of an existing pool succeeds.\<close>

definition deletes_succeed :: "'w member_config \<Rightarrow> ('w \<Rightarrow> json \<Rightarrow> json option) \<Rightarrow> bool" where
  "deletes_succeed cfg pools \<longleftrightarrow> (\<forall>n w. pools w n \<noteq> None \<longrightarrow> fst (co_delete (mc_api cfg) POOL_PLURAL n w) = Inr ())"

lemma delete_orphans_all:
  assumes "cluster_laws cfg pools" and "deletes_succeed cfg pools"
  shows "delete_orphans cfg desired ns w = (Inr (), w') \<Longrightarrow>
    pools w' n = (if n \<in> set ns \<and> dict_get desired n = None then None else pools w n)"
proof (induction ns arbitrary: w)
  case (Cons m ns)
  obtain q w1 where q: "co_delete (mc_api cfg) POOL_PLURAL m w = (q, w1)" by fastforce
  have w1: "pools w1 = (pools w)(m := None)"
  proof (cases "pools w m")
    case None
    then show ?thesis using law_delete [OF assms(1) q] by (auto simp: fun_eq_iff)
  next
    case (Some obj)
    then have "fst (co_delete (mc_api cfg) POOL_PLURAL m w) = Inr ()" using assms(2) by (simp add: deletes_succeed_def)
    with law_delete [OF assms(1) q] q show ?thesis by simp
  qed
  show ?case
  proof (cases "dict_get desired m")
    case None
    then have "delete_orphans cfg desired ns w1 = (Inr (), w')"
      using Cons.prems q by (auto split: sum.splits exn.splits)
    from Cons.IH [OF this] None show ?thesis by (auto simp: w1)
  next
    case (Some p)
    then have "delete_orphans cfg desired ns w = (Inr (), w')" using Cons.prems by simp
    from Cons.IH [OF this] Some show ?thesis by auto
  qed
qed simp

lemma desired_pools_ok:
  "desired_pools ps = Inr d \<Longrightarrow> dict_ok d \<and> (\<forall>(k, p) \<in> set d. mp_warmpool p = k \<and> p \<in> set ps) \<and> fst ` set d = mp_warmpool ` set ps"
proof -
  have "dict_ok (foldl (\<lambda>d p. dict_set (mp_warmpool p) p d) d0 ps)
      \<and> (\<forall>(k, p) \<in> set (foldl (\<lambda>d p. dict_set (mp_warmpool p) p d) d0 ps). mp_warmpool p = k \<and> p \<in> S)
      \<and> fst ` set (foldl (\<lambda>d p. dict_set (mp_warmpool p) p d) d0 ps) = fst ` set d0 \<union> mp_warmpool ` set ps"
    if "dict_ok d0" "\<forall>(k, p) \<in> set d0. mp_warmpool p = k \<and> p \<in> S" "set ps \<subseteq> S" for d0 S
    using that
  proof (induction ps arbitrary: d0)
    case (Cons p ps)
    have "\<forall>(k, q) \<in> set (dict_set (mp_warmpool p) p d0). mp_warmpool q = k \<and> q \<in> S"
      using in_dict_set [OF Cons.prems(1), of _ _ "mp_warmpool p" p] Cons.prems(2,3) by fastforce
    with Cons.IH [of "dict_set (mp_warmpool p) p d0"] Cons.prems show ?case by simp
  qed simp
  from this [of "[]" "set ps"] show "desired_pools ps = Inr d \<Longrightarrow> ?thesis" by (simp add: desired_pools_def split: if_splits)
qed

lemma apply_entry_matches:
  assumes "cluster_laws cfg pools" and "deletes_succeed cfg pools" and "apply_entry cfg g ps w = Some (Inr 0, w')"
  shows "\<exists>desired. desired_pools ps = Inr desired \<and> (\<forall>p \<in> snd ` set desired. in_place (pools w') p)
    \<and> (\<forall>n. is_managed (pools w' n) \<longleftrightarrow> n \<in> mp_warmpool ` set ps)
    \<and> (\<forall>n. n \<notin> mp_warmpool ` set ps \<longrightarrow> \<not> is_managed (pools w n) \<longrightarrow> pools w' n = pools w n)"
proof -
  from assms(3) obtain desired w1 names w2 where d: "desired_pools ps = Inr desired"
    and a: "apply_pools cfg g (map snd desired) w = (Inr 0, w1)" and l: "managed_pool_names cfg w1 = Some (Inr names, w2)"
    and o: "delete_orphans cfg desired names w2 = (Inr (), w')"
    by (auto simp: apply_entry_def split: sum.splits option.splits prod.splits)
  have ok: "dict_ok desired" and each: "\<And>k p. (k, p) \<in> set desired \<Longrightarrow> mp_warmpool p = k"
    and keys: "fst ` set desired = mp_warmpool ` set ps"
    using desired_pools_ok [OF d] by auto
  have names: "map mp_warmpool (map snd desired) = map fst desired" using each by auto
  have dn: "distinct (map mp_warmpool (map snd desired))" unfolding names by (rule ok)
  from names have "mp_warmpool ` set (map snd desired) = fst ` set desired" by (metis set_map)
  with apply_pools_all [OF assms(1) a dn] have ap: "\<And>p. p \<in> snd ` set desired \<Longrightarrow> in_place (pools w1) p"
    "\<And>m. m \<notin> fst ` set desired \<Longrightarrow> pools w1 m = pools w m" by auto
  have ls: "pools w2 = pools w1" "set names = {n. is_managed (pools w1 n)}" using law_list [OF assms(1) l] by auto
  have fin: "pools w' n = (if is_managed (pools w1 n) \<and> n \<notin> fst ` set desired then None else pools w1 n)" for n
    using delete_orphans_all [OF assms(1,2) o, of n] by (simp add: ls map_of_eq_None_iff)
  have here: "in_place (pools w') p" if "p \<in> snd ` set desired" for p
  proof -
    from that obtain k where "(k, p) \<in> set desired" by auto
    then have "mp_warmpool p \<in> fst ` set desired" using each by force
    then show ?thesis using ap(1) [OF that] fin [of "mp_warmpool p"] by (simp add: in_place_def)
  qed
  have "is_managed (pools w' n) \<longleftrightarrow> n \<in> fst ` set desired" for n
  proof
    assume "n \<in> fst ` set desired"
    then obtain p where p: "(n, p) \<in> set desired" by auto
    then have "in_place (pools w') p" by (intro here) force
    then show "is_managed (pools w' n)" using in_place_managed each [OF p] by blast
  qed (use fin in \<open>auto simp: is_managed_def split: if_splits\<close>)
  with d here fin ap(2) show ?thesis by (auto simp: keys [symmetric])
qed


section \<open>The plan that is published is the plan that is read\<close>

definition member_view :: "cluster_assignment \<Rightarrow> member_entry" where
  "member_view ca = \<lparr>me_pools = map (\<lambda>p. \<lparr>mp_template = JStr (ap_template p), mp_warmpool = JStr (ap_warmpool p),
       mp_replicas = JInt (ap_replicas p), mp_image = opt_json (ap_image p)\<rparr>) (ca_pools ca),
     me_stale_since = opt_json (ca_stale_since ca)\<rparr>"

lemma pool_from_published:
  "pool_from_json (sort_keys (pool_json p)) = Inr \<lparr>mp_template = JStr (ap_template p), mp_warmpool = JStr (ap_warmpool p),
     mp_replicas = JInt (ap_replicas p), mp_image = opt_json (ap_image p)\<rparr>"
  by (simp add: pool_json_def pool_from_json_def map_of_sort_key)

lemma mapE_map: "(\<And>x. f (g x) = Inr (h x)) \<Longrightarrow> mapE f (map g xs) = Inr (map h xs)"
  by (induction xs) auto

lemma entry_from_published: "entry_from_json (sort_keys (cluster_json ca)) = Inr (member_view ca)"
proof -
  have p: "mapE pool_from_json (map (sort_keys \<circ> pool_json) ps) = Inr (map (\<lambda>p. \<lparr>mp_template = JStr (ap_template p),
     mp_warmpool = JStr (ap_warmpool p), mp_replicas = JInt (ap_replicas p), mp_image = opt_json (ap_image p)\<rparr>) ps)" for ps
    by (rule mapE_map) (simp add: pool_from_published)
  show ?thesis unfolding entry_from_json_def cluster_json_def member_view_def
    by (simp add: sort_keys_lookup map_of_sort_key p)
qed

lemma mapE_entries:
  "(\<And>kv. kv \<in> set kvs \<Longrightarrow> f (snd kv) = Inr (g (snd kv))) \<Longrightarrow>
     mapE (\<lambda>kv. bindE (f (snd kv)) (\<lambda>e. Inr (fst kv, e))) kvs = Inr (map (\<lambda>kv. (fst kv, g (snd kv))) kvs)"
  by (induction kvs) auto

lemma parse_published:
  assumes "dict_ok (as_clusters a)"
  obtains p where "parse_plan v (sort_keys (assignments_json a)) = Inr p" and "mq_generation p = JInt (as_generation a)"
    and "\<forall>k. dict_get (mq_clusters p) k = map_option member_view (dict_get (as_clusters a) k)"
proof -
  let ?cl = "map (\<lambda>kv. (fst kv, sort_keys (snd kv))) (map (\<lambda>(k, ca). (k, cluster_json ca)) (as_clusters a))"
  let ?kvs = "sort_key fst ?cl"
  let ?g = "\<lambda>j. the (case entry_from_json j of Inr e \<Rightarrow> Some e | Inl _ \<Rightarrow> None)"
  have j: "jget_dflt (sort_keys (assignments_json a)) ''clusters'' (JObj []) = Inr (JObj ?kvs)"
    "jget_dflt (sort_keys (assignments_json a)) ''generation'' (JInt 0) = Inr (JInt (as_generation a))"
    "jget_dflt (sort_keys (assignments_json a)) ''updated_at'' (JStr []) = Inr (JStr (as_updated_at a))"
    unfolding assignments_json_def by (simp_all add: map_of_sort_key)
  have "mapE (\<lambda>kv. bindE (entry_from_json (snd kv)) (\<lambda>e. Inr (fst kv, e))) ?kvs = Inr (map (\<lambda>kv. (fst kv, ?g (snd kv))) ?kvs)"
    by (rule mapE_entries) (auto simp: entry_from_published)
  then have c: "clusters_from_json (JObj ?kvs) = Inr (map (\<lambda>kv. (fst kv, ?g (snd kv))) ?kvs)" by (simp add: clusters_from_json_def)
  have d: "distinct (map fst ?cl)" using assms by (simp add: comp_def split_def)
  have "dict_get (map (\<lambda>kv. (fst kv, ?g (snd kv))) ?kvs) k = map_option member_view (dict_get (as_clusters a) k)" for k
    unfolding dict_get_map [where f = ?g and d = ?kvs] map_of_sort_key [OF d]
    by (simp add: comp_def split_def dict_get_map [where f = "\<lambda>ca. sort_keys (cluster_json ca)"] option.map_comp entry_from_published)
  moreover have "parse_plan v (sort_keys (assignments_json a)) = Inr \<lparr>mq_schema = v, mq_generation = JInt (as_generation a),
      mq_updated_at = JStr (as_updated_at a), mq_clusters = map (\<lambda>kv. (fst kv, ?g (snd kv))) ?kvs\<rparr>"
    by (simp only: parse_plan_def j c bindE_simps)
  ultimately show thesis using that by simp
qed

lemma fetched_bytes:
  assumes "cas_bucket api view" and "get_with_etag api path w = (Inr (bytes, etag), w')"
  shows "\<exists>g. view w path = Some (g, bytes) \<and> etag = ''gen:'' @ show_int g \<and> view w' = view w"
proof -
  obtain q w1 where q: "read_pinned api path 3 w = (q, w1)" by fastforce
  from read_pinned_view [OF assms(1) q] assms(2) q show ?thesis
    by (auto simp: get_with_etag_def split: sum.splits option.splits)
qed

lemma published_plan_fetched:
  assumes "cas_bucket (mc_bucket cfg) view" and "dict_ok (as_clusters a)" and "as_schema a = SCHEMA_VERSION"
    and "publish (mc_bucket cfg) (mc_paths cfg) a m w = (Inr (), w1)"
    and "get_with_etag (mc_bucket cfg) (fp_assignments (mc_paths cfg)) w1 = (Inr (bytes, etag), w2)"
    and "etag \<noteq> st_last_etag st"
  shows "\<exists>p. fetch_assignments cfg st w1 = (Inr (Some p, True), st\<lparr>st_last_etag := etag\<rparr>, w2)
    \<and> mq_generation p = JInt (as_generation a)
    \<and> (\<forall>k. dict_get (mq_clusters p) k = map_option member_view (dict_get (as_clusters a) k))"
proof -
  have "\<exists>g. view w1 (fp_assignments (mc_paths cfg)) = Some (g, JsonText (sort_keys (assignments_json a)))"
    using put_json_effect [OF assms(1) assms(4) [unfolded publish_def]] by (auto dest!: writtenD)
  with fetched_bytes [OF assms(1,5)] have bytes: "bytes = JsonText (sort_keys (assignments_json a))" by auto
  have v: "jget_dflt (sort_keys (assignments_json a)) ''schema_version'' (JInt SCHEMA_VERSION) = Inr (JInt SCHEMA_VERSION)"
    unfolding assignments_json_def by (simp add: map_of_sort_key assms(3))
  obtain p where p: "parse_plan (JInt SCHEMA_VERSION) (sort_keys (assignments_json a)) = Inr p" "mq_generation p = JInt (as_generation a)"
    "\<forall>k. dict_get (mq_clusters p) k = map_option member_view (dict_get (as_clusters a) k)"
    by (rule parse_published [OF assms(2)])
  have "accept_plan st etag (sort_keys (assignments_json a)) = (Inr (Some p, True), st\<lparr>st_last_etag := etag\<rparr>)"
    by (simp add: accept_plan_def v supported_schema_def known_schema_def p(1))
  then show ?thesis using assms(5,6) bytes p(2,3) by (simp add: fetch_assignments_def)
qed

text \<open>(C12) What the planner publishes is what the members do. After a successful publication, a member that
  reads the object, and has not read this version of it before, takes up a plan with the generation
  that was published and, for every cluster, the pools (template, name, size, image) and the stale
  mark that were published, whatever the order of the keys in the file.\<close>

theorem published_plan_reaches_member:
  assumes "cas_bucket (mc_bucket cfg) view" and "dict_ok (as_clusters a)" and "as_schema a = SCHEMA_VERSION"
    and "publish (mc_bucket cfg) (mc_paths cfg) a m w = (Inr (), w1)"
    and "get_with_etag (mc_bucket cfg) (fp_assignments (mc_paths cfg)) w1 = (Inr (bytes, etag), w2)"
    and "etag \<noteq> st_last_etag st"
  shows "\<exists>p. fetch_assignments cfg st w1 = (Inr (Some p, True), st\<lparr>st_last_etag := etag\<rparr>, w2)
    \<and> mq_generation p = JInt (as_generation a)
    \<and> (\<forall>k. dict_get (mq_clusters p) k = map_option member_view (dict_get (as_clusters a) k))"
  by (rule published_plan_fetched [OF assms])

section \<open>A cluster in memory\<close>

text \<open>The world of the examples: a bucket and the warm pools of a cluster.\<close>

type_synonym mem_cluster = "mem_bucket \<times> (json, json) dict"

definition lift_bucket :: "('a, 'b) request \<Rightarrow> 'a \<times> 'c \<Rightarrow> 'b res \<times> 'a \<times> 'c" where
  "lift_bucket f w = (case f (fst w) of (r, b) \<Rightarrow> (r, b, snd w))"

definition mem_cluster_bucket :: "mem_cluster bucket" where
  "mem_cluster_bucket = \<lparr>gb_get_blob = (\<lambda>p. lift_bucket (gb_get_blob mem_api p)),
     gb_download = (\<lambda>p m. lift_bucket (gb_download mem_api p m)),
     gb_upload = (\<lambda>p d ct m. lift_bucket (gb_upload mem_api p d ct m)),
     gb_list = (\<lambda>p. lift_bucket (gb_list mem_api p))\<rparr>"

lemma lift_bucketD: "lift_bucket f w = (r, w') \<Longrightarrow> f (fst w) = (r, fst w')"
  by (auto simp: lift_bucket_def split: prod.splits)

lemma mem_cluster_requests:
  "gb_get_blob mem_cluster_bucket p w = (r1, w') \<Longrightarrow> gb_get_blob mem_api p (fst w) = (r1, fst w')"
  "gb_download mem_cluster_bucket p m w = (r2, w') \<Longrightarrow> gb_download mem_api p m (fst w) = (r2, fst w')"
  "gb_upload mem_cluster_bucket p d ct m w = (r3, w') \<Longrightarrow> gb_upload mem_api p d ct m (fst w) = (r3, fst w')"
  "gb_list mem_cluster_bucket p w = (r4, w') \<Longrightarrow> gb_list mem_api p (fst w) = (r4, fst w')"
  by (auto simp: mem_cluster_bucket_def dest: lift_bucketD)

lemma mem_cluster_cas: "cas_bucket mem_cluster_bucket (\<lambda>w. mem_view (fst w))"
  by (rule cas_bucketI)
     (erule cas_gen_pos [OF mem_cas_bucket], erule cas_get_blob [OF mem_cas_bucket mem_cluster_requests(1)],
      erule cas_download [OF mem_cas_bucket mem_cluster_requests(2)], erule cas_upload [OF mem_cas_bucket mem_cluster_requests(3)],
      erule cas_list [OF mem_cas_bucket mem_cluster_requests(4)])

definition mem_pools :: "mem_cluster \<Rightarrow> json \<Rightarrow> json option" where
  "mem_pools w = dict_get (snd w)"

text \<open>An object as the API keeps it: its name, a version, its labels and its specification.\<close>

definition stored :: "json \<Rightarrow> json \<Rightarrow> json" where
  "stored n obj = JObj [(''metadata'', JObj [(''name'', n), (''resourceVersion'', JStr ''1''),
       (''labels'', case bindE (jget obj ''metadata'') (\<lambda>m. jget m ''labels'') of Inr l \<Rightarrow> l | Inl _ \<Rightarrow> JNull)]),
     (''spec'', case jget obj ''spec'' of Inr s \<Rightarrow> s | Inl _ \<Rightarrow> JNull)]"

definition mem_cluster_api :: "mem_cluster cluster_api" where
  "mem_cluster_api =
     \<lparr>co_get = (\<lambda>plural n w. (if plural = TEMPLATE_PLURAL then Inr JNull
          else case mem_pools w n of None \<Rightarrow> Inl (ApiException 404) | Some obj \<Rightarrow> Inr obj, w)),
      co_create = (\<lambda>plural obj w. case object_name obj of
          Inl e \<Rightarrow> (Inl e, w) | Inr n \<Rightarrow> (Inr (), fst w, dict_set n (stored n obj) (snd w))),
      co_replace = (\<lambda>plural n obj w. (Inr (), fst w, dict_set n (stored n obj) (snd w))),
      co_delete = (\<lambda>plural n w. (Inr (), fst w, dict_pop n (snd w))),
      co_list = (\<lambda>plural sel c w. (Inr (JObj [(''items'', JList (map (\<lambda>kv. stored (fst kv) (snd kv))
          (filter (\<lambda>kv. is_managed (Some (snd kv))) (AList.clearjunk (snd w)))))]), w))\<rparr>"

definition mem_member :: "mem_cluster member_config" where
  "mem_member = \<lparr>mc_cluster = ''a'', mc_namespace = ''ns'', mc_paths = default_paths, mc_bucket = mem_cluster_bucket,
     mc_api = mem_cluster_api, mc_nodes = (\<lambda>w. (Inr [], w)), mc_pods = (\<lambda>_ w. (Inr ([], None), w)), mc_claims = (\<lambda>w. (Inr 0, w)),
     mc_hub = None, mc_full_detail = False, mc_md5hex = id, mc_env = sim_inventory_env, mc_pages = 1\<rparr>"

lemma stored_facts: "pool_facts (stored n obj) = pool_facts obj"
  by (cases "jget obj ''metadata''"; cases "jget obj ''spec''") (auto simp: pool_facts_def stored_def split: sum.splits)

lemma stored_name: "bindE (jindex (stored n obj) ''metadata'') (\<lambda>m. jindex m ''name'') = Inr n"
  by (simp add: stored_def jindex_def)

lemma mem_names:
  "managed_pool_names mem_member w = Some (Inr (map fst (filter (\<lambda>kv. is_managed (Some (snd kv))) (AList.clearjunk (snd w)))), w)"
proof -
  have "mapE (\<lambda>p. bindE (jindex p ''metadata'') (\<lambda>m. jindex m ''name'')) (map (\<lambda>kv. stored (fst kv) (snd kv)) xs) = Inr (map fst xs)" for xs
    by (rule mapE_map) (rule stored_name)
  then show ?thesis by (simp add: managed_pool_names_def mem_member_def mem_cluster_api_def page_of_def jor_def)
qed

lemma managed_Some: "is_managed x \<longleftrightarrow> (\<exists>v. x = Some v \<and> is_managed (Some v))"
  by (cases x) (auto simp: is_managed_def)

lemma keys_where: "fst ` {kv \<in> set e. P (snd kv)} = {n. \<exists>v. (n, v) \<in> set e \<and> P v}"
  by force

lemma managed_keys: "fst ` {kv \<in> set (AList.clearjunk d). is_managed (Some (snd kv))} = {n. is_managed (dict_get d n)}"
proof -
  let ?d = "AList.clearjunk d"
  have ok: "dict_ok ?d" by (rule distinct_clearjunk)
  have iff: "(n, v) \<in> set ?d \<longleftrightarrow> dict_get d n = Some v" for n v
    unfolding map_of_clearjunk [of d, symmetric] using dict_in_get [OF ok] dict_get_in [of ?d] by blast
  have "fst ` {kv \<in> set ?d. is_managed (Some (snd kv))} = {n. \<exists>v. dict_get d n = Some v \<and> is_managed (Some v)}"
    unfolding iff [symmetric] by (rule keys_where)
  also have "\<dots> = {n. is_managed (dict_get d n)}"
    by (intro Collect_cong) (metis managed_Some)
  finally show ?thesis .
qed

lemma mem_cluster_laws: "cluster_laws mem_member mem_pools" "deletes_succeed mem_member mem_pools"
proof -
  note m = mem_member_def mem_cluster_api_def mem_pools_def
  show "cluster_laws mem_member mem_pools" unfolding cluster_laws_def
  proof (intro conjI allI impI)
    fix w names w'
    assume "managed_pool_names mem_member w = Some (Inr names, w')"
    then show "mem_pools w' = mem_pools w" "set names = {n. is_managed (mem_pools w n)}"
      using managed_keys [of "snd w"] by (auto simp: mem_names mem_pools_def)
  qed (auto simp: m stores_def stored_facts split: sum.splits)
  show "deletes_succeed mem_member mem_pools" by (simp add: deletes_succeed_def m)
qed

section \<open>A pass, worked out\<close>

text \<open>The plan gives cluster \<open>a\<close> one pool. The cluster has a managed pool that is not in the plan and a pool
  that the fleet does not manage.\<close>

definition live_plan :: assignments where
  "live_plan = \<lparr>as_schema = 1, as_generation = 7, as_updated_at = ''now'',
     as_clusters = [(''a'', \<lparr>ca_pools = [\<lparr>ap_image = None, ap_template = ''x'', ap_warmpool = ''x-pool'', ap_replicas = 3\<rparr>],
                             ca_stale_since = None\<rparr>)]\<rparr>"

definition managed_object :: json where
  "managed_object = JObj [(''metadata'', JObj [(''labels'', JObj [(MANAGED_LABEL, JStr ''true'')])]),
     (''spec'', JObj [(''sandboxTemplateRef'', JObj [(''name'', JStr ''y'')]), (''replicas'', JInt 1)])]"

definition cluster_before :: "(json, json) dict" where
  "cluster_before = [(JStr ''old'', managed_object), (JStr ''mine'', JNull)]"

definition published_world :: mem_cluster where
  "published_world = ([(''fleet/assignments.json'', 0, JsonText (sort_keys (assignments_json live_plan)))], cluster_before)"

lemma live_published:
  "publish mem_cluster_bucket default_paths live_plan None ([], cluster_before) = (Inr (), published_world)"
  "get_with_etag mem_cluster_bucket (fp_assignments default_paths) published_world =
     (Inr (JsonText (sort_keys (assignments_json live_plan)), ''gen:1''), published_world)"
  "get_with_etag mem_cluster_bucket (fp_assignments default_paths) ([], d) = (Inl FileNotFoundError, [], d)"
proof -
  note b = mem_cluster_bucket_def lift_bucket_def mem_api_def default_paths_def
  show "publish mem_cluster_bucket default_paths live_plan None ([], cluster_before) = (Inr (), published_world)"
    by (simp add: publish_def put_json_def b published_world_def)
  have "show_int 1 = ''1''" by (simp add: show_int_def show_nat.simps digit_char_def char_of_eq_iff)
  then show "get_with_etag mem_cluster_bucket (fp_assignments default_paths) published_world =
     (Inr (JsonText (sort_keys (assignments_json live_plan)), ''gen:1''), published_world)"
    by (simp add: get_with_etag_def numeral_3_eq_3 b published_world_def)
  show "get_with_etag mem_cluster_bucket (fp_assignments default_paths) ([], d) = (Inl FileNotFoundError, [], d)"
    by (simp add: get_with_etag_def numeral_3_eq_3 b)
qed

lemma live_plan_ok: "dict_ok (as_clusters live_plan)" "as_schema live_plan = SCHEMA_VERSION"
  by (simp_all add: live_plan_def SCHEMA_VERSION_def)

lemma mem_member_fields [simp]:
  "mc_bucket mem_member = mem_cluster_bucket" "mc_paths mem_member = default_paths" "mc_cluster mem_member = ''a''"
  "mc_api mem_member = mem_cluster_api"
  by (simp_all add: mem_member_def)

theorem published_plan_reaches_member_witness:
  "\<exists>p st. fetch_assignments mem_member initial_member published_world = (Inr (Some p, True), st, published_world)
     \<and> mq_generation p = JInt 7 \<and> map_option (length \<circ> me_pools) (dict_get (mq_clusters p) ''a'') = Some 1"
proof -
  have "''gen:1'' \<noteq> st_last_etag initial_member" by (simp add: initial_member_def)
  from published_plan_reaches_member [of mem_member _ live_plan, unfolded mem_member_fields, OF mem_cluster_cas live_plan_ok live_published(1,2) this]
  show ?thesis by (auto simp: live_plan_def member_view_def)
qed


lemma live_pass:
  "\<exists>w'. apply_entry mem_member g (me_pools (member_view (snd (hd (as_clusters live_plan))))) published_world = Some (Inr 0, w')"
proof -
  let ?p = "\<lparr>mp_template = JStr ''x'', mp_warmpool = JStr ''x-pool'', mp_replicas = JInt 3, mp_image = JNull\<rparr>"
  have d: "desired_pools (me_pools (member_view (snd (hd (as_clusters live_plan))))) = Inr [(JStr ''x-pool'', ?p)]"
    by (simp add: desired_pools_def member_view_def live_plan_def hashable_def opt_json_def)
  have t: "template_exists mem_member (JStr ''x'') w = (Inr True, w)" for w
    by (simp add: template_exists_def mem_cluster_api_def)
  have e: "\<exists>w1. ensure_warmpool mem_member g ?p published_world = (Inr (), w1)"
    by (simp add: ensure_warmpool_def pool_body_def py_int_def create_or_update_def mem_cluster_api_def mem_pools_def
        POOL_PLURAL_def TEMPLATE_PLURAL_def published_world_def cluster_before_def object_name_def jindex_def)
  have del: "\<exists>w'. delete_orphans mem_member ds ns w = (Inr (), w')" for ds ns w
    by (induction ns arbitrary: w) (auto simp: mem_cluster_api_def)
  from e obtain w1 where "ensure_warmpool mem_member g ?p published_world = (Inr (), w1)" by blast
  moreover obtain w' where "delete_orphans mem_member [(JStr ''x-pool'', ?p)]
      (map fst (filter (\<lambda>kv. is_managed (Some (snd kv))) (AList.clearjunk (snd w1)))) w1 = (Inr (), w')" using del by blast
  ultimately show ?thesis by (simp add: apply_entry_def d t mem_names)
qed


end
