(* ===== verification/Fleet_Resolver.thy ===== *)
theory Fleet_Resolver
  imports Fleet_Reconcile Sandbox_Client
begin

text \<open>
  The way from a template to a cluster (\<^verbatim>\<open>resolver.py\<close>): reading the published assignments through a cache
  with retries, choosing among the clusters that host a template, and the client that creates and
  deletes sandboxes on the chosen cluster through one SDK client per cluster. The SDK client is the
  one of \<^verbatim>\<open>sandbox_client.py\<close>; loading a kubeconfig context is a request that yields the platform the
  client is pinned to.
\<close>

section \<open>Resolution\<close>

record 'w resolver_env =
  rv_bucket :: "'w bucket"
  rv_paths :: fleet_paths
  rv_interval :: rat
  rv_naming :: "(string \<Rightarrow> string) option"
  rv_retries :: int
  rv_base_delay :: rat
  rv_md5 :: "string \<Rightarrow> nat"
  rv_time :: "'w \<Rightarrow> rat \<times> 'w"
  rv_sleep :: "rat \<Rightarrow> 'w \<Rightarrow> 'w"

record resolver =
  rz_assignments :: "json option"
  rz_last_read :: rat
  rz_cursors :: "(string, nat) dict"

definition new_resolver :: resolver where
  "new_resolver = \<lparr>rz_assignments = None, rz_last_read = 0, rz_cursors = []\<rparr>"

record resolved_cluster =
  rd_cluster :: string
  rd_template :: json
  rd_warmpool :: json
  rd_replicas :: int
  rd_image :: json
  rd_generation :: int
  rd_context :: "string option"

definition gke_context_naming :: "string \<Rightarrow> string \<Rightarrow> string \<Rightarrow> string" where
  "gke_context_naming project location cluster = ''gke_'' @ project @ ''_'' @ location @ ''_'' @ cluster"

definition kind_context_naming :: "string \<Rightarrow> string" where
  "kind_context_naming cluster = ''kind-'' @ cluster"

text \<open>The attempts to read, the first numbered \<open>k\<close>, with \<open>n\<close> of them left.\<close>

fun read_attempts :: "'w resolver_env \<Rightarrow> nat \<Rightarrow> nat \<Rightarrow> ('w, json) request" where
  "read_attempts env k 0 w = (Inl ResolverError, w)"
| "read_attempts env k (Suc n) w =
     (case get_json (rv_bucket env) (fp_assignments (rv_paths env)) w of
        (Inr (Some data), w1) \<Rightarrow> (if data = JNull then Inl AssignmentsMissingError else Inr data, w1)
      | (Inr None, w1) \<Rightarrow> (Inl AssignmentsMissingError, w1)
      | (Inl e, w1) \<Rightarrow>
          if n = 0 then (Inl ResolverError, w1)
          else read_attempts env (Suc k) n (rv_sleep env (fl (rv_base_delay env * 2 ^ k)) w1))"

definition read_with_retry :: "'w resolver_env \<Rightarrow> ('w, json) request" where
  "read_with_retry env w = read_attempts env 0 (nat (max 1 (rv_retries env))) w"

text \<open>\<^verbatim>\<open>_read\<close>: the cache answers while it is fresh.\<close>

definition read_assignments :: "'w resolver_env \<Rightarrow> bool \<Rightarrow> resolver \<Rightarrow> 'w \<Rightarrow> json res \<times> resolver \<times> 'w" where
  "read_assignments env refresh rz w =
     (case rv_time env w of (now, w1) \<Rightarrow>
      if rz_assignments rz \<noteq> None \<and> fl (now - rz_last_read rz) < rv_interval env \<and> \<not> refresh
      then (Inr (the (rz_assignments rz)), rz, w1)
      else (case read_with_retry env w1 of
              (Inl e, w2) \<Rightarrow> (Inl e, rz, w2)
            | (Inr data, w2) \<Rightarrow>
                (case rv_time env w2 of (t, w3) \<Rightarrow>
                   (Inr data, rz\<lparr>rz_assignments := Some data, rz_last_read := t\<rparr>, w3))))"

text \<open>\<^verbatim>\<open>j > 0\<close>\<close>

definition positive :: "json \<Rightarrow> bool res" where
  "positive j =
     (case j of
        JInt n \<Rightarrow> Inr (0 < n)
      | JBool b \<Rightarrow> Inr b
      | JFloat v \<Rightarrow> Inr (case v of Finite r \<Rightarrow> 0 < r | PosInf \<Rightarrow> True | _ \<Rightarrow> False)
      | _ \<Rightarrow> Inl TypeError)"

definition pool_match :: "'w resolver_env \<Rightarrow> json \<Rightarrow> string \<Rightarrow> string \<Rightarrow> json \<Rightarrow> resolved_cluster list res" where
  "pool_match env data template cname pool =
     bindE (jget pool ''template'') (\<lambda>t.
     if t \<noteq> JStr template then Inr []
     else bindE (jget_dflt pool ''replicas'' (JInt 0)) (\<lambda>n.
          bindE (positive n) (\<lambda>pos.
          if \<not> pos then Inr []
          else bindE (jindex pool ''warmpool'') (\<lambda>wp.
               bindE (py_int n) (\<lambda>replicas.
               bindE (jget pool ''image'') (\<lambda>img.
               bindE (jget_dflt data ''generation'' (JInt 0)) (\<lambda>g.
               bindE (py_int g) (\<lambda>gen.
                 Inr [\<lparr>rd_cluster = cname, rd_template = t, rd_warmpool = wp, rd_replicas = replicas, rd_image = img,
                       rd_generation = gen, rd_context = map_option (\<lambda>f. f cname) (rv_naming env)\<rparr>]))))))))"

definition entry_matches :: "'w resolver_env \<Rightarrow> json \<Rightarrow> string \<Rightarrow> string \<times> json \<Rightarrow> resolved_cluster list res" where
  "entry_matches env data template entry =
     bindE (jget (snd entry) ''stale_since'') (\<lambda>since.
     if truthy since then Inr []
     else bindE (jget_dflt (snd entry) ''pools'' (JList [])) (\<lambda>ps.
          bindE (jiter ps) (\<lambda>pools.
          bindE (mapE (pool_match env data template (fst entry)) pools) (\<lambda>ms. Inr (concat ms)))))"

text \<open>\<^verbatim>\<open>_list_matches\<close>, together with the \<^verbatim>\<open>_build_resolved\<close> of each match, in the order of the cluster names.\<close>

definition matches_in :: "'w resolver_env \<Rightarrow> string \<Rightarrow> json \<Rightarrow> resolved_cluster list res" where
  "matches_in env template data =
     bindE (jget_dflt data ''clusters'' (JObj [])) (\<lambda>cs.
       case cs of
         JObj kvs \<Rightarrow> bindE (mapE (entry_matches env data template) kvs) (\<lambda>ms. Inr (sort_key rd_cluster (concat ms)))
       | _ \<Rightarrow> Inl AttributeError)"

definition list_matches ::
  "'w resolver_env \<Rightarrow> string \<Rightarrow> bool \<Rightarrow> resolver \<Rightarrow> 'w \<Rightarrow> resolved_cluster list res \<times> resolver \<times> 'w"
where
  "list_matches env template refresh rz w =
     (case read_assignments env refresh rz w of (r, rz1, w1) \<Rightarrow> (bindE r (matches_in env template), rz1, w1))"

definition choose_match :: "(string \<Rightarrow> nat) \<Rightarrow> string \<Rightarrow> 'a list \<Rightarrow> string \<Rightarrow> resolver \<Rightarrow> 'a res \<times> resolver" where
  "choose_match md5 template ms strategy rz =
     (if length ms = 1 \<or> strategy = ''first'' then (Inr (hd ms), rz)
      else if strategy = ''round-robin''
      then let i = (case dict_get (rz_cursors rz) template of None \<Rightarrow> 0 | Some n \<Rightarrow> n) in
           (Inr (ms ! (i mod length ms)), rz\<lparr>rz_cursors := dict_set template (Suc i) (rz_cursors rz)\<rparr>)
      else if strategy = ''hash'' then (Inr (ms ! (md5 template mod length ms)), rz)
      else (Inl ValueError, rz))"

definition resolve ::
  "'w resolver_env \<Rightarrow> string \<Rightarrow> string \<Rightarrow> bool \<Rightarrow> resolver \<Rightarrow> 'w \<Rightarrow> resolved_cluster res \<times> resolver \<times> 'w"
where
  "resolve env template strategy refresh rz w =
     (case list_matches env template refresh rz w of
        (Inl e, rz1, w1) \<Rightarrow> (Inl e, rz1, w1)
      | (Inr ms, rz1, w1) \<Rightarrow>
          if ms = [] then (Inl TemplateNotAssignedError, rz1, w1)
          else (case choose_match (rv_md5 env) template ms strategy rz1 of (r, rz2) \<Rightarrow> (r, rz2, w1)))"

text \<open>\<^verbatim>\<open>all_templates\<close>: the names, sorted.\<close>

definition entry_templates :: "json \<Rightarrow> string list res" where
  "entry_templates entry =
     bindE (jget_dflt entry ''pools'' (JList [])) (\<lambda>ps.
     bindE (jiter ps) (\<lambda>pools.
       mapE (\<lambda>p. bindE (jindex p ''template'') (\<lambda>t. case t of JStr s \<Rightarrow> Inr s | _ \<Rightarrow> Inl TypeError)) pools))"

definition all_templates :: "'w resolver_env \<Rightarrow> bool \<Rightarrow> resolver \<Rightarrow> 'w \<Rightarrow> string list res \<times> resolver \<times> 'w" where
  "all_templates env refresh rz w =
     (case read_assignments env refresh rz w of (r, rz1, w1) \<Rightarrow>
        (bindE r (\<lambda>data. bindE (jget_dflt data ''clusters'' (JObj [])) (\<lambda>cs.
           case cs of
             JObj kvs \<Rightarrow> bindE (mapE (entry_templates \<circ> snd) kvs) (\<lambda>ts. Inr (sort (remdups (concat ts))))
           | _ \<Rightarrow> Inl AttributeError)), rz1, w1))"

section \<open>The fleet client\<close>

text \<open>\<open>fe_load\<close> loads a kubeconfig context: the platform the API client talks to, or nothing for a
  \<^verbatim>\<open>ConfigException\<close>. \<open>fe_connection\<close> is the connection configuration that the SDK uses by default.\<close>

record 'w fleet_env =
  fe_resolver :: "'w resolver_env"
  fe_namespace :: string
  fe_strategy :: string
  fe_connection :: connection_config
  fe_load :: "string \<Rightarrow> 'w \<Rightarrow> 'w platform option \<times> 'w"

record 'w fleet_client =
  fc_resolver :: resolver
  fc_clients :: "(string, 'w platform \<times> client) dict"
  fc_claims :: "(string, string) dict"

definition new_fleet_client :: "'w fleet_client" where
  "new_fleet_client = \<lparr>fc_resolver = new_resolver, fc_clients = [], fc_claims = []\<rparr>"

definition get_or_build_client ::
  "'w fleet_env \<Rightarrow> string \<Rightarrow> string option \<Rightarrow> 'w fleet_client \<Rightarrow> 'w
    \<Rightarrow> ('w platform \<times> client) res \<times> 'w fleet_client \<times> 'w"
where
  "get_or_build_client env cluster context fc w =
     (case dict_get (fc_clients fc) cluster of
        Some c \<Rightarrow> (Inr c, fc, w)
      | None \<Rightarrow>
          (case context of
             None \<Rightarrow> (Inl ClusterUnavailableError, fc, w)
           | Some ctx \<Rightarrow>
               (case fe_load env ctx w of
                  (None, w1) \<Rightarrow> (Inl ClusterUnavailableError, fc, w1)
                | (Some pf, w1) \<Rightarrow>
                    let c = (pf, new_client (fe_connection env)) in
                    (Inr c, fc\<lparr>fc_clients := dict_set cluster c (fc_clients fc)\<rparr>, w1))))"

text \<open>The keyword arguments of a creation that the facade passes on to the SDK; \<^verbatim>\<open>warmpool\<close> and \<^verbatim>\<open>namespace\<close> it fills
  in itself. A warm pool whose name is not a string is passed on as the empty name, which the SDK refuses.\<close>

definition sdk_args :: "'w fleet_env \<Rightarrow> resolved_cluster \<Rightarrow> string option \<Rightarrow> create_args \<Rightarrow> create_args" where
  "sdk_args env r ns args =
     args\<lparr>cr_warmpool := as_str (rd_warmpool r),
          cr_namespace := (if str_true ns then the ns else fe_namespace env),
          cr_labels := Some (case cr_labels args of None \<Rightarrow> [] | Some l \<Rightarrow> l)\<rparr>"

definition extract_claim_name :: "handle option \<Rightarrow> string option" where
  "extract_claim_name h =
     (case h of
        None \<Rightarrow> None
      | Some x \<Rightarrow> if str_true (s_claim_name x) then s_claim_name x else None)"

definition fleet_create ::
  "nat \<Rightarrow> 'w fleet_env \<Rightarrow> string \<Rightarrow> string option \<Rightarrow> string option \<Rightarrow> create_args \<Rightarrow> 'w fleet_client \<Rightarrow> 'w
    \<Rightarrow> ((string \<times> nat) res \<times> 'w fleet_client \<times> 'w) option"
where
  "fleet_create fuel env template ns strategy args fc w =
     (case resolve (fe_resolver env) template (if str_true strategy then the strategy else fe_strategy env) False
             (fc_resolver fc) w of
        (Inl e, rz, w1) \<Rightarrow> Some (Inl e, fc\<lparr>fc_resolver := rz\<rparr>, w1)
      | (Inr r, rz, w1) \<Rightarrow>
          (case get_or_build_client env (rd_cluster r) (rd_context r) (fc\<lparr>fc_resolver := rz\<rparr>) w1 of
             (Inl e, fc1, w2) \<Rightarrow> Some (Inl e, fc1, w2)
           | (Inr (pf, cl), fc1, w2) \<Rightarrow>
               (case create_sandbox fuel pf (sdk_args env r ns args) cl w2 of
                  None \<Rightarrow> None
                | Some (Inl e, cl', w3) \<Rightarrow> Some (Inl e, fc1\<lparr>fc_clients := dict_pop (rd_cluster r) (fc_clients fc1)\<rparr>, w3)
                | Some (Inr a, cl', w3) \<Rightarrow>
                    let fc2 = fc1\<lparr>fc_clients := dict_set (rd_cluster r) (pf, cl') (fc_clients fc1)\<rparr> in
                    Some (Inr (rd_cluster r, a),
                          (case extract_claim_name (handle_at cl' a) of
                             None \<Rightarrow> fc2
                           | Some n \<Rightarrow> fc2\<lparr>fc_claims := dict_set n (rd_cluster r) (fc_claims fc2)\<rparr>), w3))))"

definition fleet_delete ::
  "'w fleet_env \<Rightarrow> string \<Rightarrow> string option \<Rightarrow> string option \<Rightarrow> 'w fleet_client \<Rightarrow> 'w \<Rightarrow> unit res \<times> 'w fleet_client \<times> 'w"
where
  "fleet_delete env claim_name ns cluster fc w =
     (let owner = (if str_true cluster then cluster else dict_get (fc_claims fc) claim_name) in
      if \<not> str_true owner then (Inl ResolverError, fc, w)
      else let c = the owner in
        (case get_or_build_client env c (map_option (\<lambda>f. f c) (rv_naming (fe_resolver env))) fc w of
           (Inl e, fc1, w1) \<Rightarrow> (Inl e, fc1, w1)
         | (Inr (pf, cl), fc1, w1) \<Rightarrow>
             (case delete_sandbox pf claim_name (if str_true ns then the ns else fe_namespace env) cl w1 of
                (cl', w2) \<Rightarrow>
                  (Inr (), fc1\<lparr>fc_clients := dict_set c (pf, cl') (fc_clients fc1),
                               fc_claims := dict_pop claim_name (fc_claims fc1)\<rparr>, w2))))"

definition cluster_for :: "'w fleet_client \<Rightarrow> string \<Rightarrow> string option" where
  "cluster_for fc claim_name = dict_get (fc_claims fc) claim_name"

definition known_clusters :: "'w fleet_client \<Rightarrow> string list" where
  "known_clusters fc = sort (map fst (fc_clients fc))"

section \<open>The wire type of the assignments\<close>

text \<open>The shape that the classes \<^verbatim>\<open>AssignmentPool\<close>, \<^verbatim>\<open>ClusterAssignment\<close> and \<^verbatim>\<open>Assignments\<close> give to the payload.\<close>

definition optional_text :: "json option \<Rightarrow> bool" where
  "optional_text j = (case j of None \<Rightarrow> True | Some JNull \<Rightarrow> True | Some (JStr _) \<Rightarrow> True | _ \<Rightarrow> False)"

definition typed_pool :: "json \<Rightarrow> bool" where
  "typed_pool j =
     (case j of
        JObj kvs \<Rightarrow>
          (case (dict_get kvs ''template'', dict_get kvs ''warmpool'', dict_get kvs ''replicas'') of
             (Some (JStr _), Some (JStr _), Some (JInt _)) \<Rightarrow> optional_text (dict_get kvs ''image'')
           | _ \<Rightarrow> False)
      | _ \<Rightarrow> False)"

definition typed_entry :: "json \<Rightarrow> bool" where
  "typed_entry j =
     (case j of
        JObj kvs \<Rightarrow>
          (case dict_get kvs ''pools'' of Some (JList ps) \<Rightarrow> list_all typed_pool ps | _ \<Rightarrow> False)
          \<and> optional_text (dict_get kvs ''stale_since'')
      | _ \<Rightarrow> False)"

definition typed_payload :: "json \<Rightarrow> bool" where
  "typed_payload j =
     (case j of
        JObj kvs \<Rightarrow>
          dict_get kvs ''schema_version'' = Some (JInt SCHEMA_VERSION)
          \<and> (case (dict_get kvs ''generation'', dict_get kvs ''updated_at'', dict_get kvs ''clusters'') of
               (Some (JInt _), Some (JStr _), Some (JObj cs)) \<Rightarrow> dict_ok cs \<and> list_all (typed_entry \<circ> snd) cs
             | _ \<Rightarrow> False)
      | _ \<Rightarrow> False)"

lemma typed_poolE:
  assumes "typed_pool j"
  obtains kvs t p n where "j = JObj kvs" and "dict_get kvs ''template'' = Some (JStr t)"
    and "dict_get kvs ''warmpool'' = Some (JStr p)" and "dict_get kvs ''replicas'' = Some (JInt n)"
  using assms by (auto simp: typed_pool_def split: json.splits option.splits)

lemma typed_entryE:
  assumes "typed_entry j"
  obtains kvs ps where "j = JObj kvs" and "dict_get kvs ''pools'' = Some (JList ps)" and "list_all typed_pool ps"
proof -
  from assms obtain kvs where j: "j = JObj kvs" by (cases j) (simp_all add: typed_entry_def)
  with assms obtain x where x: "dict_get kvs ''pools'' = Some x" by (auto simp: typed_entry_def split: option.splits)
  with assms j obtain ps where "x = JList ps" "list_all typed_pool ps" by (cases x) (simp_all add: typed_entry_def)
  with that j x show thesis by blast
qed

lemma typed_payloadE:
  assumes "typed_payload j"
  obtains kvs g u cs where "j = JObj kvs" and "dict_get kvs ''schema_version'' = Some (JInt SCHEMA_VERSION)"
    and "dict_get kvs ''generation'' = Some (JInt g)" and "dict_get kvs ''updated_at'' = Some (JStr u)"
    and "dict_get kvs ''clusters'' = Some (JObj cs)" and "\<forall>e \<in> set cs. typed_entry (snd e)"
  using assms by (auto simp: typed_payload_def list_all_iff split: json.splits option.splits)

lemma typed_pool_json: "typed_pool (sort_keys (pool_json p))"
  by (simp add: typed_pool_def pool_json_def map_of_sort_key optional_text_def opt_json_def split: option.splits)

lemma typed_entry_json: "typed_entry (sort_keys (cluster_json ca))"
  by (simp add: typed_entry_def cluster_json_def map_of_sort_key optional_text_def opt_json_def list_all_iff
      typed_pool_json split: option.splits)

lemma typed_payload_json:
  assumes "dict_ok (as_clusters a)" and "as_schema a = SCHEMA_VERSION"
  shows "typed_payload (sort_keys (assignments_json a))"
proof -
  let ?cl = "map (\<lambda>kv. (fst kv, sort_keys (snd kv))) (map (\<lambda>(k, ca). (k, cluster_json ca)) (as_clusters a))"
  have d: "distinct (map fst ?cl)" using assms(1) by (simp add: comp_def split_def)
  have "dict_ok (sort_key fst ?cl)" by (rule dict_ok_sort_key [OF d])
  then show ?thesis unfolding assignments_json_def
    by (simp add: typed_payload_def map_of_sort_key assms(2) list_all_iff) (auto simp: typed_entry_json)
qed

text \<open>Every reader of the payload accepts a payload of this type.\<close>

lemma mapE_total: "\<forall>x \<in> set xs. \<exists>y. f x = Inr y \<Longrightarrow> \<exists>ys. mapE f xs = Inr ys"
  by (induction xs) auto

lemma foldE_total: "\<forall>x \<in> set xs. \<forall>acc. \<exists>y. f acc x = Inr y \<Longrightarrow> \<exists>r. foldE f acc xs = Inr r"
proof (induction xs arbitrary: acc)
  case (Cons x xs)
  then obtain y where "f acc x = Inr y" by force
  with Cons show ?case by simp
qed simp

lemma typed_matches:
  assumes "typed_payload data"
  shows "\<exists>ms. matches_in env t data = Inr ms"
proof -
  obtain kvs g u cs where d: "data = JObj kvs" "dict_get kvs ''generation'' = Some (JInt g)"
    "dict_get kvs ''clusters'' = Some (JObj cs)" and cs: "\<forall>e \<in> set cs. typed_entry (snd e)"
    by (rule typed_payloadE [OF assms]) blast
  have pool: "\<exists>ms. pool_match env data t k p = Inr ms" if "typed_pool p" for k p
    by (rule typed_poolE [OF that]) (simp add: pool_match_def d positive_def py_int_def jindex_def)
  have "\<exists>ms. entry_matches env data t e = Inr ms" if "e \<in> set cs" for e
  proof (rule typed_entryE [OF cs [rule_format, OF that]])
    fix kvs ps
    assume e: "snd e = JObj kvs" "dict_get kvs ''pools'' = Some (JList ps)" "list_all typed_pool ps"
    have "\<exists>ms. mapE (pool_match env data t (fst e)) ps = Inr ms"
      by (rule mapE_total) (use e(3) pool in \<open>auto simp: list_all_iff\<close>)
    then show ?thesis by (auto simp: entry_matches_def e(1,2))
  qed
  then have "\<exists>ms. mapE (entry_matches env data t) cs = Inr ms" by (intro mapE_total) blast
  then show ?thesis by (auto simp: matches_in_def d(1,3))
qed

lemma typed_accept:
  assumes "typed_payload data"
  shows "\<exists>p. accept_plan st etag data = (Inr (Some p, True), st\<lparr>st_last_etag := etag\<rparr>)"
proof -
  obtain kvs g u cs where d: "data = JObj kvs" "dict_get kvs ''schema_version'' = Some (JInt SCHEMA_VERSION)"
    "dict_get kvs ''generation'' = Some (JInt g)" "dict_get kvs ''updated_at'' = Some (JStr u)"
    "dict_get kvs ''clusters'' = Some (JObj cs)" and cs: "\<forall>e \<in> set cs. typed_entry (snd e)"
    by (rule typed_payloadE [OF assms])
  have pool: "\<exists>p. pool_from_json j = Inr p" if "typed_pool j" for j
    by (rule typed_poolE [OF that]) (simp add: pool_from_json_def)
  have entry: "\<exists>e. entry_from_json j = Inr e" if "typed_entry j" for j
  proof (rule typed_entryE [OF that])
    fix kvs ps
    assume e: "j = JObj kvs" "dict_get kvs ''pools'' = Some (JList ps)" "list_all typed_pool ps"
    have "\<exists>ms. mapE pool_from_json ps = Inr ms" by (rule mapE_total) (use e(3) pool in \<open>auto simp: list_all_iff\<close>)
    then show ?thesis by (auto simp: entry_from_json_def e(1,2))
  qed
  have "\<exists>es. mapE (\<lambda>kv. bindE (entry_from_json (snd kv)) (\<lambda>e. Inr (fst kv, e))) cs = Inr es"
    by (rule mapE_total) (use cs entry in \<open>fastforce simp: bindE_eq_Inr\<close>)
  then have "\<exists>p. parse_plan (JInt SCHEMA_VERSION) data = Inr p" by (auto simp: parse_plan_def clusters_from_json_def d)
  then show ?thesis by (auto simp: accept_plan_def d(1,2) supported_schema_def known_schema_def)
qed

lemma typed_previous:
  assumes "typed_payload data"
  shows "\<exists>prev. previous_entries (Some data) = Inr prev" and "\<exists>g. published_generation (Some data) = Inr g"
proof -
  obtain kvs g u cs where d: "data = JObj kvs" "dict_get kvs ''generation'' = Some (JInt g)"
    "dict_get kvs ''clusters'' = Some (JObj cs)" and cs: "\<forall>e \<in> set cs. typed_entry (snd e)"
    by (rule typed_payloadE [OF assms]) blast
  have entry: "\<exists>e. previous_entry j = Inr e" if "typed_entry j" for j
    by (rule typed_entryE [OF that]) (auto simp: previous_entry_def Let_def jor_def)
  have "\<exists>r. foldE (\<lambda>out kv. bindE (previous_entry (snd kv)) (\<lambda>e. Inr (dict_set (fst kv) e out))) [] cs = Inr r"
    by (rule foldE_total) (use cs entry in \<open>fastforce simp: bindE_eq_Inr\<close>)
  then show "\<exists>prev. previous_entries (Some data) = Inr prev" by (auto simp: previous_entries_def d jor_def)
  show "\<exists>g. published_generation (Some data) = Inr g"
    by (auto simp: published_generation_def d py_int_def)
qed

text \<open>(C15) The payload is typed. Every plan is published as a payload of the wire type, and a payload of the
  wire type is accepted by everything that reads it, whoever wrote it: the member takes it up, the
  resolver can search it for any template, and the next planning run finds the previous entries and
  the generation in it. None of them raises.\<close>

theorem wire_type_safe:
  assumes "registry_ok reg" and "plan penv spec reg gen previous = Inr a"
  shows "typed_payload (sort_keys (assignments_json a))
    \<and> (\<forall>data. typed_payload data \<longrightarrow>
         (\<exists>p. accept_plan st etag data = (Inr (Some p, True), st\<lparr>st_last_etag := etag\<rparr>))
       \<and> (\<exists>ms. matches_in env t data = Inr ms)
       \<and> (\<exists>prev. previous_entries (Some data) = Inr prev) \<and> (\<exists>g. published_generation (Some data) = Inr g))"
proof -
  have "typed_payload (sort_keys (assignments_json a))"
    by (rule plan_cases [OF assms]) (rule typed_payload_json)
  with typed_accept typed_matches typed_previous show ?thesis by blast
qed

section \<open>What a resolution returns\<close>

text \<open>The answer that stands for a pool of a plan.\<close>

definition resolved_as :: "'w resolver_env \<Rightarrow> assignments \<Rightarrow> string \<Rightarrow> assignment_pool \<Rightarrow> resolved_cluster" where
  "resolved_as env a k p = \<lparr>rd_cluster = k, rd_template = JStr (ap_template p), rd_warmpool = JStr (ap_warmpool p),
     rd_replicas = ap_replicas p, rd_image = opt_json (ap_image p), rd_generation = as_generation a,
     rd_context = map_option (\<lambda>f. f k) (rv_naming env)\<rparr>"

definition routable :: "assignments \<Rightarrow> string \<Rightarrow> string \<Rightarrow> assignment_pool \<Rightarrow> bool" where
  "routable a t k p \<longleftrightarrow> (\<exists>ca. (k, ca) \<in> set (as_clusters a) \<and> \<not> truthy (opt_json (ca_stale_since ca))
     \<and> p \<in> set (ca_pools ca) \<and> ap_template p = t \<and> 0 < ap_replicas p)"

lemma pool_match_published:
  assumes "jget_dflt data ''generation'' (JInt 0) = Inr (JInt (as_generation a))"
  shows "pool_match env data t k (sort_keys (pool_json p)) =
    Inr (if ap_template p = t \<and> 0 < ap_replicas p then [resolved_as env a k p] else [])"
proof -
  have p: "jget (sort_keys (pool_json p)) ''template'' = Inr (JStr (ap_template p))"
    "jget (sort_keys (pool_json p)) ''image'' = Inr (opt_json (ap_image p))"
    "jget_dflt (sort_keys (pool_json p)) ''replicas'' (JInt 0) = Inr (JInt (ap_replicas p))"
    "jindex (sort_keys (pool_json p)) ''warmpool'' = Inr (JStr (ap_warmpool p))"
    unfolding pool_json_def by (simp_all add: map_of_sort_key jindex_def)
  show ?thesis by (simp add: pool_match_def p assms positive_def py_int_def resolved_as_def)
qed

lemma mapE_eq: "(\<And>x. x \<in> set xs \<Longrightarrow> f x = Inr (g x)) \<Longrightarrow> mapE f xs = Inr (map g xs)"
  by (induction xs) auto

lemma entry_matches_published:
  assumes "jget_dflt data ''generation'' (JInt 0) = Inr (JInt (as_generation a))"
  shows "entry_matches env data t (k, sort_keys (cluster_json ca)) =
    Inr (if truthy (opt_json (ca_stale_since ca)) then []
         else map (resolved_as env a k) (filter (\<lambda>p. ap_template p = t \<and> 0 < ap_replicas p) (ca_pools ca)))"
proof -
  let ?f = "\<lambda>p. if ap_template p = t \<and> 0 < ap_replicas p then [resolved_as env a k p] else []"
  have j: "jget (sort_keys (cluster_json ca)) ''stale_since'' = Inr (opt_json (ca_stale_since ca))"
    "jget_dflt (sort_keys (cluster_json ca)) ''pools'' (JList []) = Inr (JList (map (sort_keys \<circ> pool_json) (ca_pools ca)))"
    unfolding cluster_json_def by (simp_all add: map_of_sort_key)
  have m: "mapE (pool_match env data t k) (map (sort_keys \<circ> pool_json) ps) = Inr (map ?f ps)" for ps
    by (rule mapE_map) (simp add: pool_match_published [OF assms])
  have "concat (map ?f ps) = map (resolved_as env a k) (filter (\<lambda>p. ap_template p = t \<and> 0 < ap_replicas p) ps)" for ps
    by (induction ps) auto
  then show ?thesis by (simp only: entry_matches_def fst_conv snd_conv j bindE_simps jiter.simps m) simp
qed

lemma matches_published:
  assumes "dict_ok (as_clusters a)"
  obtains ms where "matches_in env t (sort_keys (assignments_json a)) = Inr ms"
    and "set ms = {resolved_as env a k p | k p. routable a t k p}"
proof -
  let ?data = "sort_keys (assignments_json a)"
  let ?kvs = "sort_key fst (map (\<lambda>kv. (fst kv, sort_keys (snd kv))) (map (\<lambda>(k, ca). (k, cluster_json ca)) (as_clusters a)))"
  let ?g = "\<lambda>e. case entry_matches env ?data t e of Inr ms \<Rightarrow> ms | Inl _ \<Rightarrow> []"
  have j: "jget_dflt ?data ''clusters'' (JObj []) = Inr (JObj ?kvs)"
    and g: "jget_dflt ?data ''generation'' (JInt 0) = Inr (JInt (as_generation a))"
    unfolding assignments_json_def by (simp_all add: map_of_sort_key)
  note e = entry_matches_published [OF g]
  have "mapE (entry_matches env ?data t) ?kvs = Inr (map ?g ?kvs)"
    by (rule mapE_eq) (auto simp: e)
  then have m: "matches_in env t ?data = Inr (sort_key rd_cluster (concat (map ?g ?kvs)))"
    by (simp only: matches_in_def j bindE_simps json.case)
  have "set (concat (map ?g ?kvs)) = (\<Union>(k, ca) \<in> set (as_clusters a). set (?g (k, sort_keys (cluster_json ca))))"
    by (simp only: set_concat set_map set_sort) force
  also have "\<dots> = {resolved_as env a k p | k p. routable a t k p}"
    unfolding e routable_def by (auto split: if_splits; blast)
  finally have s: "set (concat (map ?g ?kvs)) = {resolved_as env a k p | k p. routable a t k p}" .
  show thesis by (rule that [OF m]) (simp only: set_sort s)
qed

lemma choose_match_in:
  assumes "ms \<noteq> []" and "strategy \<in> {''first'', ''round-robin'', ''hash''}"
  shows "\<exists>m rz'. choose_match md5 t ms strategy rz = (Inr m, rz') \<and> m \<in> set ms"
proof -
  have "hd ms \<in> set ms" "\<And>i. ms ! (i mod length ms) \<in> set ms" using assms(1) by simp_all
  then show ?thesis using assms(2) by (auto simp: choose_match_def Let_def)
qed

text \<open>A read returns the bytes that are in the store; the clock and a sleep leave the store alone.\<close>

definition quiet_resolver :: "'w resolver_env \<Rightarrow> 'w view \<Rightarrow> bool" where
  "quiet_resolver env view \<longleftrightarrow> cas_bucket (rv_bucket env) view
     \<and> (\<forall>w. view (snd (rv_time env w)) = view w) \<and> (\<forall>d w. view (rv_sleep env d w) = view w)"

lemma read_attempts_view:
  assumes "quiet_resolver env view"
  shows "read_attempts env k n w = (Inr data, w') \<Longrightarrow>
    view w' = view w \<and> (\<exists>g. view w (fp_assignments (rv_paths env)) = Some (g, JsonText data))"
proof (induction n arbitrary: k w)
  case (Suc n)
  obtain r w1 where d: "gb_download (rv_bucket env) (fp_assignments (rv_paths env)) None w = (r, w1)" by fastforce
  have v: "view w1 = view w" and
    got: "\<And>x. r = Inr x \<Longrightarrow> \<exists>g. view w (fp_assignments (rv_paths env)) = Some (g, x)"
    using cas_download [OF _ d] assms by (auto simp: quiet_resolver_def)
  have again: ?case if "read_attempts env (Suc k) n (rv_sleep env d w1) = (Inr data, w')" for d
  proof -
    have "view (rv_sleep env d w1) = view w" using assms v unfolding quiet_resolver_def by simp
    with Suc.IH [OF that] show ?thesis by simp
  qed
  show ?case
  proof (cases r)
    case (Inr b)
    with got obtain g where g: "view w (fp_assignments (rv_paths env)) = Some (g, b)" by blast
    show ?thesis
    proof (cases b)
      case (JsonText j)
      with Suc.prems d Inr v g show ?thesis by (auto simp: get_json_def split: if_splits)
    next
      case (RawBytes s)
      with Suc.prems d Inr show ?thesis by (auto simp: get_json_def split: if_splits dest: again)
    qed
  next
    case (Inl e)
    with Suc.prems d show ?thesis by (auto simp: get_json_def split: if_splits dest: again)
  qed
qed simp

lemma read_fresh:
  assumes "quiet_resolver env view" and "read_assignments env True rz w = (Inr data, rz', w')"
  shows "view w' = view w \<and> (\<exists>g. view w (fp_assignments (rv_paths env)) = Some (g, JsonText data))"
proof -
  obtain t w1 where t: "rv_time env w = (t, w1)" by fastforce
  obtain r w2 where r: "read_with_retry env w1 = (r, w2)" by fastforce
  obtain t' w3 where t': "rv_time env w2 = (t', w3)" by fastforce
  have v: "view w1 = view w" "view w3 = view w2" using assms(1) t t' unfolding quiet_resolver_def by (metis snd_conv)+
  from assms(2) t r t' have "r = Inr data" "w' = w3" by (auto simp: read_assignments_def split: sum.splits)
  with read_attempts_view [OF assms(1) r [unfolded read_with_retry_def, unfolded \<open>r = Inr data\<close>]] v show ?thesis by simp
qed

text \<open>Resolving a template right after a plan was published.\<close>

lemma resolve_published:
  assumes "quiet_resolver env view" and "dict_ok (as_clusters a)"
    and "publish (rv_bucket env) (rv_paths env) a m w0 = (Inr (), w)"
    and "read_assignments env True rz w = (Inr data, rz1, w1)"
    and "strategy \<in> {''first'', ''round-robin'', ''hash''}"
  shows "\<exists>r rz2. resolve env t strategy True rz w = (r, rz2, w1)
    \<and> (if \<exists>k p. routable a t k p then \<exists>k p. routable a t k p \<and> r = Inr (resolved_as env a k p)
       else r = Inl TemplateNotAssignedError)"
proof -
  have "cas_bucket (rv_bucket env) view" using assms(1) by (simp add: quiet_resolver_def)
  from put_json_effect [OF this assms(3) [unfolded publish_def]]
  have "\<exists>g. view w (fp_assignments (rv_paths env)) = Some (g, JsonText (sort_keys (assignments_json a)))"
    by (auto dest!: writtenD)
  with read_fresh [OF assms(1,4)] have d: "data = sort_keys (assignments_json a)" by auto
  obtain ms where ms: "matches_in env t data = Inr ms" "set ms = {resolved_as env a k p | k p. routable a t k p}"
    unfolding d by (rule matches_published [OF assms(2)])
  have l: "list_matches env t True rz w = (Inr ms, rz1, w1)" by (simp add: list_matches_def assms(4) ms(1))
  show ?thesis
  proof (cases "ms = []")
    case True
    then have "\<not> (\<exists>k p. routable a t k p)" using ms(2) by auto
    then show ?thesis using l True by (simp add: resolve_def)
  next
    case False
    obtain r rz2 where c: "choose_match (rv_md5 env) t ms strategy rz1 = (Inr r, rz2)" "r \<in> set ms"
      using choose_match_in [OF False assms(5)] by blast
    from c(2) obtain k p where "routable a t k p" "r = resolved_as env a k p" unfolding ms(2) by blast
    then show ?thesis using l False c(1) by (auto simp: resolve_def)
  qed
qed

text \<open>Timestamps are not empty, so that a frozen entry is recognised.\<close>

definition timestamps :: "planner_env \<Rightarrow> bool" where
  "timestamps penv \<longleftrightarrow> pe_now_iso penv \<noteq> [] \<and> (\<forall>s. pe_iso_before penv s \<noteq> [])"

lemma freeze_marks:
  assumes "freeze_cluster penv c pools since = Inr x" and "timestamps penv"
  shows "truthy (opt_json (ca_stale_since x))"
proof (cases "frozen_since penv c since")
  case (JStr s)
  then have "s \<noteq> []" using assms(2) by (auto simp: frozen_since_def timestamps_def split: if_splits)
  then show ?thesis using assms(1) JStr by (auto simp: freeze_cluster_def bindE_eq_Inr opt_json_def)
qed (use assms(1) in \<open>auto simp: freeze_cluster_def bindE_eq_Inr\<close>)

lemma frozen_marked:
  assumes "registry_ok reg" and "plan penv spec reg gen previous = Inr a" and "timestamps penv"
    and "(k, ca) \<in> set (as_clusters a)" and "\<not> truthy (opt_json (ca_stale_since ca))"
  shows "ca_stale_since ca = None"
proof (rule plan_cases [OF assms(1,2)])
  fix st budget prev new
  assume cl: "as_clusters a = map (size_cluster spec budget st) (pl_models st) @ new"
    and new: "\<forall>(k, ca) \<in> set new. \<exists>c. (k, c) \<in> set (rg_clusters (pl_reg st)) \<and> idle_entry penv spec reg prev (k, c) = Inr ca"
  have "ca_stale_since x = None \<or> truthy (opt_json (ca_stale_since x))" if "idle_entry penv spec reg prev e = Inr x" for e x
    using that by (auto simp: idle_entry_def split: prod.splits if_splits dest: freeze_marks [OF _ assms(3)])
  then have "(k, ca) \<in> set new \<Longrightarrow> ?thesis" using new assms(5) by fastforce
  with cl assms(4) show ?thesis by (auto simp: size_cluster_def Let_def)
qed

text \<open>(C6) From the specification to a cluster. After an administrator's plan has been published, a resolver that
  reads it finds, with any of its strategies, a host for every template of the specification: a
  cluster that reports and is not drained, with a warm pool of at least one replica for this template
  under the name and the size that the planner gave it. It never answers with a frozen cluster, and it
  reports an unassigned template exactly when the plan places no pool for it.\<close>

theorem spec_templates_resolve:
  assumes "quiet_resolver env view" and "registry_ok reg" and "validate_spec s = Inr spec"
    and "plan penv spec reg gen previous = Inr a" and "timestamps penv"
    and "publish (rv_bucket env) (rv_paths env) a m w0 = (Inr (), w)"
    and "read_assignments env True rz w = (Inr data, rz1, w1)"
    and "strategy \<in> {''first'', ''round-robin'', ''hash''}"
  shows "\<exists>r rz2. resolve env t strategy True rz w = (r, rz2, w1)
    \<and> (if registry_eligible reg \<noteq> [] \<and> t \<in> ms_template ` set (fs_models spec)
       then \<exists>k p ca. r = Inr (resolved_as env a k p) \<and> dict_get (as_clusters a) k = Some ca \<and> ca_stale_since ca = None
            \<and> p \<in> set (ca_pools ca) \<and> ap_template p = t \<and> ap_warmpool p = warmpool_name t \<and> 1 \<le> ap_replicas p
            \<and> (\<exists>c. (k, c) \<in> set (registry_eligible reg))
       else r = Inl TemplateNotAssignedError)"
proof -
  note placed = plan_placed [OF assms(2-4)]
  have ok: "dict_ok (as_clusters a)"
    and all: "image_mset (\<lambda>p. (ap_image p, ap_template p)) (mset (live_pools (as_clusters a)))
        = image_mset (\<lambda>m. (ms_image m, ms_template m)) (if registry_eligible reg = [] then {#} else mset (fs_models spec))"
    using placed by blast+
  have good: "\<exists>c. (k, c) \<in> set (registry_eligible reg)" "ap_warmpool p = warmpool_name (ap_template p)" "1 \<le> ap_replicas p"
    if "(k, ca) \<in> set (as_clusters a)" "ca_stale_since ca = None" "p \<in> set (ca_pools ca)" for k ca p
    using placed that by (fastforce simp: registry_eligible_iff)+
  have live: "routable a t k p \<longleftrightarrow> (\<exists>ca. dict_get (as_clusters a) k = Some ca \<and> ca_stale_since ca = None
      \<and> p \<in> set (ca_pools ca) \<and> ap_template p = t)" for k p
    using frozen_marked [OF assms(2,4,5)] good(3) ok
    by (fastforce simp: routable_def opt_json_def dest: dict_get_in intro: map_of_is_SomeI)
  have "(\<exists>k p. routable a t k p) \<longleftrightarrow> t \<in> ap_template ` set (live_pools (as_clusters a))"
    unfolding live live_pools_def using ok by (force simp: image_iff dest: dict_get_in intro: map_of_is_SomeI split: if_splits)
  also have "\<dots> \<longleftrightarrow> t \<in> snd ` set_mset (image_mset (\<lambda>p. (ap_image p, ap_template p)) (mset (live_pools (as_clusters a))))"
    by (force simp: image_iff)
  also have "\<dots> \<longleftrightarrow> registry_eligible reg \<noteq> [] \<and> t \<in> ms_template ` set (fs_models spec)"
    unfolding all by (force simp: image_iff)
  finally have some: "(\<exists>k p. routable a t k p) \<longleftrightarrow> registry_eligible reg \<noteq> [] \<and> t \<in> ms_template ` set (fs_models spec)" .
  obtain r rz2 where r: "resolve env t strategy True rz w = (r, rz2, w1)"
    "if \<exists>k p. routable a t k p then \<exists>k p. routable a t k p \<and> r = Inr (resolved_as env a k p) else r = Inl TemplateNotAssignedError"
    using resolve_published [OF assms(1) ok assms(6-8)] by blast
  show ?thesis
  proof (cases "\<exists>k p. routable a t k p")
    case True
    with r(2) obtain k p ca where p: "r = Inr (resolved_as env a k p)" "dict_get (as_clusters a) k = Some ca" "ca_stale_since ca = None"
      "p \<in> set (ca_pools ca)" "ap_template p = t" unfolding live by auto
    with good [OF dict_get_in [OF p(2)] p(3,4)] r(1) True [unfolded some] show ?thesis by auto
  qed (use r some in auto)
qed

section \<open>Round robin is fair\<close>

text \<open>A sequence of resolutions of any templates, each with the matches it sees, and the answers.\<close>

fun answers :: "(string \<Rightarrow> nat) \<Rightarrow> (string \<times> 'a list) list \<Rightarrow> resolver \<Rightarrow> (string \<times> 'a res) list" where
  "answers md5 [] rz = []"
| "answers md5 ((t, ms) # reqs) rz =
     (case choose_match md5 t ms ''round-robin'' rz of (r, rz') \<Rightarrow> (t, r) # answers md5 reqs rz')"

definition cursor :: "resolver \<Rightarrow> string \<Rightarrow> nat" where
  "cursor rz t = (case dict_get (rz_cursors rz) t of None \<Rightarrow> 0 | Some n \<Rightarrow> n)"

definition answers_for :: "string \<Rightarrow> (string \<times> 'a res) list \<Rightarrow> 'a res list" where
  "answers_for t as = map snd (filter (\<lambda>a. fst a = t) as)"

lemma choose_round_robin:
  assumes "ms \<noteq> []" and "choose_match md5 t ms ''round-robin'' rz = (r, rz')"
  shows "r = Inr (ms ! (cursor rz t mod length ms))"
    and "cursor rz' t = (if length ms = 1 then cursor rz t else Suc (cursor rz t))"
    and "t' \<noteq> t \<Longrightarrow> cursor rz' t' = cursor rz t'"
  using assms by (auto simp: choose_match_def cursor_def Let_def hd_conv_nth split: if_splits)

lemma answers_rotate:
  assumes "ms \<noteq> []"
  shows "\<forall>q \<in> set reqs. fst q = t \<longrightarrow> snd q = ms \<Longrightarrow> \<forall>q \<in> set reqs. snd q \<noteq> [] \<Longrightarrow>
    answers_for t (answers md5 reqs rz) =
      map (\<lambda>x. Inr (ms ! (x mod length ms))) [cursor rz t ..< cursor rz t + length (filter (\<lambda>q. fst q = t) reqs)]"
proof (induction reqs arbitrary: rz)
  case (Cons q reqs)
  obtain r rz' where c: "choose_match md5 (fst q) (snd q) ''round-robin'' rz = (r, rz')" by fastforce
  have ne: "snd q \<noteq> []" using Cons.prems(2) by simp
  have a: "answers_for t (answers md5 (q # reqs) rz) = (if fst q = t then [r] else []) @ answers_for t (answers md5 reqs rz')"
    using c by (cases q) (simp add: answers_for_def)
  have ih: "answers_for t (answers md5 reqs rz') = map (\<lambda>x. Inr (ms ! (x mod length ms)))
      [cursor rz' t ..< cursor rz' t + length (filter (\<lambda>q. fst q = t) reqs)]"
    using Cons by simp
  show ?case
  proof (cases "fst q = t")
    case False
    then show ?thesis unfolding a ih using choose_round_robin(3) [OF ne c, of t] by simp
  next
    case True
    with Cons.prems(1) have q: "snd q = ms" by simp
    note r = choose_round_robin(1,2) [OF ne c, unfolded q True]
    let ?n = "length (filter (\<lambda>q. fst q = t) reqs)" and ?c = "cursor rz t"
    have "[?c ..< ?c + Suc ?n] = ?c # [Suc ?c ..< ?c + Suc ?n]" by (rule upt_conv_Cons) simp
    then have "[?c ..< ?c + Suc ?n] = ?c # [Suc ?c ..< Suc ?c + ?n]" by (simp only: add_Suc_right add_Suc)
    moreover have "length ms = 1 \<Longrightarrow> map (\<lambda>x. Inr (ms ! (x mod length ms)) :: 'a res) [?c ..< ?c + ?n]
        = map (\<lambda>x. Inr (ms ! (x mod length ms))) [Suc ?c ..< Suc ?c + ?n]"
      by (simp add: map_replicate_const del: upt_Suc)
    ultimately show ?thesis unfolding a ih r using True by (simp del: upt_Suc)
  qed
qed (simp add: answers_for_def)

lemma residues_below: "i < k \<Longrightarrow> length (filter (\<lambda>x. x mod k = i) [0..<n]) = (n + (k - 1 - i)) div k"
proof (induction n)
  case (Suc n)
  have "Suc n + (k - 1 - i) = n + (k - i)" using Suc.prems by simp
  then have "(Suc n + (k - 1 - i)) mod k = (n mod k + (k - i)) mod k" by (simp only: mod_add_left_eq)
  moreover have "(r + (k - i)) mod k = 0 \<longleftrightarrow> r = i" if "r < k" for r
    using that Suc.prems by (cases "r < i") (auto simp: le_mod_geq)
  ultimately have "(Suc n + (k - 1 - i)) mod k = 0 \<longleftrightarrow> n mod k = i" using Suc.prems by simp
  with Suc show ?case by (simp add: div_Suc)
qed simp

lemma residues_between:
  assumes "i < k"
  shows "n div k \<le> length (filter (\<lambda>x. x mod k = i) [c..<c + n])"
    and "length (filter (\<lambda>x. x mod k = i) [c..<c + n]) \<le> Suc (n div k)"
proof -
  let ?d = "k - 1 - i" and ?L = "length (filter (\<lambda>x. x mod k = i) [c..<c + n])"
  have "length (filter (\<lambda>x. x mod k = i) [0..<c + n]) = length (filter (\<lambda>x. x mod k = i) [0..<c]) + ?L"
    by (simp only: upt_add_eq_append [OF le0] filter_append length_append)
  then have "(c + n + ?d) div k = (c + ?d) div k + ?L" by (simp only: residues_below [OF assms])
  moreover have "c + n + ?d = c + ?d + n" by simp
  ultimately have "(c + ?d + n) div k = (c + ?d) div k + ?L" by (simp only:)
  then have L: "?L = n div k + ((c + ?d) mod k + n mod k) div k" unfolding div_add1_eq [of "c + ?d" n k] by linarith
  have "(c + ?d) mod k < k" "n mod k < k" using assms by simp_all
  then have "(c + ?d) mod k + n mod k < 2 * k" by linarith
  then have "((c + ?d) mod k + n mod k) div k < 2" by (rule less_mult_imp_div_less)
  with L show "n div k \<le> ?L" "?L \<le> Suc (n div k)" by linarith+
qed

text \<open>(C22) Round robin spreads the load. Whatever other templates are resolved in between, of \<open>n\<close> resolutions
  of a template that \<open>k\<close> clusters host, each of these clusters receives \<open>n div k\<close> or one more.\<close>

theorem round_robin_fair:
  assumes "distinct ms" and "m \<in> set ms" and "\<forall>q \<in> set reqs. snd q \<noteq> []"
    and "\<forall>q \<in> set reqs. fst q = t \<longrightarrow> snd q = ms" and "n = length (filter (\<lambda>q. fst q = t) reqs)"
  shows "n div length ms \<le> count_list (answers_for t (answers md5 reqs rz)) (Inr m)
    \<and> count_list (answers_for t (answers md5 reqs rz)) (Inr m) \<le> Suc (n div length ms)"
proof -
  from assms(2) obtain i where i: "i < length ms" "m = ms ! i" by (metis in_set_conv_nth)
  then have ne: "ms \<noteq> []" by auto
  have hit: "m = ms ! (x mod length ms) \<longleftrightarrow> x mod length ms = i" for x
    using i assms(1) nth_eq_iff_index_eq [OF assms(1) i(1), of "x mod length ms"] ne by auto
  have "count_list (map (\<lambda>x. Inr (ms ! (x mod length ms)) :: 'a res) xs) (Inr m) = length (filter (\<lambda>x. x mod length ms = i) xs)" for xs
    by (simp add: count_list_eq_length_filter filter_map comp_def hit)
  then show ?thesis
    unfolding answers_rotate [OF ne assms(4,3)] assms(5) using residues_between [OF i(1)] by simp
qed

section \<open>The fleet client routes to the right cluster\<close>

text \<open>
  A run of a program with a fleet client: it creates and deletes sandboxes, asks for resolutions, and
  uses the SDK clients behind the handles it got. The history, newest entry first, says on which cluster
  the program created the claims that it has not deleted since.
\<close>

definition logged :: "client \<Rightarrow> nat \<Rightarrow> string \<Rightarrow> (string \<times> string) list \<Rightarrow> (string \<times> string) list" where
  "logged cl a c hist =
     (case handle_at cl a of
        Some h \<Rightarrow> (case s_claim_name h of Some n \<Rightarrow> (n, c) # hist | None \<Rightarrow> hist)
      | None \<Rightarrow> hist)"

inductive fleet_run :: "'w fleet_env \<Rightarrow> 'w fleet_client \<times> (string \<times> string) list \<Rightarrow> bool" for env where
  start: "fleet_run env (new_fleet_client, [])"
| created: "fleet_run env (fc, hist) \<Longrightarrow> fleet_create fuel env t ns strategy args fc w = Some (Inr (c, a), fc', w') \<Longrightarrow>
    dict_get (fc_clients fc') c = Some (pf, cl) \<Longrightarrow> fleet_run env (fc', logged cl a c hist)"
| not_created: "fleet_run env (fc, hist) \<Longrightarrow> fleet_create fuel env t ns strategy args fc w = Some (Inl e, fc', w') \<Longrightarrow>
    fleet_run env (fc', hist)"
| deleted: "fleet_run env (fc, hist) \<Longrightarrow> fleet_delete env n ns cluster fc w = (Inr (), fc', w') \<Longrightarrow>
    fleet_run env (fc', filter (\<lambda>x. fst x \<noteq> n) hist)"
| not_deleted: "fleet_run env (fc, hist) \<Longrightarrow> fleet_delete env n ns cluster fc w = (Inl e, fc', w') \<Longrightarrow> fleet_run env (fc', hist)"
| resolved: "fleet_run env (fc, hist) \<Longrightarrow> resolve (fe_resolver env) t strategy refresh (fc_resolver fc) w = (r, rz, w') \<Longrightarrow>
    fleet_run env (fc\<lparr>fc_resolver := rz\<rparr>, hist)"
| used: "fleet_run env (fc, hist) \<Longrightarrow> dict_get (fc_clients fc) c = Some (pf, cl) \<Longrightarrow> client_step pf cl cl' \<Longrightarrow>
    fleet_run env (fc\<lparr>fc_clients := dict_set c (pf, cl') (fc_clients fc)\<rparr>, hist)"

text \<open>An SDK client is pinned to a cluster when its platform came from loading that cluster's context.\<close>

definition pinned :: "'w fleet_env \<Rightarrow> string \<Rightarrow> 'w platform \<Rightarrow> bool" where
  "pinned env c pf \<longleftrightarrow> (\<exists>naming w. rv_naming (fe_resolver env) = Some naming \<and> fst (fe_load env (naming c) w) = Some pf)"

definition clients_ok :: "'w fleet_env \<Rightarrow> 'w fleet_client \<Rightarrow> bool" where
  "clients_ok env fc \<longleftrightarrow> (\<forall>c pf cl. dict_get (fc_clients fc) c = Some (pf, cl) \<longrightarrow> pinned env c pf \<and> client_ok cl)"

lemma clients_ok_set:
  "clients_ok env fc \<Longrightarrow> pinned env c pf \<Longrightarrow> client_ok cl \<Longrightarrow>
     clients_ok env (fc\<lparr>fc_clients := dict_set c (pf, cl) (fc_clients fc)\<rparr>)"
  by (simp add: clients_ok_def)

lemma clients_ok_fields [simp]:
  "clients_ok env (fc\<lparr>fc_resolver := rz\<rparr>) = clients_ok env fc" "clients_ok env (fc\<lparr>fc_claims := cs\<rparr>) = clients_ok env fc"
  by (simp_all add: clients_ok_def)

lemma clients_ok_pop: "clients_ok env fc \<Longrightarrow> clients_ok env (fc\<lparr>fc_clients := dict_pop c (fc_clients fc)\<rparr>)"
  by (auto simp: clients_ok_def delete_conv' split: if_splits)

lemma get_or_build_cases:
  assumes "get_or_build_client env c (map_option (\<lambda>f. f c) (rv_naming (fe_resolver env))) fc w = (r, fc1, w1)"
  obtains (known) pc where "dict_get (fc_clients fc) c = Some pc" "r = Inr pc" "fc1 = fc"
    | (built) pf cl where "pinned env c pf" "client_ok cl" "r = Inr (pf, cl)"
        "fc1 = fc\<lparr>fc_clients := dict_set c (pf, cl) (fc_clients fc)\<rparr>"
    | (failed) "r = Inl ClusterUnavailableError" "fc1 = fc"
proof (cases "dict_get (fc_clients fc) c")
  case None
  show thesis
  proof (cases "rv_naming (fe_resolver env)")
    case (Some f)
    obtain o1 w2 where l: "fe_load env (f c) w = (o1, w2)" by fastforce
    then have "o1 = Some pf \<Longrightarrow> pinned env c pf" for pf using Some by (auto simp: pinned_def intro!: exI [of _ w])
    with assms None Some l show thesis
      by (cases o1) (auto simp: get_or_build_client_def Let_def intro: failed built [OF _ new_client_ok])
  qed (use assms None in \<open>auto simp: get_or_build_client_def intro: failed\<close>)
qed (use assms in \<open>auto simp: get_or_build_client_def intro: known\<close>)

lemma get_or_build_ok:
  assumes "get_or_build_client env c (map_option (\<lambda>f. f c) (rv_naming (fe_resolver env))) fc w = (r, fc1, w1)"
    and "clients_ok env fc"
  shows "clients_ok env fc1" and "fc_claims fc1 = fc_claims fc"
    and "\<forall>c'. c' \<noteq> c \<longrightarrow> dict_get (fc_clients fc1) c' = dict_get (fc_clients fc) c'"
    and "r = Inr (pf, cl) \<Longrightarrow> pinned env c pf \<and> client_ok cl"
  using assms(2) by (cases rule: get_or_build_cases [OF assms(1)]; auto simp: clients_ok_def)+

lemma mapE_in: "mapE f xs = Inr ys \<Longrightarrow> y \<in> set ys \<Longrightarrow> \<exists>x \<in> set xs. f x = Inr y"
  by (induction xs arbitrary: ys) (auto simp: bindE_eq_Inr)

lemma mapE_concat:
  assumes "mapE f xs = Inr mss" and "\<And>x ms. f x = Inr ms \<Longrightarrow> \<forall>y \<in> set ms. P y"
  shows "\<forall>y \<in> set (concat mss). P y"
  using mapE_in [OF assms(1)] assms(2) by fastforce

lemma resolve_context:
  assumes "resolve env t strategy refresh rz w = (Inr r, rz', w')"
  shows "rd_context r = map_option (\<lambda>f. f (rd_cluster r)) (rv_naming env)"
proof -
  let ?P = "\<lambda>x. rd_context x = map_option (\<lambda>f. f (rd_cluster x)) (rv_naming env)"
  have pool: "\<forall>x \<in> set ms. ?P x" if "pool_match env data t k p = Inr ms" for data k p ms
    using that by (auto simp: pool_match_def bindE_eq_Inr split: if_splits)
  have entry: "\<forall>x \<in> set ms. ?P x" if "entry_matches env data t e = Inr ms" for data e ms
  proof -
    have "ms = [] \<or> (\<exists>ps mss. mapE (pool_match env data t (fst e)) ps = Inr mss \<and> ms = concat mss)"
      using that by (auto simp: entry_matches_def bindE_eq_Inr split: if_splits)
    then show ?thesis using mapE_concat [where P = ?P, OF _ pool] by (elim disjE exE conjE) simp_all
  qed
  have data: "\<forall>x \<in> set ms. ?P x" if d: "matches_in env t data = Inr ms" for data ms
  proof -
    obtain cs where cs: "jget_dflt data ''clusters'' (JObj []) = Inr cs" using d by (auto simp: matches_in_def bindE_eq_Inr)
    obtain kvs mss where "mapE (entry_matches env data t) kvs = Inr mss" "ms = sort_key rd_cluster (concat mss)"
      using d cs by (cases cs) (auto simp: matches_in_def bindE_eq_Inr)
    then show ?thesis using mapE_concat [where P = ?P, OF _ entry] by simp
  qed
  obtain ms rz1 where l: "list_matches env t refresh rz w = (Inr ms, rz1, w')" and ms: "ms \<noteq> []"
    and c: "choose_match (rv_md5 env) t ms strategy rz1 = (Inr r, rz')"
    using assms by (auto simp: resolve_def split: sum.splits prod.splits if_splits)
  have "\<forall>x \<in> set ms. ?P x" using l data by (auto simp: list_matches_def bindE_eq_Inr split: prod.splits)
  moreover have "r \<in> set ms" using c ms by (auto simp: choose_match_def Let_def split: if_splits)
  ultimately show ?thesis by blast
qed

lemma fleet_create_cases:
  assumes "fleet_create fuel env t ns strategy args fc w = Some (r, fc', w')" and "clients_ok env fc"
  obtains (failed) e where "r = Inl e" "clients_ok env fc'" "fc_claims fc' = fc_claims fc"
    | (made) c a pf cl n where "r = Inr (c, a)" "clients_ok env fc'" "pinned env c pf"
        "dict_get (fc_clients fc') c = Some (pf, cl)" "handle_at cl a \<noteq> None" "s_claim_name (the (handle_at cl a)) = Some n"
        "fc_claims fc' = (if n = [] then fc_claims fc else dict_set n c (fc_claims fc))"
proof -
  obtain q rz w1 where q: "resolve (fe_resolver env) t (if str_true strategy then the strategy else fe_strategy env) False
    (fc_resolver fc) w = (q, rz, w1)" by (metis prod_cases3)
  show thesis
  proof (cases q)
    case (Inl e)
    with assms q show thesis by (intro failed [of e]) (auto simp: fleet_create_def)
  next
    case (Inr rc)
    note ctx = resolve_context [OF q [unfolded Inr]]
    obtain b fc1 w2 where b: "get_or_build_client env (rd_cluster rc) (rd_context rc) (fc\<lparr>fc_resolver := rz\<rparr>) w1 = (b, fc1, w2)"
      by (metis prod_cases3)
    have ok0: "clients_ok env (fc\<lparr>fc_resolver := rz\<rparr>)" using assms(2) by simp
    note ok = get_or_build_ok [OF b [unfolded ctx] ok0]
    show thesis
    proof (cases b)
      case (Inl e)
      with assms q b \<open>q = Inr rc\<close> ok(1,2) show thesis by (intro failed [of e]) (auto simp: fleet_create_def)
    next
      case (Inr pc)
      obtain pf cl where pc: "pc = (pf, cl)" by fastforce
      with Inr ok(4) have p: "pinned env (rd_cluster rc) pf" "client_ok cl" by auto
      obtain s cl' w3 where s: "create_sandbox fuel pf (sdk_args env rc ns args) cl w2 = Some (s, cl', w3)"
        using assms(1) q b \<open>q = Inr rc\<close> Inr pc by (auto simp: fleet_create_def split: option.splits)
      note cl' = create_sandbox_ok [OF p(2) s]
      show thesis
      proof (cases s)
        case (Inl e)
        with assms(1) q b \<open>q = Inr rc\<close> \<open>b = Inr pc\<close> pc s ok(1,2) show thesis
          by (intro failed [of e]) (auto simp: fleet_create_def intro: clients_ok_pop)
      next
        case (Inr a)
        obtain n h where h: "handle_at cl' a = Some h" "s_claim_name h = Some n"
          by (rule create_success [OF p(2) s [unfolded Inr]])
        have f: "fc' = (if n = [] then fc1\<lparr>fc_clients := dict_set (rd_cluster rc) (pf, cl') (fc_clients fc1)\<rparr>
            else fc1\<lparr>fc_clients := dict_set (rd_cluster rc) (pf, cl') (fc_clients fc1), fc_claims := dict_set n (rd_cluster rc) (fc_claims fc1)\<rparr>)"
          and r: "r = Inr (rd_cluster rc, a)"
          using assms(1) q b \<open>q = Inr rc\<close> \<open>b = Inr pc\<close> pc s Inr h
          by (auto simp: fleet_create_def Let_def extract_claim_name_def str_true_def split: if_splits)
        show thesis
          by (rule made [OF r _ p(1)]) (use f h ok(1,2) p(1) cl' in \<open>auto intro: clients_ok_set\<close>)
      qed
    qed
  qed
qed

lemma fleet_delete_cases:
  assumes "fleet_delete env n ns cluster fc w = (r, fc', w')" and "clients_ok env fc"
  obtains (failed) e where "r = Inl e" "clients_ok env fc'" "fc_claims fc' = fc_claims fc"
    | (sent) c pf cl w1 where "r = Inr ()" "clients_ok env fc'" "fc_claims fc' = dict_pop n (fc_claims fc)"
        "Some c = (if str_true cluster then cluster else dict_get (fc_claims fc) n)" "pinned env c pf" "client_ok cl"
        "w' = snd (delete_sandbox pf n (if str_true ns then the ns else fe_namespace env) cl w1)"
        "\<forall>c'. c' \<noteq> c \<longrightarrow> dict_get (fc_clients fc') c' = dict_get (fc_clients fc) c'"
proof -
  let ?owner = "if str_true cluster then cluster else dict_get (fc_claims fc) n"
  show thesis
  proof (cases "str_true ?owner")
    case False
    with assms show thesis by (intro failed [of ResolverError]) (auto simp: fleet_delete_def Let_def)
  next
    case True
    then obtain c where c: "?owner = Some c" "str_true (Some c)" by (auto simp: str_true_def split: if_splits)
    obtain b fc1 w1 where b: "get_or_build_client env c (map_option (\<lambda>f. f c) (rv_naming (fe_resolver env))) fc w = (b, fc1, w1)"
      by (metis prod_cases3)
    note ok = get_or_build_ok [OF b assms(2)]
    show thesis
    proof (cases b)
      case (Inl e)
      with assms c b ok(1,2) show thesis by (intro failed [of e]) (auto simp: fleet_delete_def Let_def)
    next
      case (Inr pc)
      obtain pf cl where pc: "pc = (pf, cl)" by fastforce
      obtain cl' w2 where d: "delete_sandbox pf n (if str_true ns then the ns else fe_namespace env) cl w1 = (cl', w2)" by fastforce
      from Inr pc ok(4) have p: "pinned env c pf" "client_ok cl" by auto
      have "client_ok cl'" using delete_sandbox_ok [OF p(2)] d by (metis fst_conv)
      moreover have "fc' = fc1\<lparr>fc_clients := dict_set c (pf, cl') (fc_clients fc1), fc_claims := dict_pop n (fc_claims fc1)\<rparr>"
        "r = Inr ()" "w' = w2"
        using assms(1) c b Inr pc d by (auto simp: fleet_delete_def Let_def)
      ultimately show thesis using ok(1-3) p c(1) d by (intro sent [of c pf cl w1]) (auto intro: clients_ok_set)
    qed
  qed
qed

lemma fleet_run_ok:
  "fleet_run env (fc, hist) \<Longrightarrow> clients_ok env fc \<and> (\<forall>n. n \<noteq> [] \<longrightarrow> dict_get (fc_claims fc) n = map_of hist n)"
proof (induction "(fc, hist)" arbitrary: fc hist rule: fleet_run.induct)
  case start
  show ?case by (simp add: clients_ok_def new_fleet_client_def)
next
  case (created fc hist fuel t ns strategy args w c a fc' w' pf cl)
  then have ok: "clients_ok env fc" "\<forall>n. n \<noteq> [] \<longrightarrow> dict_get (fc_claims fc) n = map_of hist n" by simp_all
  show ?case
    by (rule fleet_create_cases [OF created(3) ok(1)])
      (use created(4) ok(2) in \<open>auto simp: logged_def split: option.splits if_splits\<close>)
next
  case (not_created fc hist fuel t ns strategy args w e fc' w')
  then have ok: "clients_ok env fc" "\<forall>n. n \<noteq> [] \<longrightarrow> dict_get (fc_claims fc) n = map_of hist n" by simp_all
  show ?case by (rule fleet_create_cases [OF not_created(3) ok(1)]) (use ok(2) in auto)
next
  case (deleted fc hist n ns cluster w fc' w')
  then have ok: "clients_ok env fc" "\<forall>n. n \<noteq> [] \<longrightarrow> dict_get (fc_claims fc) n = map_of hist n" by simp_all
  have f: "map_of (filter (\<lambda>x. fst x \<noteq> n) hist) k = (if k = n then None else map_of hist k)" for k
    by (induction hist) auto
  show ?case by (rule fleet_delete_cases [OF deleted(3) ok(1)]) (use ok(2) in \<open>auto simp: f delete_conv'\<close>)
next
  case (not_deleted fc hist n ns cluster w e fc' w')
  then have ok: "clients_ok env fc" "\<forall>n. n \<noteq> [] \<longrightarrow> dict_get (fc_claims fc) n = map_of hist n" by simp_all
  show ?case by (rule fleet_delete_cases [OF not_deleted(3) ok(1)]) (use ok(2) in auto)
next
  case (resolved fc hist t strategy refresh w r rz w')
  then show ?case by simp
next
  case (used fc hist c pf cl cl')
  then show ?case by (auto intro!: clients_ok_set dest: client_step_ok simp: clients_ok_def)
qed

text \<open>(C7) A claim is deleted where it was created. In every run of a program with a fleet client, with any
  failures, re-created clients and uses of the handles in between: every cached SDK client is pinned
  to the context of the cluster it is cached for and keeps its registry consistent; and a deletion by
  name goes to an SDK client pinned to the cluster on which the program last created that claim, asks
  nothing of other clusters, and forgets only that claim. The name of a claim that the program has not
  created or has deleted is refused without any request.\<close>

theorem fleet_deletes_where_created:
  assumes "fleet_run env (fc, hist)" and "n \<noteq> []"
  shows "(\<forall>c pf cl. dict_get (fc_clients fc) c = Some (pf, cl) \<longrightarrow> pinned env c pf \<and> client_ok cl)
    \<and> (case map_of hist n of
         None \<Rightarrow> fleet_delete env n ns None fc w = (Inl ResolverError, fc, w)
       | Some c \<Rightarrow> \<forall>fc' w'. fleet_delete env n ns None fc w = (Inr (), fc', w') \<longrightarrow>
           (\<exists>pf cl w1. pinned env c pf \<and> client_ok cl
              \<and> w' = snd (delete_sandbox pf n (if str_true ns then the ns else fe_namespace env) cl w1))
           \<and> (\<forall>c'. c' \<noteq> c \<longrightarrow> dict_get (fc_clients fc') c' = dict_get (fc_clients fc) c')
           \<and> (\<forall>k. cluster_for fc' k = (if k = n then None else cluster_for fc k)))"
proof -
  have ok: "clients_ok env fc" and cl: "dict_get (fc_claims fc) n = map_of hist n"
    using fleet_run_ok [OF assms(1)] assms(2) by simp_all
  have s: "\<not> str_true None" by (simp add: str_true_def)
  show ?thesis
  proof (cases "map_of hist n")
    case None
    with cl ok s show ?thesis by (simp add: fleet_delete_def clients_ok_def)
  next
    case (Some c)
    have "(\<exists>pf cl w1. pinned env c pf \<and> client_ok cl
              \<and> w' = snd (delete_sandbox pf n (if str_true ns then the ns else fe_namespace env) cl w1))
           \<and> (\<forall>c'. c' \<noteq> c \<longrightarrow> dict_get (fc_clients fc') c' = dict_get (fc_clients fc) c')
           \<and> (\<forall>k. cluster_for fc' k = (if k = n then None else cluster_for fc k))"
      if "fleet_delete env n ns None fc w = (Inr (), fc', w')" for fc' w'
    proof (rule fleet_delete_cases [OF that ok])
      fix c1 pf cl1 w1
      assume h: "fc_claims fc' = dict_pop n (fc_claims fc)" "Some c1 = (if str_true None then None else dict_get (fc_claims fc) n)"
        "pinned env c1 pf" "client_ok cl1" "w' = snd (delete_sandbox pf n (if str_true ns then the ns else fe_namespace env) cl1 w1)"
        "\<forall>c'. c' \<noteq> c1 \<longrightarrow> dict_get (fc_clients fc') c' = dict_get (fc_clients fc) c'"
      then have "c1 = c" using s cl Some by simp
      with h show ?thesis by (auto simp: cluster_for_def delete_conv')
    qed simp
    with Some ok show ?thesis by (simp add: clients_ok_def)
  qed
qed

section \<open>A resolution, worked out\<close>

definition mem_resolver :: "mem_bucket resolver_env" where
  "mem_resolver = \<lparr>rv_bucket = mem_api, rv_paths = default_paths, rv_interval = 60, rv_naming = Some kind_context_naming,
     rv_retries = 3, rv_base_delay = 1 / 2, rv_md5 = length, rv_time = (\<lambda>w. (0, w)), rv_sleep = (\<lambda>_ w. w)\<rparr>"

lemma mem_resolver_quiet: "quiet_resolver mem_resolver mem_view"
  by (simp add: quiet_resolver_def mem_resolver_def mem_cas_bucket)

text \<open>The bucket after one publication.\<close>

definition bucket_with :: "assignments \<Rightarrow> mem_bucket" where
  "bucket_with a = [(''fleet/assignments.json'', 0, JsonText (sort_keys (assignments_json a)))]"

lemma mem_published:
  "publish (rv_bucket mem_resolver) (rv_paths mem_resolver) a None [] = (Inr (), bucket_with a)"
  "\<exists>rz. read_assignments mem_resolver True new_resolver (bucket_with a) = (Inr (sort_keys (assignments_json a)), rz, bucket_with a)"
proof -
  show "publish (rv_bucket mem_resolver) (rv_paths mem_resolver) a None [] = (Inr (), bucket_with a)"
    by (simp add: publish_def put_json_def mem_resolver_def mem_api_def default_paths_def bucket_with_def)
  have "sort_keys (assignments_json a) \<noteq> JNull" by (simp add: assignments_json_def)
  then have "read_with_retry mem_resolver (bucket_with a) = (Inr (sort_keys (assignments_json a)), bucket_with a)"
    by (simp add: read_with_retry_def mem_resolver_def numeral_3_eq_3 get_json_def mem_api_def default_paths_def bucket_with_def
        del: sort_keys.simps)
  then show "\<exists>rz. read_assignments mem_resolver True new_resolver (bucket_with a) = (Inr (sort_keys (assignments_json a)), rz, bucket_with a)"
    by (simp add: read_assignments_def mem_resolver_def)
qed

theorem wire_type_safe_witness:
  "\<exists>a p ms. plan sim_plan_env sim_plan_spec sim_plan_registry 7 (Some (sort_keys (assignments_json sim_old_plan))) = Inr a
     \<and> accept_plan initial_member ''gen:1'' (sort_keys (assignments_json a)) = (Inr (Some p, True), initial_member\<lparr>st_last_etag := ''gen:1''\<rparr>)
     \<and> matches_in mem_resolver ''x'' (sort_keys (assignments_json a)) = Inr ms"
proof -
  obtain a where a: "plan sim_plan_env sim_plan_spec sim_plan_registry 7 (Some (sort_keys (assignments_json sim_old_plan))) = Inr a"
    using sim_plan by blast
  from wire_type_safe [OF sim_plan_inputs(1) a, of initial_member "''gen:1''" mem_resolver "''x''"] a show ?thesis by blast
qed

theorem spec_templates_resolve_witness:
  "\<exists>a r rz. plan sim_plan_env sim_plan_spec sim_plan_registry 7 (Some (sort_keys (assignments_json sim_old_plan))) = Inr a
     \<and> resolve mem_resolver ''x'' ''round-robin'' True new_resolver (bucket_with a) = (Inr r, rz, bucket_with a)
     \<and> rd_cluster r = ''a'' \<and> rd_warmpool r = JStr ''x-pool'' \<and> rd_context r = Some ''kind-a''"
proof -
  obtain a where a: "plan sim_plan_env sim_plan_spec sim_plan_registry 7 (Some (sort_keys (assignments_json sim_old_plan))) = Inr a"
    using sim_plan by blast
  obtain rz where rz: "read_assignments mem_resolver True new_resolver (bucket_with a) = (Inr (sort_keys (assignments_json a)), rz, bucket_with a)"
    using mem_published(2) by blast
  have e: "map fst (registry_eligible sim_plan_registry) = [''a'']" "registry_eligible sim_plan_registry \<noteq> []"
    by (simp_all add: registry_eligible_def registry_fresh_def sim_plan_registry_def new_cluster_def)
  then have host: "(k, c) \<in> set (registry_eligible sim_plan_registry) \<Longrightarrow> k = ''a''" for k c
    by (metis fst_conv in_set_conv_decomp list.set_map list.simps(15) empty_set imageI singletonD)
  have t: "timestamps sim_plan_env" by (simp add: timestamps_def sim_plan_env_def)
  have x: "''x'' \<in> ms_template ` set (fs_models sim_plan_spec)" by (simp add: sim_plan_spec_def)
  from spec_templates_resolve [OF mem_resolver_quiet sim_plan_inputs(1,2) a t mem_published(1) rz, of "''round-robin''" "''x''"] e(2) x
  obtain r rz2 k p where r: "resolve mem_resolver ''x'' ''round-robin'' True new_resolver (bucket_with a) = (Inr (resolved_as mem_resolver a k p), rz2, bucket_with a)"
    "ap_warmpool p = warmpool_name ''x''" "\<exists>c. (k, c) \<in> set (registry_eligible sim_plan_registry)" by auto
  then have "k = ''a''" using host by blast
  with a r(1,2) show ?thesis by (auto simp: resolved_as_def warmpool_name_def mem_resolver_def kind_context_naming_def)
qed

theorem round_robin_fair_witness:
  "1 \<le> count_list (answers_for ''t'' (answers length [(''t'', [''p'', ''q'']), (''u'', [''r'']), (''t'', [''p'', ''q'']), (''t'', [''p'', ''q''])] new_resolver)) (Inr ''q'')
   \<and> count_list (answers_for ''t'' (answers length [(''t'', [''p'', ''q'']), (''u'', [''r'']), (''t'', [''p'', ''q'']), (''t'', [''p'', ''q''])] new_resolver)) (Inr ''q'') \<le> 2"
  using round_robin_fair [of "[''p'', ''q'']" "''q''" "[(''t'', [''p'', ''q'']), (''u'', [''r'']), (''t'', [''p'', ''q'']), (''t'', [''p'', ''q''])]"
      "''t''" 3 length new_resolver]
  by (simp add: numeral_2_eq_2 [symmetric] del: answers.simps)

text \<open>A fleet of one cluster: a template is created there and deleted again.\<close>

definition sim_fleet_payload :: json where
  "sim_fleet_payload = JObj [(''generation'', JInt 1), (''clusters'', JObj [(''a'', JObj [(''pools'', JList
     [JObj [(''template'', JStr ''x''), (''warmpool'', JStr ''pool''), (''replicas'', JInt 2)]])])])]"

definition sim_fleet :: "nat fleet_env" where
  "sim_fleet =
     \<lparr>fe_resolver = \<lparr>rv_bucket = \<lparr>gb_get_blob = (\<lambda>_ w. (Inr None, w)), gb_download = (\<lambda>_ _ w. (Inr (JsonText sim_fleet_payload), w)),
          gb_upload = (\<lambda>_ _ _ _ w. (Inl (GoogleAPIError 403), w)), gb_list = (\<lambda>_ w. (Inr [], w))\<rparr>,
        rv_paths = default_paths, rv_interval = 60, rv_naming = Some kind_context_naming, rv_retries = 3, rv_base_delay = 1 / 2,
        rv_md5 = length, rv_time = (\<lambda>w. (0, w)), rv_sleep = (\<lambda>_ w. w)\<rparr>,
      fe_namespace = ''ns'', fe_strategy = ''first'', fe_connection = sim_direct,
      fe_load = (\<lambda>_ w. (Some (sim_platform sim_claim), w))\<rparr>"

definition sim_hit :: resolved_cluster where
  "sim_hit = \<lparr>rd_cluster = ''a'', rd_template = JStr ''x'', rd_warmpool = JStr ''pool'', rd_replicas = 2, rd_image = JNull,
     rd_generation = 1, rd_context = Some ''kind-a''\<rparr>"

lemma sim_fleet_resolves:
  "\<exists>rz. resolve (fe_resolver sim_fleet) ''x'' ''first'' False new_resolver 0 = (Inr sim_hit, rz, 0)"
proof -
  have p: "sim_fleet_payload \<noteq> JNull" by (simp add: sim_fleet_payload_def)
  have r: "read_with_retry (fe_resolver sim_fleet) 0 = (Inr sim_fleet_payload, 0)"
    by (simp add: read_with_retry_def sim_fleet_def numeral_3_eq_3 get_json_def p)
  have "matches_in (fe_resolver sim_fleet) ''x'' sim_fleet_payload = Inr [sim_hit]"
    by (simp add: matches_in_def sim_fleet_payload_def entry_matches_def pool_match_def positive_def py_int_def jindex_def
        sim_hit_def sim_fleet_def kind_context_naming_def)
  moreover have "rv_time (fe_resolver sim_fleet) w = (0, w)" for w by (simp add: sim_fleet_def)
  ultimately show ?thesis using r
    by (simp add: resolve_def list_matches_def read_assignments_def new_resolver_def choose_match_def)
qed

lemma sim_fleet_creates:
  "\<exists>cl w' h. create_sandbox (Suc 0) (sim_platform sim_claim) (sdk_args sim_fleet sim_hit None sim_create) (new_client sim_direct) 0
     = Some (Inr 0, cl, w') \<and> handle_at cl 0 = Some h \<and> s_claim_name h = Some ''sandbox-claim-0123abcd''"
proof -
  let ?pf = "sim_platform sim_claim" and ?n = "''sandbox-claim-0123abcd''"
  let ?args = "sim_create\<lparr>cr_labels := Some []\<rparr>"
  have args: "sdk_args sim_fleet sim_hit None sim_create = ?args"
    by (simp add: sdk_args_def sim_create_def sim_hit_def as_str_def str_true_def sim_fleet_def)
  have ch: "create_checks ?pf ?args cl 0 = (Inr (None, None, ?n), cl, 1)" for cl
    by (simp add: create_checks_def sim_create_def dict_true_def build_pod_metadata_def lifecycle_of_def sim_platform_def)
  obtain claim where c: "create_or_adopt ?pf ?args ?n None None 1 = (Inr claim, True, 2)"
      "claim_identity claim = Inr (JNull, JNull)"
    by (simp add: create_or_adopt_def create_claim_def sim_platform_def sim_create_def create_sandbox_claim_def
      claim_manifest_def sim_kube_def str_true_def construct_sandbox_claim_env_spec_def or_empty_def jstrs_def
      claim_identity_def jor_def)
  have "await_claim (Suc 0) ?pf ?args ?n claim 2 = Some (Inr (JStr ''sb''), JNull, 2)"
    using c sim_wait [of 0 ?n "''ns''" JNull 2]
    by (simp add: await_claim_def sim_create_def uid_opt_def sim_platform_def)
  with c ch show ?thesis unfolding args
    by (simp add: create_sandbox_def reusable_def new_client_def register_new_def alloc_handle_def Let_def track_def new_handle_def
        handle_at_def set_handle_def sim_create_def)
qed

theorem fleet_deletes_where_created_witness:
  "\<exists>fc hist n fc' w w'. fleet_run sim_fleet (fc, hist) \<and> map_of hist n = Some ''a''
     \<and> fleet_delete sim_fleet n None None fc w = (Inr (), fc', w')
     \<and> (\<exists>pf. pinned sim_fleet ''a'' pf) \<and> cluster_for fc' n = None"
proof -
  obtain rz where rz: "resolve (fe_resolver sim_fleet) ''x'' ''first'' False new_resolver 0 = (Inr sim_hit, rz, 0)"
    using sim_fleet_resolves by blast
  let ?n = "''sandbox-claim-0123abcd''"
  obtain cl w' h where cl: "create_sandbox (Suc 0) (sim_platform sim_claim) (sdk_args sim_fleet sim_hit None sim_create)
      (new_client sim_direct) 0 = Some (Inr 0, cl, w')" and h: "handle_at cl 0 = Some h" "s_claim_name h = Some ?n"
    using sim_fleet_creates by blast
  have f: "fe_strategy sim_fleet = ''first''" "fe_load sim_fleet ctx w = (Some (sim_platform sim_claim), w)"
    "fe_connection sim_fleet = sim_direct" for ctx w by (simp_all add: sim_fleet_def)
  obtain fc where fc: "fleet_create (Suc 0) sim_fleet ''x'' None None sim_create new_fleet_client 0 = Some (Inr (''a'', 0), fc, w')"
      "dict_get (fc_clients fc) ''a'' = Some (sim_platform sim_claim, cl)"
    using rz cl by (simp add: fleet_create_def new_fleet_client_def get_or_build_client_def f sim_hit_def [THEN arg_cong [of _ _ rd_cluster]]
      sim_hit_def [THEN arg_cong [of _ _ rd_context]] str_true_def Let_def split: option.splits)
  have run: "fleet_run sim_fleet (fc, [(?n, ''a'')])"
    using fleet_run.created [OF fleet_run.start fc] h by (simp add: logged_def)
  have claims: "dict_get (fc_claims fc) ?n = Some ''a''" using fleet_run_ok [OF run] by simp
  obtain fc' w2 where d: "fleet_delete sim_fleet ?n None None fc w' = (Inr (), fc', w2)"
    using claims fc(2) by (cases "delete_sandbox (sim_platform sim_claim) ?n (fe_namespace sim_fleet) cl w'")
      (simp add: fleet_delete_def str_true_def get_or_build_client_def Let_def)
  have hist: "map_of [(?n, ''a'')] ?n = Some ''a''" by simp
  from fleet_deletes_where_created [OF run, of ?n None w', unfolded hist option.case] d
  have "(\<exists>pf. pinned sim_fleet ''a'' pf) \<and> cluster_for fc' ?n = None" by (metis list.discI)
  with run hist d show ?thesis by blast
qed

end
